(* ===== verification/Prelude.thy ===== *)
theory Prelude
  imports Complex_Main "HOL-Library.State_Monad" "HOL-Library.Monad_Syntax"
    "HOL-Library.Char_ord" "HOL-Library.List_Lexorder" "HOL-Library.Sublist"
begin

text \<open>
  What the component theories share: the Go error values, the result type of a fallible call,
  64-bit arithmetic written out on \<open>int\<close>, and a small Hoare layer over the state monad of
  HOL-Library, with its rules in the collection \<open>hoare\<close>.
\<close>

subsection \<open>Error values\<close>

text \<open>
  A Go \<open>error\<close> is a value of \<open>goerr\<close>: \<open>EMsg\<close> for \<open>fmt.Errorf\<close> with a text,
  \<open>EWrap\<close> for \<open>fmt.Errorf("...: %w", err)\<close>, \<open>ESvc\<close> for an error that a driver or a
  service hands back, and the sentinel \<open>store.ErrMachineLimit\<close>, which the code compares by
  identity. \<open>ETooOld\<close> and \<open>EStatus\<close> keep the number that the message prints. \<open>EPanic\<close> is a nil
  dereference, which ends the request.
\<close>

datatype goerr =
    EMsg string
  | EWrap string goerr
  | ESvc string
  | ETooOld int
  | EStatus string int
  | EMachineLimit
  | EPanic

type_synonym 'a result = "goerr + 'a"

abbreviation ret :: "'a \<Rightarrow> ('s, 'a) state" where
  "ret \<equiv> State_Monad.return"

abbreviation run :: "('s, 'a) state \<Rightarrow> 's \<Rightarrow> 'a \<times> 's" where
  "run \<equiv> run_state"

abbreviation (input) exec_state :: "('s, 'a) state \<Rightarrow> 's \<Rightarrow> 's" where
  "exec_state m s \<equiv> snd (run_state m s)"

subsection \<open>64-bit integers\<close>

text \<open>Go's \<open>int\<close>, \<open>int64\<close> and \<open>time.Duration\<close> are 64-bit two's complement.\<close>

definition wrap64 :: "int \<Rightarrow> int" where
  "wrap64 x = (x + 2 ^ 63) mod 2 ^ 64 - 2 ^ 63"

definition max64 :: int where
  "max64 = 2 ^ 63 - 1"

definition min64 :: int where
  "min64 = - (2 ^ 63)"

definition in64 :: "int \<Rightarrow> bool" where
  "in64 x \<longleftrightarrow> min64 \<le> x \<and> x \<le> max64"

definition sat64 :: "int \<Rightarrow> int" where
  "sat64 x = (if x < min64 then min64 else if max64 < x then max64 else x)"

lemma wrap64_id: "in64 x \<Longrightarrow> wrap64 x = x"
  by (simp add: wrap64_def in64_def min64_def max64_def)

lemma in64_wrap64 [simp]: "in64 (wrap64 x)"
proof -
  have "0 \<le> (x + 2 ^ 63) mod 2 ^ 64" "(x + 2 ^ 63) mod 2 ^ 64 < (2 ^ 64 :: int)"
    by simp_all
  then show ?thesis
    by (simp add: wrap64_def in64_def min64_def max64_def)
qed

lemma in64_sat64 [simp]: "in64 (sat64 x)"
  by (simp add: sat64_def in64_def min64_def max64_def)

lemma sat64_id: "in64 x \<Longrightarrow> sat64 x = x"
  by (simp add: sat64_def in64_def)

lemma wrap64_min64 [simp]: "wrap64 (- min64) = min64"
  by (simp add: wrap64_def min64_def)

text \<open>Rounding of an integer to the 53-bit significand of a \<open>float64\<close>, ties to even.\<close>

fun bit_width :: "nat \<Rightarrow> nat" where
  "bit_width n = (if n = 0 then 0 else Suc (bit_width (n div 2)))"

declare bit_width.simps [simp del]

lemma bit_width_bounds: "0 < n \<Longrightarrow> 2 ^ (bit_width n - 1) \<le> n \<and> n < 2 ^ bit_width n \<and> 0 < bit_width n"
proof (induction n rule: bit_width.induct)
  case (1 n)
  have b: "bit_width n = Suc (bit_width (n div 2))"
    using 1(2) by (subst bit_width.simps) simp
  show ?case
  proof (cases "n div 2 = 0")
    case True
    then have "n = 1" using 1(2) by simp
    then show ?thesis by (simp add: bit_width.simps)
  next
    case False
    then have h: "2 ^ (bit_width (n div 2) - 1) \<le> n div 2" "n div 2 < 2 ^ bit_width (n div 2)" "0 < bit_width (n div 2)"
      using 1(1,2) by auto
    then have "2 * 2 ^ (bit_width (n div 2) - 1) = (2 :: nat) ^ bit_width (n div 2)"
      by (metis Suc_diff_1 power_Suc)
    moreover have "2 * (n div 2) \<le> n" "n < 2 * (n div 2 + 1)" by presburger+
    ultimately have "2 ^ bit_width (n div 2) \<le> n" "n < 2 * 2 ^ bit_width (n div 2)"
      using h by linarith+
    then show ?thesis by (simp add: b)
  qed
qed

definition round_even :: "int \<Rightarrow> int \<Rightarrow> int" where
  "round_even n d = (let q = n div d; r = n mod d in
     if 2 * r < d then q else if d < 2 * r then q + 1
     else if even q then q else q + 1)"

definition float_of_int :: "int \<Rightarrow> int" where
  "float_of_int x = (if \<bar>x\<bar> \<le> 2 ^ 53 then x
     else let s = 2 ^ (bit_width (nat \<bar>x\<bar>) - 53)
       in sgn x * (round_even \<bar>x\<bar> s * s))"

lemma float_of_int_exact: "\<bar>x\<bar> \<le> 2 ^ 53 \<Longrightarrow> float_of_int x = x"
  by (simp add: float_of_int_def)

subsection \<open>A Hoare layer over the state monad\<close>

named_theorems hoare \<open>introduction rules for \<open>valid\<close> and \<open>preserves\<close>\<close>

definition valid :: "('s \<Rightarrow> bool) \<Rightarrow> ('s, 'a) state \<Rightarrow> ('a \<Rightarrow> 's \<Rightarrow> bool) \<Rightarrow> bool" where
  "valid P m Q \<longleftrightarrow> (\<forall>s. P s \<longrightarrow> (case run_state m s of (a, s') \<Rightarrow> Q a s'))"

definition preserves :: "('s \<Rightarrow> bool) \<Rightarrow> ('s, 'a) state \<Rightarrow> bool" where
  "preserves P m \<longleftrightarrow> (\<forall>s. P s \<longrightarrow> P (snd (run_state m s)))"

definition keeps :: "('s \<Rightarrow> 'v) \<Rightarrow> ('s, 'a) state \<Rightarrow> bool" where
  "keeps f m \<longleftrightarrow> (\<forall>s. f (snd (run_state m s)) = f s)"

lemma validI: "(\<And>s a s'. P s \<Longrightarrow> run_state m s = (a, s') \<Longrightarrow> Q a s') \<Longrightarrow> valid P m Q"
  by (auto simp: valid_def)

lemma validD: "valid P m Q \<Longrightarrow> P s \<Longrightarrow> run_state m s = (a, s') \<Longrightarrow> Q a s'"
  by (fastforce simp: valid_def)

lemma valid_return: "(\<And>s. P s \<Longrightarrow> Q a s) \<Longrightarrow> valid P (State_Monad.return a) Q"
  by (simp add: valid_def)

lemma valid_bind:
  assumes "valid P m Q" and "\<And>a. valid (Q a) (f a) R"
  shows "valid P (State_Monad.bind m f) R"
  using assms unfolding valid_def by (fastforce split: prod.splits)

lemma valid_weaken:
  assumes "valid P m Q" and "\<And>s. P' s \<Longrightarrow> P s" and "\<And>a s. Q a s \<Longrightarrow> Q' a s"
  shows "valid P' m Q'"
  using assms unfolding valid_def by (fastforce split: prod.splits)

lemma preservesD: "preserves P m \<Longrightarrow> run_state m s = (a, s') \<Longrightarrow> P s \<Longrightarrow> P s'"
  by (force simp: preserves_def)

lemma preservesI: "(\<And>s a s'. P s \<Longrightarrow> run_state m s = (a, s') \<Longrightarrow> P s') \<Longrightarrow> preserves P m"
  by (metis preserves_def prod.collapse)

lemma preserves_return [hoare, simp]: "preserves P (State_Monad.return a)"
  by (simp add: preserves_def)

lemma preserves_bind [hoare]:
  "preserves P m \<Longrightarrow> (\<And>a. preserves P (f a)) \<Longrightarrow> preserves P (State_Monad.bind m f)"
  by (auto simp: preserves_def split: prod.splits)

lemma preserves_if [hoare]:
  "(b \<Longrightarrow> preserves P m) \<Longrightarrow> (\<not> b \<Longrightarrow> preserves P n) \<Longrightarrow> preserves P (if b then m else n)"
  by simp

lemma preserves_option [hoare]:
  "(x = None \<Longrightarrow> preserves P m) \<Longrightarrow> (\<And>y. x = Some y \<Longrightarrow> preserves P (f y))
    \<Longrightarrow> preserves P (case x of None \<Rightarrow> m | Some y \<Rightarrow> f y)"
  by (cases x) simp_all

lemma preserves_sum [hoare]:
  "(\<And>e. x = Inl e \<Longrightarrow> preserves P (g e)) \<Longrightarrow> (\<And>y. x = Inr y \<Longrightarrow> preserves P (f y))
    \<Longrightarrow> preserves P (case x of Inl e \<Rightarrow> g e | Inr y \<Rightarrow> f y)"
  by (cases x) simp_all

lemma preserves_prod [hoare]:
  "(\<And>a b. x = (a, b) \<Longrightarrow> preserves P (f a b)) \<Longrightarrow> preserves P (case x of (a, b) \<Rightarrow> f a b)"
  by (cases x) simp

lemma preserves_let [hoare]:
  "preserves P (f x) \<Longrightarrow> preserves P (let y = x in f y)"
  by simp

lemma preserves_get [hoare, simp]: "preserves P State_Monad.get"
  by (simp add: preserves_def)

lemma keepsD: "keeps f m \<Longrightarrow> run_state m s = (a, s') \<Longrightarrow> f s' = f s"
  by (metis keeps_def snd_conv)

lemma keeps_iff_preserves: "keeps f m \<longleftrightarrow> (\<forall>v. preserves (\<lambda>s. f s = v) m)"
  by (auto simp: keeps_def preserves_def)

lemma keeps_return [hoare, simp]: "keeps f (State_Monad.return a)"
  by (simp add: keeps_def)

lemma keeps_get [hoare, simp]: "keeps f State_Monad.get"
  by (simp add: keeps_def)

lemma keeps_bind [hoare]:
  "keeps f m \<Longrightarrow> (\<And>a. keeps f (g a)) \<Longrightarrow> keeps f (State_Monad.bind m g)"
  unfolding keeps_iff_preserves by (blast intro: preserves_bind)

lemma keeps_if [hoare]:
  "(b \<Longrightarrow> keeps f m) \<Longrightarrow> (\<not> b \<Longrightarrow> keeps f n) \<Longrightarrow> keeps f (if b then m else n)"
  by simp

lemma keeps_option [hoare]:
  "(x = None \<Longrightarrow> keeps f m) \<Longrightarrow> (\<And>y. x = Some y \<Longrightarrow> keeps f (g y))
    \<Longrightarrow> keeps f (case x of None \<Rightarrow> m | Some y \<Rightarrow> g y)"
  by (cases x) simp_all

lemma keeps_sum [hoare]:
  "(\<And>e. x = Inl e \<Longrightarrow> keeps f (h e)) \<Longrightarrow> (\<And>y. x = Inr y \<Longrightarrow> keeps f (g y))
    \<Longrightarrow> keeps f (case x of Inl e \<Rightarrow> h e | Inr y \<Rightarrow> g y)"
  by (cases x) simp_all

lemma keeps_prod [hoare]:
  "(\<And>a b. x = (a, b) \<Longrightarrow> keeps f (g a b)) \<Longrightarrow> keeps f (case x of (a, b) \<Rightarrow> g a b)"
  by (cases x) simp

lemma keeps_let [hoare]:
  "keeps f (g x) \<Longrightarrow> keeps f (let y = x in g y)"
  by simp

end
