(* ===== verification/GoStrings.thy ===== *)
theory GoStrings
  imports Prelude
begin

text \<open>
  The functions of Go's \<open>strings\<close> and \<open>strconv\<close> packages that the program uses, on byte
  strings (\<open>char list\<close>). Case mapping and white space are those of ASCII; bytes from 128 on
  are left alone.
\<close>

definition is_space :: "char \<Rightarrow> bool" where
  "is_space c \<longleftrightarrow> c \<in> set [CHR 0x09, CHR 0x0A, CHR 0x0B, CHR 0x0C, CHR 0x0D, CHR '' '']"

definition is_digit :: "char \<Rightarrow> bool" where
  "is_digit c \<longleftrightarrow> 48 \<le> (of_char c :: nat) \<and> (of_char c :: nat) \<le> 57"

definition digit_val :: "char \<Rightarrow> int" where
  "digit_val c = int (of_char c) - 48"

definition digit_char :: "nat \<Rightarrow> char" where
  "digit_char n = char_of (48 + n)"

definition upper_char :: "char \<Rightarrow> char" where
  "upper_char c = (let n = of_char c :: nat in if 97 \<le> n \<and> n \<le> 122 then char_of (n - 32) else c)"

definition ToUpper :: "string \<Rightarrow> string" where
  "ToUpper s = map upper_char s"

definition TrimSpace :: "string \<Rightarrow> string" where
  "TrimSpace s = rev (dropWhile is_space (rev (dropWhile is_space s)))"

definition Trim :: "string \<Rightarrow> string \<Rightarrow> string" where
  "Trim s cutset = rev (dropWhile (\<lambda>c. c \<in> set cutset) (rev (dropWhile (\<lambda>c. c \<in> set cutset) s)))"

definition HasPrefix :: "string \<Rightarrow> string \<Rightarrow> bool" where
  "HasPrefix s p \<longleftrightarrow> take (length p) s = p"

definition HasSuffix :: "string \<Rightarrow> string \<Rightarrow> bool" where
  "HasSuffix s p \<longleftrightarrow> length p \<le> length s \<and> drop (length s - length p) s = p"

fun Contains :: "string \<Rightarrow> string \<Rightarrow> bool" where
  "Contains [] p = (p = [])"
| "Contains (c # cs) p = (take (length p) (c # cs) = p \<or> Contains cs p)"

text \<open>\<open>strings.IndexByte\<close> and \<open>strings.LastIndex\<close> for one byte; \<open>None\<close> is Go's \<open>-1\<close>.\<close>

fun IndexByte :: "string \<Rightarrow> char \<Rightarrow> nat option" where
  "IndexByte [] c = None"
| "IndexByte (x # xs) c = (if x = c then Some 0 else map_option Suc (IndexByte xs c))"

definition LastIndexByte :: "string \<Rightarrow> char \<Rightarrow> nat option" where
  "LastIndexByte s c = map_option (\<lambda>i. length s - 1 - i) (IndexByte (rev s) c)"

fun Split :: "string \<Rightarrow> char \<Rightarrow> string list" where
  "Split [] sep = [[]]"
| "Split (c # cs) sep = (if c = sep then [] # Split cs sep
     else case Split cs sep of [] \<Rightarrow> [[c]] | w # ws \<Rightarrow> (c # w) # ws)"

fun Join :: "string list \<Rightarrow> string \<Rightarrow> string" where
  "Join [] sep = []"
| "Join [w] sep = w"
| "Join (w # ws) sep = w @ sep @ Join ws sep"

fun nat_text :: "nat \<Rightarrow> string" where
  "nat_text n = (if n < 10 then [digit_char n] else nat_text (n div 10) @ [digit_char (n mod 10)])"

declare nat_text.simps [simp del]

text \<open>\<open>strconv.FormatInt(n, 10)\<close> and the verb \<open>%d\<close>.\<close>

definition FormatInt :: "int \<Rightarrow> string" where
  "FormatInt n = (if n < 0 then CHR ''-'' # nat_text (nat (- n)) else nat_text (nat n))"

definition digits_val :: "string \<Rightarrow> int" where
  "digits_val s = foldl (\<lambda>a c. 10 * a + digit_val c) 0 s"

text \<open>\<open>strconv.Atoi\<close>: an optional sign and at least one digit, within 64 bits.\<close>

definition Atoi :: "string \<Rightarrow> int option" where
  "Atoi s = (let neg = HasPrefix s ''-''; t = (if neg \<or> HasPrefix s ''+'' then tl s else s) in
     if t = [] \<or> \<not> list_all is_digit t then None
     else let v = (if neg then - digits_val t else digits_val t) in
       if in64 v then Some v else None)"

subsection \<open>Lemmas\<close>

lemma length_ToUpper [simp]: "length (ToUpper s) = length s"
  by (simp add: ToUpper_def)

lemma ToUpper_Nil [simp]: "ToUpper [] = []"
  by (simp add: ToUpper_def)

lemma ToUpper_eq_Nil [simp]: "ToUpper s = [] \<longleftrightarrow> s = []"
  by (simp add: ToUpper_def)

lemma upper_char_code:
  "(of_char (upper_char c) :: nat) =
     (if 97 \<le> (of_char c :: nat) \<and> (of_char c :: nat) \<le> 122 then of_char c - 32 else of_char c)"
proof -
  have "(of_char c - 32 :: nat) < 256"
    by (rule le_less_trans [OF diff_le_self nat_of_char_less_256])
  then show ?thesis by (simp add: upper_char_def Let_def)
qed

lemma upper_char_idem [simp]: "upper_char (upper_char c) = upper_char c"
proof (cases "97 \<le> (of_char c :: nat) \<and> (of_char c :: nat) \<le> 122")
  case True
  then have "of_char (upper_char c) = (of_char c :: nat) - 32"
    by (simp add: upper_char_code)
  with True have "\<not> 97 \<le> (of_char (upper_char c) :: nat)" by linarith
  then show ?thesis
    by (simp add: upper_char_def [of "upper_char c"] Let_def)
next
  case False
  then show ?thesis by (auto simp: upper_char_def Let_def)
qed

lemma ToUpper_idem [simp]: "ToUpper (ToUpper s) = ToUpper s"
  by (simp add: ToUpper_def)

lemma is_space_code:
  "is_space c \<longleftrightarrow> (of_char c :: nat) \<in> {9, 10, 11, 12, 13, 32}"
proof -
  have "(of_char c :: nat) = of_char d \<longleftrightarrow> c = d" for d :: char
    by (metis char_of_char)
  from this [of "CHR 0x09"] this [of "CHR 0x0A"] this [of "CHR 0x0B"] this [of "CHR 0x0C"]
    this [of "CHR 0x0D"] this [of "CHR '' ''"]
  show ?thesis by (simp add: is_space_def)
qed

lemma is_space_upper [simp]: "is_space (upper_char c) \<longleftrightarrow> is_space c"
  unfolding is_space_code upper_char_code by auto

lemma dropWhile_space_upper:
  "dropWhile is_space (map upper_char s) = map upper_char (dropWhile is_space s)"
  by (induction s) simp_all

lemma TrimSpace_ToUpper: "TrimSpace (ToUpper s) = ToUpper (TrimSpace s)"
  by (simp add: TrimSpace_def ToUpper_def dropWhile_space_upper rev_map)

lemma dropWhile_rev_dropWhile_rev:
  assumes "dropWhile P (rev (dropWhile P (rev s))) = t"
  shows "dropWhile P t = t"
  by (metis assms dropWhile_idem)

lemma TrimSpace_ends:
  "TrimSpace s = [] \<or> (\<not> is_space (hd (TrimSpace s)) \<and> \<not> is_space (last (TrimSpace s)))"
proof (cases "TrimSpace s = []")
  case False
  define d where "d = dropWhile is_space s"
  define e where "e = dropWhile is_space (rev d)"
  have t: "TrimSpace s = rev e"
    by (simp add: TrimSpace_def d_def e_def)
  with False have e: "e \<noteq> []" by simp
  then have le: "\<not> is_space (hd e)"
    unfolding e_def by (rule hd_dropWhile)
  have d: "d \<noteq> []" using e by (auto simp: e_def)
  have "\<not> is_space (hd d)"
    using d unfolding d_def by (rule hd_dropWhile)
  moreover have "hd (rev e) = hd d"
  proof -
    obtain p where "rev d = p @ e"
      unfolding e_def by (metis takeWhile_dropWhile_id)
    then have "d = rev e @ rev p" by (metis rev_append rev_rev_ident)
    with e show ?thesis by simp
  qed
  ultimately show ?thesis
    using t e le by (simp add: last_rev)
qed simp

lemma TrimSpace_id:
  assumes "s = [] \<or> (\<not> is_space (hd s) \<and> \<not> is_space (last s))"
  shows "TrimSpace s = s"
proof (cases "s = []")
  case False
  with assms have "dropWhile is_space s = s" "dropWhile is_space (rev s) = rev s"
    by (simp_all add: dropWhile_eq_self_iff hd_rev)
  then show ?thesis by (simp add: TrimSpace_def)
qed (simp add: TrimSpace_def)

lemma TrimSpace_idem [simp]: "TrimSpace (TrimSpace s) = TrimSpace s"
  by (rule TrimSpace_id) (rule TrimSpace_ends)

lemma IndexByte_None: "IndexByte s c = None \<longleftrightarrow> c \<notin> set s"
  by (induction s) auto

lemma IndexByte_Some:
  "IndexByte s c = Some i \<Longrightarrow> i < length s \<and> s ! i = c \<and> c \<notin> set (take i s)"
  by (induction s arbitrary: i) (auto split: if_splits)

lemma Split_neq_Nil [simp]: "Split s c \<noteq> []"
  by (induction s) (auto split: list.splits)

lemma Split_no_sep: "c \<notin> set s \<Longrightarrow> Split s c = [s]"
  by (induction s) auto

lemma Split_append_sep: "c \<notin> set s \<Longrightarrow> Split (s @ c # t) c = s # Split t c"
  by (induction s) auto

lemma Split_Join:
  assumes "ws \<noteq> []" and "\<And>w. w \<in> set ws \<Longrightarrow> c \<notin> set w"
  shows "Split (Join ws [c]) c = ws"
  using assms
proof (induction ws "[c]" rule: Join.induct)
  case (3 w v ws)
  then show ?case by (simp add: Split_append_sep)
qed (simp_all add: Split_no_sep)

lemma Split_parts: "w \<in> set (Split s c) \<Longrightarrow> c \<notin> set w"
  by (induction s arbitrary: w) (fastforce split: if_splits list.splits)+

lemma digit_char_digit [simp]: "n < 10 \<Longrightarrow> is_digit (digit_char n)"
  by (simp add: is_digit_def digit_char_def)

lemma digit_val_char [simp]:
  "n < 10 \<Longrightarrow> digit_val (digit_char n) = int n"
  by (simp add: digit_val_def digit_char_def)

lemma nat_text_digits: "list_all is_digit (nat_text n)"
proof (induction n rule: nat_text.induct)
  case (1 n)
  then show ?case by (subst nat_text.simps) simp
qed

lemma nat_text_neq_Nil [simp]: "nat_text n \<noteq> []"
  by (subst nat_text.simps) simp

lemma digits_val_snoc: "digits_val (s @ [c]) = 10 * digits_val s + digit_val c"
  by (simp add: digits_val_def)

lemma digits_val_nat_text [simp]: "digits_val (nat_text n) = int n"
proof (induction n rule: nat_text.induct)
  case (1 n)
  show ?case
  proof (cases "n < 10")
    case True
    then show ?thesis by (subst nat_text.simps) (simp add: digits_val_def)
  next
    case False
    then have "nat_text n = nat_text (n div 10) @ [digit_char (n mod 10)]"
      by (subst nat_text.simps) simp
    then have "digits_val (nat_text n) = 10 * digits_val (nat_text (n div 10)) + int (n mod 10)"
      by (simp add: digits_val_snoc)
    also have "\<dots> = int (10 * (n div 10) + n mod 10)"
      unfolding "1" [OF False] by (simp only: of_nat_add of_nat_mult of_nat_numeral)
    finally show ?thesis by (simp only: mult_div_mod_eq)
  qed
qed

lemma nat_text_inj: "nat_text m = nat_text n \<Longrightarrow> m = n"
  by (drule arg_cong [where f = digits_val]) simp

lemma digit_not_sign:
  assumes "is_digit c" shows "c \<noteq> CHR ''-''" "c \<noteq> CHR ''+''" "c \<noteq> CHR '':''" "c \<noteq> CHR ''.''"
  using assms by (auto simp: is_digit_def)

lemma takeWhile_digits:
  assumes "list_all is_digit s" and "r = [] \<or> \<not> is_digit (hd r)"
  shows "takeWhile is_digit (s @ r) = s" and "dropWhile is_digit (s @ r) = r"
  using assms by (induction s; cases r; simp)+

lemma nat_text_hd: "is_digit (hd (nat_text n))"
  using nat_text_digits [of n] by (cases "nat_text n") auto

lemma FormatInt_no_colon: "CHR '':'' \<notin> set (FormatInt n)"
proof -
  have "CHR '':'' \<notin> set (nat_text k)" for k
    using nat_text_digits [of k] digit_not_sign(3) unfolding list_all_iff by blast
  then show ?thesis by (simp add: FormatInt_def)
qed

lemma nat_text_no_sign:
  "\<not> HasPrefix (nat_text k) ''-''" "\<not> HasPrefix (nat_text k) ''+''" "nat_text k \<noteq> CHR ''-'' # t"
  using nat_text_hd [of k] digit_not_sign [of "hd (nat_text k)"]
  by (cases "nat_text k"; simp add: HasPrefix_def)+

lemma FormatInt_inj:
  assumes "FormatInt m = FormatInt n" shows "m = n"
proof (cases "m < 0 \<longleftrightarrow> n < 0")
  case True
  with assms have "nat (- m) = nat (- n) \<and> m < 0 \<and> n < 0 \<or> nat m = nat n \<and> \<not> m < 0 \<and> \<not> n < 0"
    by (cases "m < 0") (simp_all add: FormatInt_def nat_text_inj)
  then show ?thesis by linarith
next
  case False
  with assms nat_text_no_sign(3) show ?thesis
    by (cases "m < 0") (simp_all add: FormatInt_def, metis)
qed

lemma Atoi_FormatInt:
  assumes "in64 n" shows "Atoi (FormatInt n) = Some n"
proof (cases "n < 0")
  case True
  with assms show ?thesis
    by (simp add: Atoi_def FormatInt_def HasPrefix_def Let_def nat_text_digits)
next
  case False
  with assms show ?thesis
    by (simp add: Atoi_def FormatInt_def Let_def nat_text_digits nat_text_no_sign)
qed

lemma append_sep_inj:
  assumes "a @ c # b = a' @ c # b'" and "c \<notin> set a" and "c \<notin> set a'"
  shows "a = a' \<and> b = b'"
  using assms by (induction a arbitrary: a') (auto simp: Cons_eq_append_conv append_eq_Cons_conv)

end
