(* ===== verification/GoTime.thy ===== *)
theory GoTime
  imports GoStrings
begin

text \<open>
  What the program uses of Go's \<open>time\<close> package: instants, saturating differences, the RFC 3339
  parser (the lenient one of \<open>time.Parse\<close> and the strict one of \<open>Time.UnmarshalJSON\<close>) and the
  strict formatter of \<open>Time.MarshalJSON\<close>. An instant is a count of nanoseconds since the Unix
  epoch; a \<open>gotime\<close> also keeps the zone offset in seconds. The main results are that the strict
  parser reads back what the formatter prints and that a difference saturates at 64 bits.
\<close>

record gotime =
  inst :: int
  zone :: int

subsection \<open>Durations\<close>

definition Millisecond :: int where "Millisecond = 10 ^ 6"
definition Second :: int where "Second = 10 ^ 9"
definition Minute :: int where "Minute = 60 * Second"
definition Hour :: int where "Hour = 60 * Minute"

lemmas duration_units = Millisecond_def Second_def Minute_def Hour_def

text \<open>\<open>t.Sub(u)\<close> saturates at the ends of the 64-bit range; \<open>time.Since\<close> is \<open>Now().Sub\<close>.\<close>

definition Sub :: "int \<Rightarrow> int \<Rightarrow> int" where
  "Sub t u = sat64 (t - u)"

subsection \<open>The proleptic Gregorian calendar\<close>

definition leap :: "int \<Rightarrow> bool" where
  "leap y \<longleftrightarrow> y mod 4 = 0 \<and> (y mod 100 \<noteq> 0 \<or> y mod 400 = 0)"

definition days_before_year :: "int \<Rightarrow> int" where
  "days_before_year y = (let z = y - 1 in 365 * z + z div 4 - z div 100 + z div 400)"

fun month_days :: "bool \<Rightarrow> nat \<Rightarrow> int" where
  "month_days l m = (if m = 2 then (if l then 29 else 28)
     else if m = 4 \<or> m = 6 \<or> m = 9 \<or> m = 11 then 30 else 31)"

fun days_before_month :: "bool \<Rightarrow> nat \<Rightarrow> int" where
  "days_before_month l 0 = 0"
| "days_before_month l (Suc 0) = 0"
| "days_before_month l (Suc (Suc m)) = days_before_month l (Suc m) + month_days l (Suc m)"

declare month_days.simps [simp del]

text \<open>Days since 1 January of the year 1; the Unix epoch is day 719162.\<close>

definition day_number :: "int \<Rightarrow> nat \<Rightarrow> int \<Rightarrow> int" where
  "day_number y m d = days_before_year y + days_before_month (leap y) m + (d - 1)"

definition epoch_day :: int where
  "epoch_day = 719162"

lemma day_number_epoch: "day_number 1970 1 1 = epoch_day"
  by (simp add: day_number_def days_before_year_def epoch_day_def)

definition year_of :: "int \<Rightarrow> int" where
  "year_of n = (let y = (400 * n) div 146097 + 1 in
     if n < days_before_year y then y - 1
     else if days_before_year (y + 1) \<le> n then y + 1 else y)"

function find_month :: "bool \<Rightarrow> int \<Rightarrow> nat \<Rightarrow> nat \<times> int" where
  "find_month l r m = (if m < 12 \<and> month_days l m \<le> r
     then find_month l (r - month_days l m) (Suc m) else (m, r + 1))"
  by pat_completeness auto
termination
  by (relation "measure (\<lambda>(l, r, m). 12 - m)") auto

declare find_month.simps [simp del]

text \<open>The civil date of a day: year, month and day of the month.\<close>

definition civil :: "int \<Rightarrow> int \<times> nat \<times> int" where
  "civil n = (let y = year_of n; (m, d) = find_month (leap y) (n - days_before_year y) 1
     in (y, m, d))"

lemma int_div_bounds:
  fixes z k :: int
  assumes "0 < k"
  shows "k * (z div k) \<le> z \<and> z \<le> k * (z div k) + (k - 1)"
proof -
  have "z = k * (z div k) + z mod k" by simp
  moreover have "0 \<le> z mod k" "z mod k < k" using assms by simp_all
  ultimately show ?thesis by linarith
qed

lemma days_before_year_bounds:
  "146097 * (y - 1) - 700 \<le> 400 * days_before_year y
    \<and> 400 * days_before_year y \<le> 146097 * (y - 1) + 396"
proof -
  define z where "z = y - 1"
  obtain a b c where abc: "a = z div 4" "b = z div 100" "c = z div 400" by blast
  have "4 * a \<le> z" "z \<le> 4 * a + 3" "100 * b \<le> z" "z \<le> 100 * b + 99"
    "400 * c \<le> z" "z \<le> 400 * c + 399"
    using int_div_bounds [of 4 z] int_div_bounds [of 100 z] int_div_bounds [of 400 z]
    unfolding abc by simp_all
  then show ?thesis
    unfolding days_before_year_def z_def [symmetric] Let_def abc [symmetric]
    by (simp add: algebra_simps)
qed

lemma year_of_correct: "days_before_year (year_of n) \<le> n \<and> n < days_before_year (year_of n + 1)"
proof -
  define y where "y = (400 * n) div 146097 + 1"
  have "400 * n = 146097 * (y - 1) + (400 * n) mod 146097"
    unfolding y_def by simp
  moreover have "0 \<le> (400 * n) mod 146097" "(400 * n) mod 146097 < 146097"
    by simp_all
  ultimately have lo: "146097 * (y - 1) \<le> 400 * n" and hi: "400 * n < 146097 * (y - 1) + 146097"
    by linarith+
  have "days_before_year (y - 1) \<le> n"
    using days_before_year_bounds [of "y - 1"] lo by (simp add: algebra_simps)
  moreover have "n < days_before_year (y + 2)"
    using days_before_year_bounds [of "y + 2"] hi by (simp add: algebra_simps)
  ultimately show ?thesis
    unfolding year_of_def y_def [symmetric] Let_def by (simp add: add.commute)
qed

lemma int_div_Suc:
  fixes z k :: int
  assumes k: "1 < k"
  shows "(z + 1) div k = z div k + (if (z + 1) mod k = 0 then 1 else 0)"
proof -
  define q where "q = z div k"
  have zq: "z = k * q + z mod k" unfolding q_def by simp
  have r: "0 \<le> z mod k" "z mod k < k"
    using k by simp_all
  show ?thesis
  proof (cases "z mod k + 1 = k")
    case True
    then have z: "z + 1 = k * (q + 1) + 0"
      using zq by (simp add: algebra_simps)
    have "(z + 1) div k = q + 1" "(z + 1) mod k = 0"
      using int_div_pos_eq [OF z] int_mod_pos_eq [OF z] k by simp_all
    then show ?thesis by (simp add: q_def)
  next
    case False
    have z: "z + 1 = k * q + (z mod k + 1)"
      using zq by simp
    have "(z + 1) div k = q" "(z + 1) mod k = z mod k + 1"
      using int_div_pos_eq [OF z] int_mod_pos_eq [OF z] r False by simp_all
    with r show ?thesis by (simp add: q_def)
  qed
qed

lemma year_step:
  "365 * y + (a + p) - (b + q) + (c + r)
    = 365 * (y - 1) + a - b + c + 365 + p - q + (r :: int)"
  by simp

lemma leap_count:
  assumes "c \<Longrightarrow> b" and "b \<Longrightarrow> a"
  shows "x + 365 + (if a then 1 else 0) - (if b then 1 else 0) + (if c then 1 else 0)
    = x + (if a \<and> (\<not> b \<or> c) then 366 else (365 :: int))"
  using assms by (cases a; cases b; cases c) simp_all

lemma days_before_year_Suc: "days_before_year (y + 1) = days_before_year y + (if leap y then 366 else 365)"
proof -
  have d: "1 < k \<Longrightarrow> y div k = (y - 1) div k + (if y mod k = 0 then 1 else 0)" for k
    using int_div_Suc [of k "y - 1"] unfolding diff_add_cancel .
  have e: "y div 4 = (y - 1) div 4 + (if y mod 4 = 0 then 1 else 0)" by (rule d) simp
  have e': "y div 100 = (y - 1) div 100 + (if y mod 100 = 0 then 1 else 0)" by (rule d) simp
  have e'': "y div 400 = (y - 1) div 400 + (if y mod 400 = 0 then 1 else 0)" by (rule d) simp
  have m: "y mod 400 = 0 \<Longrightarrow> y mod 100 = 0" using mod_mod_cancel [of 100 400 y] by simp
  have m': "y mod 100 = 0 \<Longrightarrow> y mod 4 = 0" using mod_mod_cancel [of 4 100 y] by simp
  have "days_before_year (y + 1) = 365 * y + y div 4 - y div 100 + y div 400"
    by (simp add: days_before_year_def)
  also have "\<dots> = days_before_year y + 365 + (if y mod 4 = 0 then 1 else 0)
      - (if y mod 100 = 0 then 1 else 0) + (if y mod 400 = 0 then 1 else 0)"
    unfolding e e' e'' days_before_year_def Let_def by (rule year_step)
  also have "\<dots> = days_before_year y + (if leap y then 366 else 365)"
    unfolding leap_def using m m' by (rule leap_count)
  finally show ?thesis .
qed

lemma month_days_pos: "28 \<le> month_days l m" "month_days l m \<le> 31"
  by (simp_all add: month_days.simps)

lemma find_month_correct:
  assumes "find_month l r m = (m', d)" and "1 \<le> m" and "m \<le> 12" and "0 \<le> r"
    and "days_before_month l m + r < (if l then 366 else 365)"
  shows "m \<le> m' \<and> m' \<le> 12 \<and> 1 \<le> d \<and> d \<le> month_days l m'
    \<and> days_before_month l m' + d = days_before_month l m + r + 1"
  using assms
proof (induction l r m rule: find_month.induct)
  case (1 l r m)
  obtain k where m: "m = Suc k" using "1.prems"(2) by (cases m) auto
  show ?case
  proof (cases "m < 12 \<and> month_days l m \<le> r")
    case True
    have "find_month l (r - month_days l m) (Suc m) = (m', d)"
      using "1.prems"(1) True by (subst (asm) find_month.simps) simp
    moreover have "days_before_month l (Suc m) = days_before_month l m + month_days l m"
      by (simp add: m)
    ultimately show ?thesis
      using "1.IH" [OF True] "1.prems" True by fastforce
  next
    case False
    then have eq: "m' = m" "d = r + 1"
      using "1.prems"(1) by (subst (asm) find_month.simps; simp)+
    have "days_before_month l 12 = (if l then 335 else 334)"
      by (simp add: eval_nat_numeral month_days.simps)
    moreover have "month_days l 12 = 31" by (simp add: month_days.simps)
    ultimately have "r < month_days l m"
      using False "1.prems"(3,5) by (cases "m = 12") (auto split: if_splits)
    then show ?thesis using "1.prems" eq by simp
  qed
qed

text \<open>The civil date is a valid date, and the day it names is the day it came from.\<close>

lemma civil_correct:
  assumes "civil n = (y, m, d)"
  shows "1 \<le> m \<and> m \<le> 12 \<and> 1 \<le> d \<and> d \<le> month_days (leap y) m \<and> day_number y m d = n"
proof -
  define r where "r = n - days_before_year y"
  have y: "y = year_of n" and fm: "find_month (leap y) r 1 = (m, d)"
    using assms by (auto simp: civil_def r_def Let_def split: prod.splits)
  have "0 \<le> r" "r < (if leap y then 366 else 365)"
    using year_of_correct [of n] unfolding r_def y days_before_year_Suc by auto
  with find_month_correct [OF fm] show ?thesis
    by (simp add: day_number_def r_def)
qed

subsection \<open>Formatting and parsing RFC 3339\<close>

fun pad :: "nat \<Rightarrow> nat \<Rightarrow> string" where
  "pad 0 n = []"
| "pad (Suc k) n = pad k (n div 10) @ [digit_char (n mod 10)]"

definition strip_zeros :: "string \<Rightarrow> string" where
  "strip_zeros s = rev (dropWhile (\<lambda>c. c = CHR ''0'') (rev s))"

definition frac_text :: "nat \<Rightarrow> string" where
  "frac_text n = (if n = 0 then [] else CHR ''.'' # strip_zeros (pad 9 n))"

definition zone_text :: "int \<Rightarrow> string" where
  "zone_text off = (if off = 0 then ''Z''
     else let z = nat (\<bar>off\<bar> div 60) in
       (if off < 0 \<and> z \<noteq> 0 then CHR ''-'' else CHR ''+'') # pad 2 (z div 60) @ CHR '':'' # pad 2 (z mod 60))"

text \<open>
  \<open>Time.MarshalJSON\<close> prints RFC 3339 with nanoseconds and fails on a year beyond four digits or
  a zone of 24 hours or more.
\<close>

definition format_rfc3339 :: "gotime \<Rightarrow> string option" where
  "format_rfc3339 t = (let secs = inst t div Second + zone t; ns = inst t mod Second;
       (y, m, d) = civil (secs div 86400 + epoch_day); r = nat (secs mod 86400) in
     if y < 0 \<or> 9999 < y \<or> 86400 \<le> \<bar>zone t\<bar> then None
     else Some (pad 4 (nat y) @ CHR ''-'' # pad 2 m @ CHR ''-'' # pad 2 (nat d) @ CHR ''T''
       # pad 2 (r div 3600) @ CHR '':'' # pad 2 (r div 60 mod 60) @ CHR '':''
       # pad 2 (r mod 60) @ frac_text (nat ns) @ zone_text (zone t)))"

text \<open>\<open>Time.Format("15:04:05")\<close>: the clock of the time's own zone.\<close>

definition clock_text :: "gotime \<Rightarrow> string" where
  "clock_text t = (let r = nat ((inst t div Second + zone t) mod 86400) in
     pad 2 (r div 3600) @ CHR '':'' # pad 2 (r div 60 mod 60) @ CHR '':'' # pad 2 (r mod 60))"

definition take_num :: "nat \<Rightarrow> string \<Rightarrow> (int \<times> string) option" where
  "take_num k s = (if k \<le> length s \<and> list_all is_digit (take k s)
     then Some (digits_val (take k s), drop k s) else None)"

fun lit :: "char \<Rightarrow> string \<Rightarrow> string option" where
  "lit c [] = None"
| "lit c (x # xs) = (if x = c then Some xs else None)"

text \<open>\<open>time.Parse\<close> takes an hour of one digit, \<open>UnmarshalJSON\<close> does not.\<close>

definition hour_num :: "bool \<Rightarrow> string \<Rightarrow> (int \<times> string) option" where
  "hour_num strict s = (case take_num 2 s of
     Some r \<Rightarrow> Some r | None \<Rightarrow> if strict then None else take_num 1 s)"

definition frac_num :: "bool \<Rightarrow> string \<Rightarrow> int \<times> string" where
  "frac_num strict s = (case s of
     p # d # _ \<Rightarrow> if (p = CHR ''.'' \<or> (p = CHR '','' \<and> \<not> strict)) \<and> is_digit d
       then (digits_val (take 9 (takeWhile is_digit (tl s) @ replicate 9 CHR ''0'')),
             dropWhile is_digit (tl s))
       else (0, s)
   | _ \<Rightarrow> (0, s))"

definition zone_num :: "bool \<Rightarrow> string \<Rightarrow> int option" where
  "zone_num strict s = (if s = ''Z'' then Some 0 else
     case s of
       [] \<Rightarrow> None
     | c # r \<Rightarrow> do {
         (h, r) \<leftarrow> take_num 2 r;
         r \<leftarrow> lit CHR '':'' r;
         (m, r) \<leftarrow> take_num 2 r;
         if r \<noteq> [] \<or> (if strict then 24 \<le> h \<or> 60 \<le> m else 24 < h \<or> 60 < m) then None
         else if c = CHR ''+'' then Some ((h * 60 + m) * 60)
         else if c = CHR ''-'' then Some (- ((h * 60 + m) * 60))
         else None })"

definition parse_rfc3339 :: "bool \<Rightarrow> string \<Rightarrow> gotime option" where
  "parse_rfc3339 strict s = do {
     (y, s) \<leftarrow> take_num 4 s; s \<leftarrow> lit CHR ''-'' s;
     (m, s) \<leftarrow> take_num 2 s; s \<leftarrow> lit CHR ''-'' s;
     (d, s) \<leftarrow> take_num 2 s; s \<leftarrow> lit CHR ''T'' s;
     (h, s) \<leftarrow> hour_num strict s; s \<leftarrow> lit CHR '':'' s;
     (mi, s) \<leftarrow> take_num 2 s; s \<leftarrow> lit CHR '':'' s;
     (se, s) \<leftarrow> take_num 2 s;
     let (ns, s) = frac_num strict s;
     off \<leftarrow> zone_num strict s;
     if m < 1 \<or> 12 < m \<or> 24 \<le> h \<or> 60 \<le> mi \<or> 60 \<le> se \<or> d < 1
       \<or> month_days (leap y) (nat m) < d then None
     else Some \<lparr>inst = ((day_number y (nat m) d - epoch_day) * 86400 + h * 3600 + mi * 60 + se - off)
         * Second + ns, zone = off\<rparr> }"

text \<open>\<open>time.Parse(time.RFC3339, s)\<close>, as an instant.\<close>

definition ParseRFC3339 :: "string \<Rightarrow> int option" where
  "ParseRFC3339 s = map_option inst (parse_rfc3339 False s)"

subsection \<open>The parser reads what the formatter prints\<close>

lemma length_pad [simp]: "length (pad k n) = k"
  by (induction k arbitrary: n) simp_all

lemma pad_digits [simp]: "list_all is_digit (pad k n)"
  by (induction k arbitrary: n) simp_all

lemma digits_val_pad: "digits_val (pad k n) = int (n mod 10 ^ k)"
proof (induction k arbitrary: n)
  case 0
  then show ?case by (simp add: digits_val_def)
next
  case (Suc k)
  have "n mod (10 * 10 ^ k) = 10 * (n div 10 mod 10 ^ k) + n mod 10"
    by (rule mod_mult2_eq)
  then show ?case
    by (simp add: digits_val_snoc Suc.IH)
qed

lemma take_num_pad: "n < 10 ^ k \<Longrightarrow> take_num k (pad k n @ r) = Some (int n, r)"
  by (simp add: take_num_def digits_val_pad)

lemma strip_zeros_fill: "strip_zeros s @ replicate (length s - length (strip_zeros s)) CHR ''0'' = s"
proof -
  have "rev s = takeWhile (\<lambda>c. c = CHR ''0'') (rev s) @ rev (strip_zeros s)"
    by (simp add: strip_zeros_def)
  moreover have "takeWhile (\<lambda>c. c = CHR ''0'') (rev s)
      = replicate (length (takeWhile (\<lambda>c. c = CHR ''0'') (rev s))) CHR ''0''"
    by (rule replicate_length_same [symmetric]) (auto dest: set_takeWhileD)
  ultimately obtain n where "rev s = replicate n CHR ''0'' @ rev (strip_zeros s)" by metis
  then have s: "s = strip_zeros s @ replicate n CHR ''0''"
    by (metis rev_append rev_replicate rev_rev_ident)
  then have "length s = length (strip_zeros s) + n" by (metis length_append length_replicate)
  with s show ?thesis by (metis add_diff_cancel_left')
qed

lemma strip_zeros_digits: "list_all is_digit s \<Longrightarrow> list_all is_digit (strip_zeros s)"
  unfolding strip_zeros_def list_all_iff by (metis set_dropWhileD set_rev)

lemma strip_zeros_neq_Nil:
  assumes "0 < n" and "n < 10 ^ k" shows "strip_zeros (pad k n) \<noteq> []"
proof
  assume "strip_zeros (pad k n) = []"
  then have "pad k n = replicate k CHR ''0''"
    using strip_zeros_fill [of "pad k n"] by simp
  moreover have "digits_val (replicate k CHR ''0'') = 0"
    by (induction k) (simp_all add: digits_val_def digit_val_def)
  ultimately show False
    using digits_val_pad [of k n] assms by simp
qed

lemma not_digit_zone: "zone_text off = c # r \<Longrightarrow> \<not> is_digit c \<and> c \<noteq> CHR ''.'' \<and> c \<noteq> CHR '',''"
  by (auto simp: zone_text_def Let_def is_digit_def split: if_splits)

lemma zone_text_neq_Nil [simp]: "zone_text off \<noteq> []"
  by (simp add: zone_text_def Let_def)

lemma frac_num_text:
  assumes "n < 10 ^ 9"
  shows "frac_num True (frac_text n @ zone_text off) = (int n, zone_text off)"
proof (cases "n = 0")
  case True
  obtain c r where "zone_text off = c # r" by (meson neq_Nil_conv zone_text_neq_Nil)
  with not_digit_zone [OF this] True show ?thesis
    by (cases r) (auto simp: frac_num_def frac_text_def)
next
  case False
  let ?s = "strip_zeros (pad 9 n)" and ?z = "zone_text off"
  have ne: "?s \<noteq> []" using False assms by (intro strip_zeros_neq_Nil) simp_all
  have dg: "\<And>c. c \<in> set ?s \<Longrightarrow> is_digit c"
    using strip_zeros_digits [OF pad_digits, of 9 n] by (simp add: list_all_iff)
  obtain d ds where ds: "?s = d # ds" using ne by (cases ?s) auto
  have z: "takeWhile is_digit ?z = [] \<and> dropWhile is_digit ?z = ?z"
    using not_digit_zone by (cases ?z) auto
  have tw: "takeWhile is_digit (?s @ ?z) = ?s" "dropWhile is_digit (?s @ ?z) = ?z"
    using dg z by simp_all
  have le: "length ?s \<le> 9"
    using strip_zeros_fill [of "pad 9 n"] by (metis length_append length_pad le_add1)
  then have "take 9 (?s @ replicate 9 CHR ''0'') = ?s @ replicate (9 - length ?s) CHR ''0''"
    by simp
  also have "\<dots> = pad 9 n" using strip_zeros_fill [of "pad 9 n"] by simp
  finally have v: "digits_val (take 9 (?s @ replicate 9 CHR ''0'')) = int n"
    using assms by (simp add: digits_val_pad)
  show ?thesis
    using False dg [of d] tw v by (simp add: frac_num_def frac_text_def ds)
qed

lemma zone_num_text:
  assumes "off mod 60 = 0" and "\<bar>off\<bar> < 86400"
  shows "zone_num True (zone_text off) = Some off"
proof (cases "off = 0")
  case True
  then show ?thesis by (simp add: zone_text_def zone_num_def)
next
  case False
  define z where "z = nat (\<bar>off\<bar> div 60)"
  obtain k where k: "off = 60 * k" using assms(1) by (auto simp: mod_eq_0_iff_dvd)
  then have "\<bar>off\<bar> = 60 * \<bar>k\<bar>" by (simp add: abs_mult)
  then have abs: "\<bar>off\<bar> = 60 * int z" unfolding z_def by simp
  then have z0: "z \<noteq> 0" and "z < 1440" using False assms(2) by auto
  then have zb: "z div 60 < 24" by (simp add: div_less_iff_less_mult)
  have hm: "(int (z div 60) * 60 + int (z mod 60)) * 60 = \<bar>off\<bar>"
    unfolding abs by (metis div_mult_mod_eq mult.commute of_nat_add of_nat_mult of_nat_numeral)
  have "take_num 2 (pad 2 (z div 60) @ t) = Some (int (z div 60), t)" for t
    using zb by (intro take_num_pad) simp
  moreover have "take_num 2 (pad 2 (z mod 60)) = Some (int (z mod 60), [])"
    using take_num_pad [of "z mod 60" 2 "[]"] by simp
  moreover have "off < 0 \<Longrightarrow> - \<bar>off\<bar> = off" "\<not> off < 0 \<Longrightarrow> \<bar>off\<bar> = off" by simp_all
  ultimately show ?thesis
    using False z0 zb hm by (simp add: zone_text_def zone_num_def z_def [symmetric] Let_def)
qed

lemma hour_num_pad: "n < 100 \<Longrightarrow> hour_num strict (pad 2 n @ r) = Some (int n, r)"
  by (simp add: hour_num_def take_num_pad)

theorem parse_format_rfc3339:
  assumes f: "format_rfc3339 t = Some s" and z: "zone t mod 60 = 0"
  shows "parse_rfc3339 True s = Some t"
proof -
  define secs where "secs = inst t div Second + zone t"
  define ns where "ns = inst t mod Second"
  define r where "r = nat (secs mod 86400)"
  obtain y m d where c: "civil (secs div 86400 + epoch_day) = (y, m, d)"
    by (metis prod_cases3)
  note cc = civil_correct [OF c]
  have ok: "0 \<le> y" "y \<le> 9999" "\<bar>zone t\<bar> < 86400"
    and s: "s = pad 4 (nat y) @ CHR ''-'' # pad 2 m @ CHR ''-'' # pad 2 (nat d) @ CHR ''T''
       # pad 2 (r div 3600) @ CHR '':'' # pad 2 (r div 60 mod 60) @ CHR '':''
       # pad 2 (r mod 60) @ frac_text (nat ns) @ zone_text (zone t)"
    using f c unfolding format_rfc3339_def secs_def [symmetric] ns_def [symmetric] r_def [symmetric]
    by (auto simp: Let_def r_def split: if_splits)
  have ns: "0 \<le> ns" "ns < 10 ^ 9" unfolding ns_def Second_def by simp_all
  have d31: "d \<le> 31" "1 \<le> d" using cc month_days_pos(2) [of "leap y" m] by linarith+
  have r: "r < 86400" unfolding r_def by simp
  have rr: "int (r div 3600) * 3600 + int (r div 60 mod 60) * 60 + int (r mod 60) = int r"
  proof -
    have "r div 3600 = r div 60 div 60" by (simp flip: div_mult2_eq)
    moreover have "r div 60 div 60 * 60 + r div 60 mod 60 = r div 60" "r div 60 * 60 + r mod 60 = r"
      by (rule div_mult_mod_eq)+
    ultimately have "r div 3600 * 3600 + r div 60 mod 60 * 60 + r mod 60 = r" by linarith
    from arg_cong [OF this, of int] show ?thesis
      by (simp only: of_nat_add of_nat_mult of_nat_numeral)
  qed
  have p: "parse_rfc3339 True s = Some
     \<lparr>inst = ((day_number y m d - epoch_day) * 86400 + int r - zone t) * Second + ns, zone = zone t\<rparr>"
  proof -
    have "take_num 4 (pad 4 (nat y) @ q) = Some (y, q)" for q
      using ok take_num_pad [of "nat y" 4 q] by simp
    moreover have "take_num 2 (pad 2 m @ q) = Some (int m, q)" for q
      using cc by (intro take_num_pad) simp
    moreover have "take_num 2 (pad 2 (nat d) @ q) = Some (d, q)" for q
      using d31 take_num_pad [of "nat d" 2 q] by simp
    moreover have "hour_num True (pad 2 (r div 3600) @ q) = Some (int (r div 3600), q)" for q
      using r by (intro hour_num_pad) simp
    moreover have "take_num 2 (pad 2 (r div 60 mod 60) @ q) = Some (int (r div 60 mod 60), q)"
      "take_num 2 (pad 2 (r mod 60) @ q) = Some (int (r mod 60), q)" for q
      by (simp_all add: take_num_pad)
    moreover have "frac_num True (frac_text (nat ns) @ zone_text (zone t)) = (ns, zone_text (zone t))"
      using ns frac_num_text [of "nat ns"] by simp
    moreover have "int (r div 3600) < 24" "int (r div 60 mod 60) < 60" "int (r mod 60) < 60"
      using r by simp_all
    ultimately show ?thesis
      using cc zone_num_text [OF z ok(3)] rr
      unfolding s parse_rfc3339_def by (simp add: Let_def not_le)
  qed
  have "(day_number y m d - epoch_day) * 86400 + int r = secs"
    using cc by (simp add: r_def)
  then have "((day_number y m d - epoch_day) * 86400 + int r - zone t) * Second + ns = inst t"
    by (simp add: secs_def ns_def)
  with p show ?thesis by simp
qed

end
