(* ===== verification/Crypto.thy ===== *)
theory Crypto
  imports GoStrings "HOL-Library.Word"
begin

text \<open>
  The cryptographic functions of Go's standard library that the program calls, on byte strings:
  \<open>crypto/sha256\<close> (FIPS 180-4), \<open>crypto/hmac\<close> (RFC 2104), \<open>encoding/hex\<close> and
  \<open>encoding/base64\<close> with the standard alphabet. Nothing here is a security assumption: the
  theorems that use these functions need only their lengths and the injectivity of the
  encodings.
\<close>

unbundle bit_operations_syntax

type_synonym byte = "8 word"

definition bytes_of :: "string \<Rightarrow> byte list" where
  "bytes_of s = map (\<lambda>c. of_nat (of_char c)) s"

subsection \<open>SHA-256\<close>

text \<open>
  The constants are the first 32 bits of the fractional parts of the cube roots (round
  constants) and of the square roots (initial hash) of the first primes. \<open>iroot_bits\<close> computes
  the integer \<open>k\<close>-th root of \<open>n\<close> bit by bit from above.
\<close>

fun iroot_bits :: "nat \<Rightarrow> nat \<Rightarrow> nat \<Rightarrow> nat \<Rightarrow> nat" where
  "iroot_bits k n 0 r = r"
| "iroot_bits k n (Suc b) r = iroot_bits k n b (if (r + 2 ^ b) ^ k \<le> n then r + 2 ^ b else r)"

definition sha_primes :: "nat list" where
  "sha_primes = [
    2, 3, 5, 7, 11, 13, 17, 19, 23, 29, 31, 37, 41, 43, 47, 53,
    59, 61, 67, 71, 73, 79, 83, 89, 97, 101, 103, 107, 109, 113, 127, 131,
    137, 139, 149, 151, 157, 163, 167, 173, 179, 181, 191, 193, 197, 199, 211, 223,
    227, 229, 233, 239, 241, 251, 257, 263, 269, 271, 277, 281, 283, 293, 307, 311]"

definition sha_k :: "32 word list" where
  "sha_k = map (\<lambda>p. of_nat (iroot_bits 3 (p * 2 ^ 96) 36 0)) sha_primes"

definition sha_h0 :: "32 word list" where
  "sha_h0 = map (\<lambda>p. of_nat (iroot_bits 2 (p * 2 ^ 64) 36 0)) (take 8 sha_primes)"

definition rotr :: "nat \<Rightarrow> 32 word \<Rightarrow> 32 word" where
  "rotr n x = drop_bit n x OR push_bit (32 - n) x"

fun sha_schedule :: "nat \<Rightarrow> 32 word list \<Rightarrow> 32 word list" where
  "sha_schedule 0 w = w"
| "sha_schedule (Suc n) w = (let i = length w; a = w ! (i - 15); b = w ! (i - 2);
     s0 = rotr 7 a XOR rotr 18 a XOR drop_bit 3 a;
     s1 = rotr 17 b XOR rotr 19 b XOR drop_bit 10 b
   in sha_schedule n (w @ [w ! (i - 16) + s0 + w ! (i - 7) + s1]))"

fun sha_round :: "32 word list \<Rightarrow> 32 word \<times> 32 word \<Rightarrow> 32 word list" where
  "sha_round [a, b, c, d, e, f, g, h] (k, w) = (let
     s1 = rotr 6 e XOR rotr 11 e XOR rotr 25 e;
     ch = (e AND f) XOR (NOT e AND g);
     t1 = h + s1 + ch + k + w;
     s0 = rotr 2 a XOR rotr 13 a XOR rotr 22 a;
     maj = (a AND b) XOR (a AND c) XOR (b AND c)
   in [t1 + (s0 + maj), a, b, c, d + t1, e, f, g])"
| "sha_round hs _ = hs"

definition sha_block :: "32 word list \<Rightarrow> 32 word list \<Rightarrow> 32 word list" where
  "sha_block hs w = map2 (+) hs (foldl sha_round hs (zip sha_k (sha_schedule 48 w)))"

text \<open>Big-endian conversions between words and bytes.\<close>

definition be_bytes :: "nat \<Rightarrow> nat \<Rightarrow> byte list" where
  "be_bytes k n = map (\<lambda>i. of_nat (n div 256 ^ (k - 1 - i))) [0..<k]"

fun be_words :: "byte list \<Rightarrow> 32 word list" where
  "be_words (a # b # c # d # r) =
     (push_bit 24 (ucast a) OR push_bit 16 (ucast b) OR push_bit 8 (ucast c) OR ucast d) # be_words r"
| "be_words _ = []"

fun sha_blocks :: "32 word list \<Rightarrow> 32 word list list" where
  "sha_blocks ws = (if length ws < 16 then [] else take 16 ws # sha_blocks (drop 16 ws))"

declare sha_blocks.simps [simp del]

definition sha_pad :: "byte list \<Rightarrow> byte list" where
  "sha_pad m = m @ [0x80] @ replicate ((119 - length m mod 64) mod 64) 0 @ be_bytes 8 (8 * length m)"

definition Sum256 :: "byte list \<Rightarrow> byte list" where
  "Sum256 m = concat (map (\<lambda>w. be_bytes 4 (unat w))
     (foldl sha_block sha_h0 (sha_blocks (be_words (sha_pad m)))))"

subsection \<open>HMAC\<close>

definition hmac_key :: "byte list \<Rightarrow> byte list" where
  "hmac_key k = (let k' = (if 64 < length k then Sum256 k else k)
     in k' @ replicate (64 - length k') 0)"

definition HmacSHA256 :: "byte list \<Rightarrow> byte list \<Rightarrow> byte list" where
  "HmacSHA256 k m = (let key = hmac_key k in
     Sum256 (map ((XOR) 0x5c) key @ Sum256 (map ((XOR) 0x36) key @ m)))"

subsection \<open>Hexadecimal and base64\<close>

definition hex_digit :: "nat \<Rightarrow> char" where
  "hex_digit n = (if n < 10 then char_of (48 + n) else char_of (87 + n))"

definition hex_encode :: "byte list \<Rightarrow> string" where
  "hex_encode bs = concat (map (\<lambda>b. [hex_digit (unat b div 16), hex_digit (unat b mod 16)]) bs)"

definition b64_digit :: "nat \<Rightarrow> char" where
  "b64_digit n = (if n < 26 then char_of (65 + n) else if n < 52 then char_of (71 + n)
     else if n < 62 then char_of (n - 4) else if n = 62 then CHR ''+'' else CHR ''/'')"

fun base64 :: "byte list \<Rightarrow> string" where
  "base64 [] = []"
| "base64 [a] = (let n = unat a in [b64_digit (n div 4), b64_digit (n mod 4 * 16), CHR ''='', CHR ''=''])"
| "base64 [a, b] = (let n = unat a * 256 + unat b in
     [b64_digit (n div 1024), b64_digit (n div 16 mod 64), b64_digit (n mod 16 * 4), CHR ''=''])"
| "base64 (a # b # c # r) = (let n = (unat a * 256 + unat b) * 256 + unat c in
     [b64_digit (n div 262144), b64_digit (n div 4096 mod 64), b64_digit (n div 64 mod 64),
      b64_digit (n mod 64)] @ base64 r)"

subsection \<open>Lemmas\<close>

lemma length_sha_round [simp]: "length (sha_round hs p) = length hs"
  by (cases "(hs, p)" rule: sha_round.cases) (simp_all add: Let_def)

lemma length_sha_schedule [simp]: "length (sha_schedule n w) = n + length w"
  by (induction n w rule: sha_schedule.induct) (simp_all add: Let_def)

lemma length_foldl_sha_round [simp]: "length (foldl sha_round hs ps) = length hs"
  by (induction ps arbitrary: hs) simp_all

lemma length_sha_block [simp]: "length (sha_block hs w) = length hs"
  by (simp add: sha_block_def)

lemma length_foldl_sha_block [simp]: "length (foldl sha_block hs bs) = length hs"
  by (induction bs arbitrary: hs) simp_all

lemma length_be_bytes [simp]: "length (be_bytes k n) = k"
  by (simp add: be_bytes_def)

lemma length_Sum256 [simp]: "length (Sum256 m) = 32"
proof -
  have "length (concat (map (\<lambda>w. be_bytes 4 (f w)) ws)) = 4 * length ws"
    for f :: "32 word \<Rightarrow> nat" and ws
    by (induction ws) simp_all
  then show ?thesis by (simp add: Sum256_def sha_h0_def sha_primes_def)
qed

lemma length_HmacSHA256 [simp]: "length (HmacSHA256 k m) = 32"
  by (simp add: HmacSHA256_def Let_def)

lemma length_hex_encode [simp]: "length (hex_encode bs) = 2 * length bs"
  by (induction bs) (simp_all add: hex_encode_def)

lemma hex_digit_code:
  "n < 16 \<Longrightarrow> (of_char (hex_digit n) :: nat) = (if n < 10 then 48 + n else 87 + n)"
  by (simp add: hex_digit_def)

lemma hex_digit_inj: "m < 16 \<Longrightarrow> n < 16 \<Longrightarrow> hex_digit m = hex_digit n \<longleftrightarrow> m = n"
  by (drule (1) arg_cong2 [where f = "\<lambda>m n. m = n", OF hex_digit_code hex_digit_code])
     (auto dest: arg_cong [where f = "of_char :: char \<Rightarrow> nat"] simp: hex_digit_code split: if_splits)

lemma hex_encode_inj: "hex_encode as = hex_encode bs \<Longrightarrow> as = bs"
proof (induction as arbitrary: bs)
  case Nil
  then show ?case by (cases bs) (simp_all add: hex_encode_def)
next
  case (Cons a as)
  obtain b bs' where bs: "bs = b # bs'"
    using Cons.prems by (cases bs) (simp_all add: hex_encode_def)
  have lt: "unat x div 16 < 16" for x :: byte
    using unsigned_less [where 'a = nat, of x] by (simp add: div_less_iff_less_mult)
  from Cons.prems have "unat a div 16 = unat b div 16" "unat a mod 16 = unat b mod 16"
    and t: "hex_encode as = hex_encode bs'"
    by (simp_all add: hex_encode_def bs hex_digit_inj lt)
  then have "unat a = unat b" by (metis div_mult_mod_eq)
  then have "a = b" by (simp add: word_unat_eq_iff)
  with Cons.IH [OF t] show ?case by (simp add: bs)
qed

end
