(* ===== verification/Json.thy ===== *)
theory Json
  imports GoTime Crypto
begin

text \<open>
  JSON documents and the parts of \<open>encoding/json\<close> the program relies on. A document is kept as
  its syntax tree: a number token without fraction and exponent is a \<open>JInt\<close>, any other number a
  \<open>JNum\<close> with the \<open>float64\<close> it denotes (a \<open>float64\<close> is represented by its exact rational
  value). Decoding into a struct goes through the object's members in order, matches names
  without regard to case, ignores unknown members, and treats \<open>null\<close> as "leave the field".
  A decoder is a function from the old value and the document to the new value, \<open>None\<close> when
  \<open>Unmarshal\<close> reports a type error.
\<close>

datatype json =
    JNull
  | JBool bool
  | JInt int
  | JNum rat
  | JStr string
  | JArr "json list"
  | JObj "(string \<times> json) list"

type_synonym 'a decoder = "'a \<Rightarrow> json \<Rightarrow> 'a option"

subsection \<open>Values that \<open>json.Marshal\<close> is applied to\<close>

text \<open>
  The argument of \<open>json.Marshal\<close> has type \<open>any\<close>: a struct or string list, given here by the
  document of its fields (\<open>None\<close> where \<open>Marshal\<close> fails on a time out of range), or a byte
  slice. A byte slice holds the text of a document; \<open>Marshal\<close> turns it into a JSON string with
  the base64 of those bytes. The text layout of a document is the parameter \<open>txt\<close>.
\<close>

datatype gopayload = Struct "json option" | Bytes json

fun Marshal :: "(json \<Rightarrow> byte list) \<Rightarrow> gopayload \<Rightarrow> json result" where
  "Marshal txt (Struct (Some d)) = Inr d"
| "Marshal txt (Struct None) = Inl (EMsg ''json: error calling MarshalJSON'')"
| "Marshal txt (Bytes d) = Inr (JStr (base64 (txt d)))"

subsection \<open>Encoding of field values\<close>

definition json_float :: "rat \<Rightarrow> json" where
  "json_float x = (if of_int \<lfloor>x\<rfloor> = x \<and> \<bar>x\<bar> < 10 ^ 21 then JInt \<lfloor>x\<rfloor> else JNum x)"

definition json_time :: "gotime \<Rightarrow> json option" where
  "json_time t = map_option JStr (format_rfc3339 t)"

definition json_opt :: "string \<Rightarrow> ('a \<Rightarrow> json) \<Rightarrow> 'a option \<Rightarrow> (string \<times> json) list" where
  "json_opt name f x = (case x of None \<Rightarrow> [] | Some y \<Rightarrow> [(name, f y)])"

subsection \<open>Decoding of field values\<close>

fun dec_string :: "string decoder" where
  "dec_string old (JStr s) = Some s"
| "dec_string old JNull = Some old"
| "dec_string old _ = None"

fun dec_bool :: "bool decoder" where
  "dec_bool old (JBool b) = Some b"
| "dec_bool old JNull = Some old"
| "dec_bool old _ = None"

fun dec_int :: "int decoder" where
  "dec_int old (JInt i) = (if in64 i then Some i else None)"
| "dec_int old JNull = Some old"
| "dec_int old _ = None"

fun dec_float :: "rat decoder" where
  "dec_float old (JInt i) = Some (of_int (float_of_int i))"
| "dec_float old (JNum q) = Some q"
| "dec_float old JNull = Some old"
| "dec_float old _ = None"

fun dec_time :: "gotime decoder" where
  "dec_time old (JStr s) = parse_rfc3339 True s"
| "dec_time old JNull = Some old"
| "dec_time old _ = None"

text \<open>A pointer field: \<open>null\<close> sets it to \<open>nil\<close>.\<close>

fun dec_ptr :: "'a \<Rightarrow> 'a decoder \<Rightarrow> 'a option decoder" where
  "dec_ptr z d old JNull = Some None"
| "dec_ptr z d old v = map_option Some (d (case old of None \<Rightarrow> z | Some x \<Rightarrow> x) v)"

fun dec_elems :: "'a \<Rightarrow> 'a decoder \<Rightarrow> json list \<Rightarrow> 'a list option" where
  "dec_elems z d [] = Some []"
| "dec_elems z d (v # vs) = do { x \<leftarrow> d z v; xs \<leftarrow> dec_elems z d vs; Some (x # xs) }"

text \<open>A slice: \<open>null\<close> and the empty slice both have length 0 and are not distinguished.\<close>

fun dec_slice :: "'a \<Rightarrow> 'a decoder \<Rightarrow> 'a list decoder" where
  "dec_slice z d old (JArr vs) = dec_elems z d vs"
| "dec_slice z d old JNull = Some []"
| "dec_slice z d old _ = None"

text \<open>The members of an object that belong to the field \<open>name\<close>, assigned one after the other.\<close>

definition key_match :: "string \<Rightarrow> string \<Rightarrow> bool" where
  "key_match name k \<longleftrightarrow> ToUpper k = ToUpper name"

definition members :: "string \<Rightarrow> (string \<times> json) list \<Rightarrow> json list" where
  "members name obj = map snd (filter (\<lambda>(k, v). key_match name k) obj)"

fun assign :: "'a decoder \<Rightarrow> 'a \<Rightarrow> json list \<Rightarrow> 'a option" where
  "assign d old [] = Some old"
| "assign d old (v # vs) = do { x \<leftarrow> d old v; assign d x vs }"

definition field :: "string \<Rightarrow> 'a decoder \<Rightarrow> 'a \<Rightarrow> (string \<times> json) list \<Rightarrow> 'a option" where
  "field name d old obj = assign d old (members name obj)"

text \<open>The top level of a struct: an object, or \<open>null\<close>, which changes nothing.\<close>

fun dec_struct :: "('a \<Rightarrow> (string \<times> json) list \<Rightarrow> 'a option) \<Rightarrow> 'a decoder" where
  "dec_struct f old (JObj obj) = f old obj"
| "dec_struct f old JNull = Some old"
| "dec_struct f old _ = None"

subsection \<open>Lemmas\<close>

text \<open>A rational that a \<open>float64\<close> can hold, as far as integers are concerned.\<close>

definition float_ok :: "rat \<Rightarrow> bool" where
  "float_ok x \<longleftrightarrow> (of_int \<lfloor>x\<rfloor> = x \<longrightarrow> float_of_int \<lfloor>x\<rfloor> = \<lfloor>x\<rfloor>)"

lemma dec_float_json_float: "float_ok x \<Longrightarrow> dec_float old (json_float x) = Some x"
  by (auto simp: json_float_def float_ok_def)

lemma json_float_neq_null [simp]: "json_float x \<noteq> JNull"
  by (simp add: json_float_def)

lemma dec_ptr_json_float:
  "float_ok x \<Longrightarrow> dec_ptr z dec_float old (json_float x) = Some (Some x)"
  by (cases "json_float x") (auto simp: json_float_def float_ok_def split: if_splits)

lemma members_Nil [simp]: "members name [] = []"
  by (simp add: members_def)

lemma members_Cons [simp]:
  "members name ((k, v) # obj) = (if key_match name k then v # members name obj else members name obj)"
  by (simp add: members_def)

lemma members_append [simp]: "members name (xs @ ys) = members name xs @ members name ys"
  by (simp add: members_def)

lemma members_json_opt [simp]:
  "members name (json_opt k f x) =
     (if key_match name k then (case x of None \<Rightarrow> [] | Some y \<Rightarrow> [f y]) else [])"
  by (cases x) (simp_all add: json_opt_def)

lemma key_match_refl [simp]: "key_match k k"
  by (simp add: key_match_def)

lemma dec_elems_JStr [simp]: "dec_elems z dec_string (map JStr ss) = Some ss"
  by (induction ss) simp_all

text \<open>No struct, and no slice, is decoded from a JSON string.\<close>

lemma dec_struct_JStr [simp]: "dec_struct f old (JStr s) = None"
  by simp

end
