(* ===== verification/Service.thy ===== *)
theory Service
  imports Prelude
begin

text \<open>
  The interface to the services the program talks to: two Redis servers and one Postgres
  database. None of them is code of this repository, so a service is a parameter: a function
  that takes the time, a command and the server's own state to a reply or a failure of the
  call, and a new state. The locale \<open>service\<close> says what is documented of it, through an
  abstraction \<open>\<alpha>\<close> of the state and a relation \<open>ok\<close> between a command, the state before, the
  reply and the state after. A call that fails has either been executed or not; the caller
  cannot tell.
\<close>

type_synonym ('c, 'x, 's) server = "int \<Rightarrow> 'c \<Rightarrow> 's \<Rightarrow> (string + 'x) \<times> 's"

locale service =
  fixes exec :: "('c, 'x, 's) server"
    and \<alpha> :: "'s \<Rightarrow> 'v"
    and ok :: "int \<Rightarrow> 'c \<Rightarrow> 'v \<Rightarrow> 'x \<Rightarrow> 'v \<Rightarrow> bool"
  assumes answer: "exec now c s = (Inr x, s') \<Longrightarrow> ok now c (\<alpha> s) x (\<alpha> s')"
    and failure: "exec now c s = (Inl e, s') \<Longrightarrow> \<alpha> s' = \<alpha> s \<or> (\<exists>x. ok now c (\<alpha> s) x (\<alpha> s'))"
begin

lemma outcome:
  "exec now c s = (r, s') \<Longrightarrow>
     (\<exists>x. r = Inr x \<and> ok now c (\<alpha> s) x (\<alpha> s'))
   \<or> (\<exists>e. r = Inl e \<and> (\<alpha> s' = \<alpha> s \<or> (\<exists>x. ok now c (\<alpha> s) x (\<alpha> s'))))"
  by (cases r) (auto dest: answer failure)

text \<open>A property of the abstract state that every execution of \<open>c\<close> keeps, a call keeps too.\<close>

lemma exec_invariant:
  assumes "\<And>x v v'. I v \<Longrightarrow> ok now c v x v' \<Longrightarrow> I v'" and "I (\<alpha> s)"
    and "exec now c s = (r, s')"
  shows "I (\<alpha> s')"
  using outcome [OF assms(3)] assms(1,2) by metis

end

text \<open>A service that answers every call.\<close>

locale reliable_service = service +
  assumes answers: "\<exists>x s'. exec now c s = (Inr x, s')"
begin

lemma exec_ok: "exec now c s = (r, s') \<Longrightarrow> \<exists>x. r = Inr x \<and> ok now c (\<alpha> s) x (\<alpha> s')"
  using answers [of now c s] answer by fastforce

end

text \<open>
  A reference server for a command semantics \<open>step\<close>: its state is the abstract state and a
  script of faults, one per call (none left: the call succeeds). \<open>Dropped\<close> fails before the
  command is executed, \<open>Unheard\<close> after.
\<close>

datatype fault = Dropped | Unheard | Served

fun scripted :: "(int \<Rightarrow> 'c \<Rightarrow> 'v \<Rightarrow> 'x \<times> 'v) \<Rightarrow> ('c, 'x, 'v \<times> fault list) server" where
  "scripted step now c (v, []) = (case step now c v of (x, v') \<Rightarrow> (Inr x, (v', [])))"
| "scripted step now c (v, Served # fs) = (case step now c v of (x, v') \<Rightarrow> (Inr x, (v', fs)))"
| "scripted step now c (v, Dropped # fs) = (Inl ''connection refused'', (v, fs))"
| "scripted step now c (v, Unheard # fs) = (Inl ''i/o timeout'', (snd (step now c v), fs))"

lemma service_scripted:
  assumes "\<And>now c v. ok now c v (fst (step now c v)) (snd (step now c v))"
  shows "service (scripted step) fst ok"
proof
  fix now c s x s'
  assume e: "scripted step now c s = (Inr x, s')"
  obtain v fs where s: "s = (v, fs)" by (cases s)
  show "ok now c (fst s) x (fst s')"
    using e assms [of now c v] unfolding s
    by (cases "(step, now, c, s)" rule: scripted.cases) (auto simp: s split: prod.splits)
next
  fix now c s e s'
  assume e: "scripted step now c s = (Inl e, s')"
  obtain v fs where s: "s = (v, fs)" by (cases s)
  show "fst s' = fst s \<or> (\<exists>x. ok now c (fst s) x (fst s'))"
    using e assms [of now c v] unfolding s
    by (cases "(step, now, c, s)" rule: scripted.cases) (auto simp: s split: prod.splits)
qed

text \<open>The reference server without faults.\<close>

definition faultless :: "(int \<Rightarrow> 'c \<Rightarrow> 'v \<Rightarrow> 'x \<times> 'v) \<Rightarrow> ('c, 'x, 'v) server" where
  "faultless step now c v = (case step now c v of (x, v') \<Rightarrow> (Inr x, v'))"

lemma reliable_service_faultless:
  assumes "\<And>now c v. ok now c v (fst (step now c v)) (snd (step now c v))"
  shows "reliable_service (faultless step) id ok"
  using assms
  by unfold_locales (auto simp: faultless_def split: prod.splits, metis fst_conv snd_conv)

end
