(* ===== verification/Redis.thy ===== *)
theory Redis
  imports Json Service
begin

text \<open>
  The Redis commands that \<open>internal/cache\<close> issues, as documented: string keys with an expiry
  time and lists. A stored value is a byte string; every value the program stores is the text of
  a JSON document, so the model stores the document (the flags \<open>0\<close>, \<open>1\<close> and the counters are
  \<open>JInt\<close>). Two locales describe the two servers of \<open>cache.Client\<close>: \<open>critical_redis\<close>
  (\<open>noeviction\<close>) forgets a key only after its expiry time, \<open>lru_redis\<close> (\<open>allkeys-lru\<close>) may
  forget any key at any time. The first is a special case of the second.
\<close>

subsection \<open>Expiry times\<close>

datatype expiry = At int | Never

instantiation expiry :: linorder
begin

fun less_eq_expiry :: "expiry \<Rightarrow> expiry \<Rightarrow> bool" where
  "less_eq_expiry (At s) (At t) = (s \<le> t)"
| "less_eq_expiry Never (At t) = False"
| "less_eq_expiry e Never = True"

definition less_expiry :: "expiry \<Rightarrow> expiry \<Rightarrow> bool" where
  "less_expiry d e = (d \<le> e \<and> \<not> e \<le> (d :: expiry))"

instance
proof
  fix x y z :: expiry
  show "(x < y) = (x \<le> y \<and> \<not> y \<le> x)" by (rule less_expiry_def)
  show "x \<le> x" by (cases x) simp_all
  show "x \<le> z" if "x \<le> y" "y \<le> z"
    using that by (cases x; cases y; cases z; simp)
  show "x = y" if "x \<le> y" "y \<le> x"
    using that by (cases x; cases y; simp)
  show "x \<le> y \<or> y \<le> x"
    by (cases x; cases y; simp; linarith)
qed

end

lemma less_expiry_simps [simp]:
  "At s < At t \<longleftrightarrow> s < t" "At s < Never" "\<not> Never < e"
  by (simp_all add: less_expiry_def less_le_not_le)

text \<open>A key with expiry \<open>e\<close> is there at time \<open>t\<close>.\<close>

abbreviation alive :: "int \<Rightarrow> expiry \<Rightarrow> bool" where
  "alive t e \<equiv> At t < e"

definition expires :: "int \<Rightarrow> int \<Rightarrow> expiry" where
  "expires now ttl = (if 0 < ttl then At (now + ttl) else Never)"

subsection \<open>State, commands and replies\<close>

record rview =
  rstr :: "string \<Rightarrow> (json \<times> expiry) option"
  rlst :: "string \<Rightarrow> json list"

datatype (plugins only: size code) rcmd =
    PING
  | GET string
  | SET string json int
  | SETNX string json int
  | DEL "string list"
  | EXISTS string
  | INCR string
  | EXPIRE string int
  | SCAN nat string
  | LPUSH string json
  | LREM string json
  | LRANGE string
  | LLEN string
  | RPOPLPUSH string string

datatype (plugins only: size code) rreply =
    RNil
  | ROk
  | RBulk json
  | RInt int
  | RList "json list"
  | RScan nat "string list"
  | RErr string

definition live :: "int \<Rightarrow> rview \<Rightarrow> string \<Rightarrow> json option" where
  "live t v k = (case rstr v k of Some (x, e) \<Rightarrow> if alive t e then Some x else None | None \<Rightarrow> None)"

definition put :: "string \<Rightarrow> json \<Rightarrow> expiry \<Rightarrow> rview \<Rightarrow> rview" where
  "put k x e v = v\<lparr>rstr := (rstr v)(k \<mapsto> (x, e))\<rparr>"

definition unset :: "string list \<Rightarrow> rview \<Rightarrow> rview" where
  "unset ks v = v\<lparr>rstr := (\<lambda>k. if k \<in> set ks then None else rstr v k)\<rparr>"

definition put_list :: "string \<Rightarrow> json list \<Rightarrow> rview \<Rightarrow> rview" where
  "put_list k xs v = v\<lparr>rlst := (rlst v)(k := xs)\<rparr>"

text \<open>Glob patterns with \<open>*\<close>; the program's pattern has no other special character.\<close>

fun glob :: "string \<Rightarrow> string \<Rightarrow> bool" where
  "glob [] s = (s = [])"
| "glob (p # ps) [] = (p = CHR ''*'' \<and> glob ps [])"
| "glob (p # ps) (c # cs) = (if p = CHR ''*'' then glob ps (c # cs) \<or> glob (p # ps) cs
     else p = c \<and> glob ps cs)"

text \<open>
  The effect of one command at time \<open>now\<close>. \<open>SET\<close> with a time to live of 0 has no expiry;
  \<open>SETNX\<close> with a negative one is refused; \<open>BRPOPLPUSH\<close> on an empty list returns nil when its
  timeout ends. The reply of \<open>SCAN\<close> is only constrained by \<open>redis_ok\<close> below.
\<close>

primrec redis_step :: "int \<Rightarrow> rcmd \<Rightarrow> rview \<Rightarrow> rreply \<times> rview" where
  "redis_step now PING v = (ROk, v)"
| "redis_step now (GET k) v = (case live now v k of None \<Rightarrow> RNil | Some x \<Rightarrow> RBulk x, v)"
| "redis_step now (SET k x ttl) v = (ROk, put k x (expires now ttl) v)"
| "redis_step now (SETNX k x ttl) v =
     (if ttl < 0 then (RErr ''ERR invalid expire time'', v)
      else if live now v k = None then (RInt 1, put k x (expires now ttl) v) else (RInt 0, v))"
| "redis_step now (DEL ks) v =
     (RInt (int (length (filter (\<lambda>k. live now v k \<noteq> None) (remdups ks)))), unset ks v)"
| "redis_step now (EXISTS k) v = (RInt (if live now v k = None then 0 else 1), v)"
| "redis_step now (INCR k) v =
     (case live now v k of
        None \<Rightarrow> (RInt 1, put k (JInt 1) Never v)
      | Some (JInt n) \<Rightarrow> (RInt (n + 1), put k (JInt (n + 1)) (snd (the (rstr v k))) v)
      | Some _ \<Rightarrow> (RErr ''ERR value is not an integer or out of range'', v))"
| "redis_step now (EXPIRE k ttl) v =
     (case live now v k of None \<Rightarrow> (RInt 0, v) | Some x \<Rightarrow> (RInt 1, put k x (At (now + ttl)) v))"
| "redis_step now (SCAN cur pat) v = (RScan 0 [], v)"
| "redis_step now (LPUSH k x) v = (RInt (int (length (rlst v k)) + 1), put_list k (x # rlst v k) v)"
| "redis_step now (LREM k x) v =
     (RInt (if x \<in> set (rlst v k) then 1 else 0), put_list k (remove1 x (rlst v k)) v)"
| "redis_step now (LRANGE k) v = (RList (rlst v k), v)"
| "redis_step now (LLEN k) v = (RInt (int (length (rlst v k))), v)"
| "redis_step now (RPOPLPUSH src dst) v =
     (if rlst v src = [] then (RNil, v)
      else let x = last (rlst v src); v' = put_list src (butlast (rlst v src)) v
        in (RBulk x, put_list dst (x # rlst v' dst) v'))"

definition redis_exec :: "int \<Rightarrow> rcmd \<Rightarrow> rview \<Rightarrow> rreply \<Rightarrow> rview \<Rightarrow> bool" where
  "redis_exec now c v x v' \<longleftrightarrow>
     (case c of
        SCAN cur pat \<Rightarrow> v' = v \<and> (\<exists>next ks. x = RScan next ks \<and>
          (\<forall>k \<in> set ks. glob pat k \<and> live now v k \<noteq> None))
      | _ \<Rightarrow> (x, v') = redis_step now c v)"

text \<open>Expired keys may be gone (\<open>purge\<close>); under eviction any string key may be (\<open>evict\<close>).\<close>

definition purge :: "int \<Rightarrow> rview \<Rightarrow> rview \<Rightarrow> bool" where
  "purge now v v' \<longleftrightarrow> rlst v' = rlst v \<and>
     (\<forall>k. rstr v' k = rstr v k \<or> (rstr v' k = None \<and> live now v k = None))"

definition evict :: "rview \<Rightarrow> rview \<Rightarrow> bool" where
  "evict v v' \<longleftrightarrow> rlst v' = rlst v \<and> (\<forall>k. rstr v' k = rstr v k \<or> rstr v' k = None)"

definition redis_ok :: "int \<Rightarrow> rcmd \<Rightarrow> rview \<Rightarrow> rreply \<Rightarrow> rview \<Rightarrow> bool" where
  "redis_ok now c v x v' \<longleftrightarrow> (\<exists>u. redis_exec now c v x u \<and> purge now u v')"

definition lru_ok :: "int \<Rightarrow> rcmd \<Rightarrow> rview \<Rightarrow> rreply \<Rightarrow> rview \<Rightarrow> bool" where
  "lru_ok now c v x v' \<longleftrightarrow> (\<exists>u w. evict v u \<and> redis_exec now c u x w \<and> evict w v')"

subsection \<open>Lemmas\<close>

lemma rstr_put [simp]: "rstr (put k x e v) = (rstr v)(k \<mapsto> (x, e))"
  by (simp add: put_def)

lemma rlst_put [simp]: "rlst (put k x e v) = rlst v"
  by (simp add: put_def)

lemma rstr_put_list [simp]: "rstr (put_list k xs v) = rstr v"
  by (simp add: put_list_def)

lemma rlst_put_list [simp]: "rlst (put_list k xs v) = (rlst v)(k := xs)"
  by (simp add: put_list_def)

lemma rlst_unset [simp]: "rlst (unset ks v) = rlst v"
  by (simp add: unset_def)

lemma live_put [simp]:
  "live t (put k x e v) k' = (if k' = k then (if alive t e then Some x else None) else live t v k')"
  by (simp add: live_def)

lemma live_put_list [simp]: "live t (put_list k xs v) k' = live t v k'"
  by (simp add: live_def)

lemma live_unset [simp]: "live t (unset ks v) k = (if k \<in> set ks then None else live t v k)"
  by (simp add: live_def unset_def)

lemma alive_antimono: "alive t e \<Longrightarrow> s \<le> t \<Longrightarrow> alive s e"
  by (cases e) auto

lemma live_antimono: "live t v k = Some x \<Longrightarrow> s \<le> t \<Longrightarrow> live s v k = Some x"
  by (auto simp: live_def split: option.splits if_splits dest: alive_antimono)

lemma alive_expires [simp]: "alive t (expires now ttl) \<longleftrightarrow> ttl \<le> 0 \<or> t < now + ttl"
  by (simp add: expires_def)

lemma purge_live:
  assumes p: "purge now v v'" and t: "now \<le> t"
  shows "live t v' k = live t v k"
proof (cases "rstr v' k = rstr v k")
  case True
  then show ?thesis by (simp add: live_def)
next
  case False
  with p have n: "rstr v' k = None" "live now v k = None"
    unfolding purge_def by (metis, metis)
  then have "live t v k = None" using live_antimono [OF _ t] by (metis not_None_eq)
  with n show ?thesis by (simp add: live_def)
qed

lemma purge_rlst: "purge now v v' \<Longrightarrow> rlst v' = rlst v"
  by (simp add: purge_def)

lemma purge_refl [simp]: "purge now v v"
  by (simp add: purge_def)

lemma evict_refl [simp]: "evict v v"
  by (simp add: evict_def)

lemma purge_evict: "purge now v v' \<Longrightarrow> evict v v'"
  by (auto simp: purge_def evict_def)

lemma evict_live: "evict v v' \<Longrightarrow> live t v' k = None \<or> live t v' k = live t v k"
proof -
  assume "evict v v'"
  then have "rstr v' k = rstr v k \<or> rstr v' k = None" by (simp add: evict_def)
  then show ?thesis unfolding live_def by (elim disjE) simp_all
qed

lemma redis_ok_lru_ok: "redis_ok now c v x v' \<Longrightarrow> lru_ok now c v x v'"
  unfolding redis_ok_def lru_ok_def by (blast intro: purge_evict evict_refl)

lemma redis_exec_step: "redis_exec now c v (fst (redis_step now c v)) (snd (redis_step now c v))"
  by (cases c) (simp_all add: redis_exec_def)

lemma redis_ok_step: "redis_ok now c v (fst (redis_step now c v)) (snd (redis_step now c v))"
  unfolding redis_ok_def using redis_exec_step purge_refl by blast

lemma lru_ok_step: "lru_ok now c v (fst (redis_step now c v)) (snd (redis_step now c v))"
  by (rule redis_ok_lru_ok [OF redis_ok_step])

text \<open>What an executed command leaves, at any later time, on each kind of server.\<close>

definition is_scan :: "rcmd \<Rightarrow> bool" where
  "is_scan c = (case c of SCAN _ _ \<Rightarrow> True | _ \<Rightarrow> False)"

lemma is_scan_simps [simp]:
  "\<not> is_scan PING" "\<not> is_scan (GET k)" "\<not> is_scan (SET k x ttl)" "\<not> is_scan (SETNX k x ttl)"
  "\<not> is_scan (DEL ks)" "\<not> is_scan (EXISTS k)" "\<not> is_scan (INCR k)" "\<not> is_scan (EXPIRE k ttl)"
  "\<not> is_scan (LPUSH k x)" "\<not> is_scan (LREM k x)" "\<not> is_scan (LRANGE k)" "\<not> is_scan (LLEN k)"
  "\<not> is_scan (RPOPLPUSH k l)"
  by (simp_all add: is_scan_def)

lemma redis_exec_not_scan: "\<not> is_scan c \<Longrightarrow> redis_exec now c v x v' \<longleftrightarrow> (x, v') = redis_step now c v"
  by (cases c) (simp_all add: redis_exec_def is_scan_def)

lemma redis_okD:
  assumes "redis_ok now c v x v'" and "\<not> is_scan c"
  shows "x = fst (redis_step now c v)" and "rlst v' = rlst (snd (redis_step now c v))"
    and "now \<le> t \<Longrightarrow> live t v' k = live t (snd (redis_step now c v)) k"
proof -
  obtain u where u: "(x, u) = redis_step now c v" "purge now u v'"
    using assms by (auto simp: redis_ok_def redis_exec_not_scan)
  then have "snd (redis_step now c v) = u" "x = fst (redis_step now c v)"
    by (metis snd_conv, metis fst_conv)
  with u show "x = fst (redis_step now c v)" "rlst v' = rlst (snd (redis_step now c v))"
    "now \<le> t \<Longrightarrow> live t v' k = live t (snd (redis_step now c v)) k"
    by (simp_all add: purge_rlst purge_live)
qed

lemma lru_okE:
  assumes "lru_ok now c v x v'" and "\<not> is_scan c"
  obtains u where "evict v u" and "x = fst (redis_step now c u)"
    and "evict (snd (redis_step now c u)) v'"
  using assms unfolding lru_ok_def by (metis redis_exec_not_scan fst_conv snd_conv)

text \<open>A key that a command does not write keeps its value or is gone.\<close>

fun writes :: "rcmd \<Rightarrow> string set" where
  "writes (SET k x ttl) = {k}"
| "writes (SETNX k x ttl) = {k}"
| "writes (INCR k) = {k}"
| "writes (EXPIRE k ttl) = {k}"
| "writes _ = {}"

lemma redis_exec_rstr:
  assumes "redis_exec now c v x v'" and "k \<notin> writes c"
  shows "rstr v' k = rstr v k \<or> rstr v' k = None"
proof (cases "is_scan c")
  case True
  then show ?thesis using assms(1) by (cases c) (auto simp: is_scan_def redis_exec_def)
next
  case False
  then have "v' = snd (redis_step now c v)"
    using assms(1) by (metis redis_exec_not_scan snd_conv)
  with assms(2) show ?thesis
    by (cases c) (auto simp: unset_def Let_def split: option.splits json.splits)
qed

lemma lru_ok_rstr:
  assumes "lru_ok now c v x v'" and "k \<notin> writes c"
  shows "rstr v' k = rstr v k \<or> rstr v' k = None"
  using assms redis_exec_rstr unfolding lru_ok_def evict_def by metis

subsection \<open>The two servers\<close>

locale lru_redis = service exec \<alpha> lru_ok
  for exec :: "(rcmd, rreply, 's) server" and \<alpha> :: "'s \<Rightarrow> rview"

locale critical_redis = service exec \<alpha> redis_ok
  for exec :: "(rcmd, rreply, 's) server" and \<alpha> :: "'s \<Rightarrow> rview"

sublocale critical_redis \<subseteq> weak: lru_redis
  using outcome by unfold_locales (blast intro: redis_ok_lru_ok)+

interpretation mem_lru: lru_redis "scripted redis_step" fst
  unfolding lru_redis_def by (rule service_scripted) (rule lru_ok_step)

interpretation mem_critical: critical_redis "scripted redis_step" fst
  unfolding critical_redis_def by (rule service_scripted) (rule redis_ok_step)

end
