(* ===== verification/Wire.thy ===== *)
theory Wire
  imports Json
begin

text \<open>
  The data that crosses process boundaries as JSON: \<open>signal.InboundSignal\<close>, \<open>signal.Job\<close> and
  \<open>auth.CachedKey\<close>, with the documents \<open>json.Marshal\<close> makes of them and the structs
  \<open>json.Unmarshal\<close> reads. A job survives the way through Redis (\<open>Unmarshal_Marshal_job\<close>),
  and no job is read from a JSON string (\<open>Unmarshal_job_string\<close>), which is what
  \<open>Marshal\<close> makes of a byte slice.
\<close>

type_synonym uuid = "128 word"

text \<open>
  The text form of a UUID is code of the package \<open>google/uuid\<close>: the parameter \<open>str\<close> prints
  (\<open>UUID.String\<close>), \<open>prs\<close> parses (\<open>uuid.Parse\<close>).
\<close>

locale uuid_text =
  fixes str :: "uuid \<Rightarrow> string" and prs :: "string \<Rightarrow> uuid option"
  assumes parse_string: "prs (str u) = Some u"
begin

lemma str_inj: "str u = str v \<Longrightarrow> u = v"
  by (metis option.inject parse_string)

end

subsection \<open>Signals\<close>

definition SignalOpen :: string where "SignalOpen = ''OPEN''"
definition SignalModify :: string where "SignalModify = ''MODIFY''"
definition SignalClose :: string where "SignalClose = ''CLOSE''"
definition SignalPartial :: string where "SignalPartial = ''PARTIAL''"

lemmas signal_types = SignalOpen_def SignalModify_def SignalClose_def SignalPartial_def

record InboundSignal =
  TicketID :: int
  SignalType :: string
  Symbol :: string
  Direction :: string
  Price :: rat
  SL :: "rat option"
  TP :: "rat option"
  Lot :: rat
  Timestamp :: gotime

record Job =
  JobID :: string
  SignalID :: uuid
  Signal :: InboundSignal
  Attempts :: int
  EnqueuedAt :: gotime

text \<open>Go's zero time is 1 January of the year 1, UTC.\<close>

definition zero_time :: gotime where
  "zero_time = \<lparr>inst = - 62135596800 * Second, zone = 0\<rparr>"

definition zero_signal :: InboundSignal where
  "zero_signal = \<lparr>TicketID = 0, SignalType = [], Symbol = [], Direction = [], Price = 0,
     SL = None, TP = None, Lot = 0, Timestamp = zero_time\<rparr>"

definition zero_job :: Job where
  "zero_job = \<lparr>JobID = [], SignalID = 0, Signal = zero_signal, Attempts = 0, EnqueuedAt = zero_time\<rparr>"

definition Marshal_signal :: "InboundSignal \<Rightarrow> json option" where
  "Marshal_signal s = do {
     ts \<leftarrow> json_time (Timestamp s);
     Some (JObj ([(''ticket_id'', JInt (TicketID s)), (''signal_type'', JStr (SignalType s)),
         (''symbol'', JStr (Symbol s)), (''direction'', JStr (Direction s)),
         (''price'', json_float (Price s))]
       @ json_opt ''sl'' json_float (SL s) @ json_opt ''tp'' json_float (TP s)
       @ [(''lot'', json_float (Lot s)), (''timestamp'', ts)])) }"

definition signal_fields :: "InboundSignal \<Rightarrow> (string \<times> json) list \<Rightarrow> InboundSignal option" where
  "signal_fields s obj = do {
     tid \<leftarrow> field ''ticket_id'' dec_int (TicketID s) obj;
     ty \<leftarrow> field ''signal_type'' dec_string (SignalType s) obj;
     sym \<leftarrow> field ''symbol'' dec_string (Symbol s) obj;
     dir \<leftarrow> field ''direction'' dec_string (Direction s) obj;
     pr \<leftarrow> field ''price'' dec_float (Price s) obj;
     sl \<leftarrow> field ''sl'' (dec_ptr 0 dec_float) (SL s) obj;
     tp \<leftarrow> field ''tp'' (dec_ptr 0 dec_float) (TP s) obj;
     lot \<leftarrow> field ''lot'' dec_float (Lot s) obj;
     ts \<leftarrow> field ''timestamp'' dec_time (Timestamp s) obj;
     Some \<lparr>TicketID = tid, SignalType = ty, Symbol = sym, Direction = dir, Price = pr,
       SL = sl, TP = tp, Lot = lot, Timestamp = ts\<rparr> }"

definition dec_signal :: "InboundSignal decoder" where
  "dec_signal = dec_struct signal_fields"

definition Unmarshal_signal :: "json \<Rightarrow> InboundSignal option" where
  "Unmarshal_signal d = dec_signal zero_signal d"

subsection \<open>Jobs\<close>

definition Marshal_job :: "(uuid \<Rightarrow> string) \<Rightarrow> Job \<Rightarrow> json option" where
  "Marshal_job str j = do {
     sg \<leftarrow> Marshal_signal (Signal j);
     ea \<leftarrow> json_time (EnqueuedAt j);
     Some (JObj [(''job_id'', JStr (JobID j)), (''signal_id'', JStr (str (SignalID j))),
       (''signal'', sg), (''attempts'', JInt (Attempts j)), (''enqueued_at'', ea)]) }"

fun dec_uuid :: "(string \<Rightarrow> uuid option) \<Rightarrow> uuid decoder" where
  "dec_uuid prs old (JStr s) = prs s"
| "dec_uuid prs old JNull = Some old"
| "dec_uuid prs old _ = None"

definition job_fields :: "(string \<Rightarrow> uuid option) \<Rightarrow> Job \<Rightarrow> (string \<times> json) list \<Rightarrow> Job option" where
  "job_fields prs j obj = do {
     jid \<leftarrow> field ''job_id'' dec_string (JobID j) obj;
     sid \<leftarrow> field ''signal_id'' (dec_uuid prs) (SignalID j) obj;
     sg \<leftarrow> field ''signal'' dec_signal (Signal j) obj;
     att \<leftarrow> field ''attempts'' dec_int (Attempts j) obj;
     ea \<leftarrow> field ''enqueued_at'' dec_time (EnqueuedAt j) obj;
     Some \<lparr>JobID = jid, SignalID = sid, Signal = sg, Attempts = att, EnqueuedAt = ea\<rparr> }"

definition Unmarshal_job :: "(string \<Rightarrow> uuid option) \<Rightarrow> json \<Rightarrow> Job option" where
  "Unmarshal_job prs d = dec_struct (job_fields prs) zero_job d"

subsection \<open>Cached API keys\<close>

record CachedKey =
  ck_ID :: string
  ck_Owner :: string
  ck_Scopes :: "string list"
  ck_Status :: string

definition Marshal_key :: "CachedKey \<Rightarrow> json option" where
  "Marshal_key k = Some (JObj [(''id'', JStr (ck_ID k)), (''owner'', JStr (ck_Owner k)),
     (''scopes'', JArr (map JStr (ck_Scopes k))), (''status'', JStr (ck_Status k))])"

definition key_fields :: "CachedKey \<Rightarrow> (string \<times> json) list \<Rightarrow> CachedKey option" where
  "key_fields k obj = do {
     i \<leftarrow> field ''id'' dec_string (ck_ID k) obj;
     ow \<leftarrow> field ''owner'' dec_string (ck_Owner k) obj;
     sc \<leftarrow> field ''scopes'' (dec_slice [] dec_string) (ck_Scopes k) obj;
     st \<leftarrow> field ''status'' dec_string (ck_Status k) obj;
     Some \<lparr>ck_ID = i, ck_Owner = ow, ck_Scopes = sc, ck_Status = st\<rparr> }"

definition Unmarshal_key :: "json \<Rightarrow> CachedKey option" where
  "Unmarshal_key d = dec_struct key_fields \<lparr>ck_ID = [], ck_Owner = [], ck_Scopes = [], ck_Status = []\<rparr> d"

subsection \<open>Round trips\<close>

lemma upper_names [simp]:
  "ToUpper ''ticket_id'' = ''TICKET_ID''" "ToUpper ''signal_type'' = ''SIGNAL_TYPE''"
  "ToUpper ''symbol'' = ''SYMBOL''" "ToUpper ''direction'' = ''DIRECTION''"
  "ToUpper ''price'' = ''PRICE''" "ToUpper ''sl'' = ''SL''" "ToUpper ''tp'' = ''TP''"
  "ToUpper ''lot'' = ''LOT''" "ToUpper ''timestamp'' = ''TIMESTAMP''"
  "ToUpper ''job_id'' = ''JOB_ID''" "ToUpper ''signal_id'' = ''SIGNAL_ID''"
  "ToUpper ''signal'' = ''SIGNAL''" "ToUpper ''attempts'' = ''ATTEMPTS''"
  "ToUpper ''enqueued_at'' = ''ENQUEUED_AT''" "ToUpper ''id'' = ''ID''"
  "ToUpper ''owner'' = ''OWNER''" "ToUpper ''scopes'' = ''SCOPES''" "ToUpper ''status'' = ''STATUS''"
  by (simp_all add: ToUpper_def upper_char_def char_of_def bit_0)

text \<open>A time, a signal, a job that \<open>Marshal\<close> accepts and that fits the Go types.\<close>

definition time_ok :: "gotime \<Rightarrow> bool" where
  "time_ok t \<longleftrightarrow> zone t mod 60 = 0 \<and> format_rfc3339 t \<noteq> None"

definition signal_ok :: "InboundSignal \<Rightarrow> bool" where
  "signal_ok s \<longleftrightarrow> in64 (TicketID s) \<and> float_ok (Price s) \<and> float_ok (Lot s)
     \<and> (case SL s of None \<Rightarrow> True | Some x \<Rightarrow> float_ok x)
     \<and> (case TP s of None \<Rightarrow> True | Some x \<Rightarrow> float_ok x) \<and> time_ok (Timestamp s)"

definition job_ok :: "Job \<Rightarrow> bool" where
  "job_ok j \<longleftrightarrow> signal_ok (Signal j) \<and> in64 (Attempts j) \<and> time_ok (EnqueuedAt j)"

lemma dec_time_json_time:
  "time_ok t \<Longrightarrow> json_time t = Some d \<Longrightarrow> dec_time old d = Some t"
  by (auto simp: time_ok_def json_time_def parse_format_rfc3339)

lemma json_time_Some: "time_ok t \<Longrightarrow> \<exists>d. json_time t = Some d"
  by (auto simp: time_ok_def json_time_def)

lemma dec_signal_Marshal:
  assumes "Marshal_signal s = Some d" and "signal_ok s" and "SL old = None" and "TP old = None"
  shows "dec_signal old d = Some s"
proof -
  obtain ts where ts: "json_time (Timestamp s) = Some ts"
    using assms(1) by (auto simp: Marshal_signal_def split: bind_splits)
  from assms ts have "dec_time (Timestamp old) ts = Some (Timestamp s)"
    by (simp add: signal_ok_def dec_time_json_time)
  with assms ts show ?thesis
    by (auto simp: Marshal_signal_def signal_ok_def dec_signal_def signal_fields_def field_def
        key_match_def dec_float_json_float dec_ptr_json_float split: option.splits)
qed

lemma Unmarshal_Marshal_signal:
  "Marshal_signal s = Some d \<Longrightarrow> signal_ok s \<Longrightarrow> Unmarshal_signal d = Some s"
  by (simp add: Unmarshal_signal_def dec_signal_Marshal zero_signal_def)

lemma Marshal_signal_Some: "signal_ok s \<Longrightarrow> \<exists>d. Marshal_signal s = Some d"
  using json_time_Some by (fastforce simp: Marshal_signal_def signal_ok_def)

lemma Marshal_job_Some: "job_ok j \<Longrightarrow> \<exists>d. Marshal_job str j = Some d"
  using json_time_Some Marshal_signal_Some by (fastforce simp: Marshal_job_def job_ok_def)

context uuid_text
begin

lemma Unmarshal_Marshal_job:
  assumes "Marshal_job str j = Some d" and "job_ok j"
  shows "Unmarshal_job prs d = Some j"
proof -
  obtain sg ea where sg: "Marshal_signal (Signal j) = Some sg" and ea: "json_time (EnqueuedAt j) = Some ea"
    using assms(1) by (auto simp: Marshal_job_def split: bind_splits)
  have "dec_signal zero_signal sg = Some (Signal j)"
    using sg assms(2) by (simp add: dec_signal_Marshal job_ok_def zero_signal_def)
  moreover have "dec_time zero_time ea = Some (EnqueuedAt j)"
    using ea assms(2) by (simp add: dec_time_json_time job_ok_def)
  ultimately show ?thesis
    using assms sg ea
    by (auto simp: Marshal_job_def job_ok_def Unmarshal_job_def job_fields_def field_def
        key_match_def parse_string zero_job_def)
qed

end

lemma Unmarshal_Marshal_key: "Marshal_key k = Some d \<Longrightarrow> Unmarshal_key d = Some k"
  by (auto simp: Marshal_key_def Unmarshal_key_def key_fields_def field_def key_match_def)

lemma Unmarshal_job_string [simp]: "Unmarshal_job prs (JStr s) = None"
  by (simp add: Unmarshal_job_def)

lemma Unmarshal_key_string [simp]: "Unmarshal_key (JStr s) = None"
  by (simp add: Unmarshal_key_def)

subsection \<open>A concrete UUID text form\<close>

text \<open>The canonical form \<open>8-4-4-4-12\<close> in lower-case hexadecimal, and its reader.\<close>

definition hex_val :: "char \<Rightarrow> nat option" where
  "hex_val c = (let n = of_char c :: nat in
     if 48 \<le> n \<and> n \<le> 57 then Some (n - 48)
     else if 97 \<le> n \<and> n \<le> 102 then Some (n - 87)
     else if 65 \<le> n \<and> n \<le> 70 then Some (n - 55) else None)"

fun hex_num :: "nat \<Rightarrow> nat \<Rightarrow> string" where
  "hex_num 0 n = []"
| "hex_num (Suc k) n = hex_num k (n div 16) @ [hex_digit (n mod 16)]"

fun hex_read :: "nat \<Rightarrow> string \<Rightarrow> nat option" where
  "hex_read a [] = Some a"
| "hex_read a (c # cs) = (case hex_val c of None \<Rightarrow> None | Some d \<Rightarrow> hex_read (16 * a + d) cs)"

definition uuid_string :: "uuid \<Rightarrow> string" where
  "uuid_string u = (let h = hex_num 32 (unat u) in
     take 8 h @ ''-'' @ take 4 (drop 8 h) @ ''-'' @ take 4 (drop 12 h) @ ''-''
       @ take 4 (drop 16 h) @ ''-'' @ drop 20 h)"

definition uuid_parse :: "string \<Rightarrow> uuid option" where
  "uuid_parse s = (if length s = 36 then
       map_option of_nat (hex_read 0 (filter (\<lambda>c. c \<noteq> CHR ''-'') s)) else None)"

lemma hex_val_digit: "n < 16 \<Longrightarrow> hex_val (hex_digit n) = Some n"
  by (simp add: hex_val_def hex_digit_code Let_def)

lemma hex_digit_not_dash: "n < 16 \<Longrightarrow> hex_digit n \<noteq> CHR ''-''"
  using hex_digit_code [of n] by (auto split: if_splits)

lemma length_hex_num [simp]: "length (hex_num k n) = k"
  by (induction k arbitrary: n) simp_all

lemma hex_num_no_dash: "CHR ''-'' \<notin> set (hex_num k n)"
proof (induction k arbitrary: n)
  case (Suc k)
  then show ?case using hex_digit_not_dash [of "n mod 16"] by auto
qed simp

lemma filter_absent: "x \<notin> set xs \<Longrightarrow> filter (\<lambda>c. c \<noteq> x) xs = xs"
  by (induction xs) auto

lemma hex_read_append:
  "hex_read a (s @ t) = (case hex_read a s of None \<Rightarrow> None | Some b \<Rightarrow> hex_read b t)"
  by (induction s arbitrary: a) (auto split: option.splits)

lemma hex_read_num: "hex_read a (hex_num k n) = Some (16 ^ k * a + n mod 16 ^ k)"
proof (induction k arbitrary: n a)
  case (Suc k)
  have "n mod (16 * 16 ^ k) = 16 * (n div 16 mod 16 ^ k) + n mod 16"
    by (rule mod_mult2_eq)
  then show ?case by (simp add: Suc.IH hex_read_append hex_val_digit)
qed simp

lemma uuid_parse_string: "uuid_parse (uuid_string u) = Some u"
proof -
  define h where "h = hex_num 32 (unat u)"
  have n: "CHR ''-'' \<notin> set (take k (drop m h))" for k m
    using hex_num_no_dash unfolding h_def by (metis in_set_dropD in_set_takeD)
  have f: "filter (\<lambda>c. c \<noteq> CHR ''-'') (take k (drop m h)) = take k (drop m h)" for k m
    by (rule filter_absent [OF n])
  have d: "take 4 (drop m h) @ drop (m + 4) h = drop m h" for m
    using append_take_drop_id [of 4 "drop m h"] by (simp add: add.commute)
  have "filter (\<lambda>c. c \<noteq> CHR ''-'') (uuid_string u)
      = take 8 h @ take 4 (drop 8 h) @ take 4 (drop 12 h) @ take 4 (drop 16 h) @ drop 20 h"
    using f [of 8 0] f [of 4] f [of 12 20] unfolding uuid_string_def h_def [symmetric] Let_def
    by (simp add: h_def)
  also have "\<dots> = h"
    using d [of 8] d [of 12] d [of 16] by simp
  finally have "filter (\<lambda>c. c \<noteq> CHR ''-'') (uuid_string u) = h" .
  moreover have "unat u mod 16 ^ 32 = unat u"
    using unsigned_less [where 'a = nat, of u] by simp
  ultimately show ?thesis
    by (simp add: uuid_parse_def uuid_string_def Let_def hex_read_num [of 0 32] h_def)
qed

interpretation uuid_model: uuid_text uuid_string uuid_parse
  by unfold_locales (rule uuid_parse_string)

end
