(* ===== verification/Postgres.thy ===== *)
theory Postgres
  imports Wire Service
begin

text \<open>
  The tables of \<open>migrations/*.sql\<close> and the SQL statements of \<open>internal/store/store.go\<close>, one
  constructor per statement text. \<open>sql_step\<close> is what a statement does to the tables, with the
  constraints of the schema: primary keys, \<open>UNIQUE\<close>, \<open>CHECK\<close>, foreign keys and the partitions of
  \<open>signals\<close>. Postgres itself is a parameter (locale \<open>postgres\<close>): a server whose answers agree
  with \<open>sql_step\<close> and whose calls may fail. Two further pieces of Postgres are parameters of
  \<open>sql_step\<close>: the canonical text of an array literal (\<open>array_canon\<close>) and the effect of a
  migration script (\<open>script\<close>). Rows are kept in order of insertion.
\<close>

subsection \<open>Tables\<close>

record key_row =
  kr_id :: uuid
  kr_hash :: string
  kr_owner :: string
  kr_scopes :: string
  kr_status :: string
  kr_max :: "int option"
  kr_successor :: "uuid option"
  kr_rotate_at :: "int option"
  kr_note :: string
  kr_created :: int
  kr_last_used :: "int option"

record machine_row =
  mr_id :: uuid
  mr_key :: uuid
  mr_account :: string
  mr_registered :: int
  mr_seen :: int

record symbol_row =
  yr_id :: uuid
  yr_symbol :: string
  yr_active :: bool
  yr_created :: int

record signal_row =
  sr_id :: uuid
  sr_ticket :: int
  sr_type :: string
  sr_symbol :: string
  sr_direction :: string
  sr_price :: rat
  sr_sl :: "rat option"
  sr_tp :: "rat option"
  sr_lot :: rat
  sr_source :: "uuid option"
  sr_received :: int

record sub_row =
  br_id :: uuid
  br_key :: uuid
  br_channel :: string
  br_config :: json
  br_active :: bool
  br_created :: int

record log_row =
  lr_id :: uuid
  lr_signal :: uuid
  lr_sub :: uuid
  lr_channel :: string
  lr_status :: string
  lr_attempts :: int
  lr_attempted :: "int option"
  lr_error :: "goerr option"
  lr_created :: int

record dead_row =
  dr_id :: uuid
  dr_payload :: json
  dr_signal :: "uuid option"
  dr_reason :: goerr
  dr_failed :: int

record tables =
  api_keys :: "key_row list"
  key_machines :: "machine_row list"
  watched_symbols :: "symbol_row list"
  signals :: "signal_row list"
  subscribers :: "sub_row list"
  delivery_log :: "log_row list"
  dead_letter :: "dead_row list"
  schema_migrations :: "string list option"

definition empty_tables :: tables where
  "empty_tables = \<lparr>api_keys = [], key_machines = [], watched_symbols = [], signals = [],
     subscribers = [], delivery_log = [], dead_letter = [], schema_migrations = None\<rparr>"

subsection \<open>Statements and replies\<close>

datatype (plugins only: size code) sql =
    InsertKey uuid string string string string "int option"
  | KeyByHash string
  | KeyById uuid
  | ListKeys
  | UpdateKeyStatus string uuid
  | UpdateKeyMax "int option" uuid
  | TouchKey uuid
  | LinkSuccessor uuid int uuid
  | MachineId uuid string
  | TouchMachineId uuid
  | CountMachinesOf uuid
  | InsertMachine uuid uuid string
  | MachinesOf "uuid option"
  | DeleteMachine uuid string
  | TouchMachine uuid string
  | MaxMachinesOf uuid
  | ActiveSymbols
  | AllSymbols
  | UpsertSymbol uuid string
  | UpdateSymbolActive bool string
  | DeleteSymbolRow string
  | InsertSignalRow uuid int string string string rat "rat option" "rat option" rat "uuid option"
  | SignalsPage int int
  | InsertSub uuid uuid string json
  | SubById uuid
  | ActiveSubs
  | AllSubs
  | UpdateSubActive bool uuid
  | InsertLog uuid uuid uuid string
  | UpdateDelivered uuid
  | UpdateFailed goerr uuid
  | UpdateDead goerr uuid
  | InsertDead uuid json "uuid option" goerr
  | CountSignals
  | CountLog string
  | CountActiveSubs
  | CountKeys
  | CountActiveKeys
  | CreateMigrations
  | CountMigration string
  | RunScript string
  | InsertMigration string

datatype pgcmd = Ping | Auto sql | Tx "sql list"

datatype (plugins only: size code) pgreply =
    PErr string
  | PDone nat
  | PKeys "key_row list"
  | PMachines "machine_row list"
  | PSymbols "symbol_row list"
  | PSignals "signal_row list"
  | PSubs "sub_row list"
  | PIds "uuid list"
  | PCount int
  | PMax "int option list"
  | PTxErr nat string

record pgdoc =
  array_canon :: "string \<Rightarrow> string option"
  script :: "string \<Rightarrow> tables \<Rightarrow> string + tables"

subsection \<open>Constraints\<close>

definition unique_violation :: pgreply where
  "unique_violation = PErr ''pq: duplicate key value violates unique constraint''"

definition fk_violation :: pgreply where
  "fk_violation = PErr ''pq: insert or update violates foreign key constraint''"

definition check_violation :: pgreply where
  "check_violation = PErr ''pq: new row violates check constraint''"

definition no_partition :: pgreply where
  "no_partition = PErr ''pq: no partition of relation found for row''"

definition out_of_range :: pgreply where
  "out_of_range = PErr ''pq: value out of range''"

definition key_statuses :: "string list" where
  "key_statuses = [''active'', ''revoked'', ''suspended'']"

definition channels :: "string list" where
  "channels = [''telegram'', ''whatsapp'', ''webhook'', ''mt4'']"

definition int4_ok :: "int option \<Rightarrow> bool" where
  "int4_ok m = (case m of None \<Rightarrow> True | Some x \<Rightarrow> - (2 ^ 31) \<le> x \<and> x < 2 ^ 31)"

text \<open>\<open>NUMERIC(20,p)\<close>: rounded half away from zero to \<open>p\<close> places, at most 20 digits.\<close>

definition numeric_round :: "nat \<Rightarrow> rat \<Rightarrow> rat" where
  "numeric_round p x = sgn x * of_int \<lfloor>\<bar>x\<bar> * 10 ^ p + 1 / 2\<rfloor> / 10 ^ p"

definition numeric_ok :: "nat \<Rightarrow> rat \<Rightarrow> bool" where
  "numeric_ok p x \<longleftrightarrow> \<bar>numeric_round p x\<bar> < 10 ^ (20 - p)"

definition numeric_opt_ok :: "nat \<Rightarrow> rat option \<Rightarrow> bool" where
  "numeric_opt_ok p x = (case x of None \<Rightarrow> True | Some y \<Rightarrow> numeric_ok p y)"

text \<open>The monthly partitions of \<open>signals\<close> cover the years 2025 to 2027.\<close>

definition partition_start :: int where
  "partition_start = (day_number 2025 1 1 - epoch_day) * 86400 * Second"

definition partition_end :: int where
  "partition_end = (day_number 2028 1 1 - epoch_day) * 86400 * Second"

definition has_key :: "uuid \<Rightarrow> tables \<Rightarrow> bool" where
  "has_key i t \<longleftrightarrow> i \<in> kr_id ` set (api_keys t)"

text \<open>Update the rows that satisfy a condition; the reply counts them.\<close>

definition upd :: "('r \<Rightarrow> bool) \<Rightarrow> ('r \<Rightarrow> 'r) \<Rightarrow> 'r list \<Rightarrow> 'r list" where
  "upd P f rs = map (\<lambda>r. if P r then f r else r) rs"

definition hits :: "('r \<Rightarrow> bool) \<Rightarrow> 'r list \<Rightarrow> pgreply" where
  "hits P rs = PDone (length (filter P rs))"

subsection \<open>Statements\<close>

primrec sql_step :: "pgdoc \<Rightarrow> int \<Rightarrow> sql \<Rightarrow> tables \<Rightarrow> pgreply \<times> tables" where
  "sql_step D now (InsertKey i h ow sc note mx) t =
     (case array_canon D sc of
        None \<Rightarrow> (PErr ''pq: malformed array literal'', t)
      | Some sc' \<Rightarrow>
          if has_key i t \<or> h \<in> kr_hash ` set (api_keys t) then (unique_violation, t)
          else if \<not> int4_ok mx then (out_of_range, t)
          else (PDone 1, t\<lparr>api_keys := api_keys t @
            [\<lparr>kr_id = i, kr_hash = h, kr_owner = ow, kr_scopes = sc', kr_status = ''active'',
              kr_max = mx, kr_successor = None, kr_rotate_at = None, kr_note = note,
              kr_created = now, kr_last_used = None\<rparr>]\<rparr>))"
| "sql_step D now (KeyByHash h) t = (PKeys (filter (\<lambda>r. kr_hash r = h) (api_keys t)), t)"
| "sql_step D now (KeyById i) t = (PKeys (filter (\<lambda>r. kr_id r = i) (api_keys t)), t)"
| "sql_step D now ListKeys t = (PKeys (sort_key (\<lambda>r. - kr_created r) (api_keys t)), t)"
| "sql_step D now (UpdateKeyStatus st i) t =
     (if has_key i t \<and> st \<notin> set key_statuses then (check_violation, t)
      else (hits (\<lambda>r. kr_id r = i) (api_keys t),
        t\<lparr>api_keys := upd (\<lambda>r. kr_id r = i) (\<lambda>r. r\<lparr>kr_status := st\<rparr>) (api_keys t)\<rparr>))"
| "sql_step D now (UpdateKeyMax mx i) t =
     (if \<not> int4_ok mx then (out_of_range, t)
      else (hits (\<lambda>r. kr_id r = i) (api_keys t),
        t\<lparr>api_keys := upd (\<lambda>r. kr_id r = i) (\<lambda>r. r\<lparr>kr_max := mx\<rparr>) (api_keys t)\<rparr>))"
| "sql_step D now (TouchKey i) t = (hits (\<lambda>r. kr_id r = i) (api_keys t),
     t\<lparr>api_keys := upd (\<lambda>r. kr_id r = i) (\<lambda>r. r\<lparr>kr_last_used := Some now\<rparr>) (api_keys t)\<rparr>)"
| "sql_step D now (LinkSuccessor new rot old) t =
     (if has_key old t \<and> \<not> has_key new t then (fk_violation, t)
      else (hits (\<lambda>r. kr_id r = old) (api_keys t),
        t\<lparr>api_keys := upd (\<lambda>r. kr_id r = old)
          (\<lambda>r. r\<lparr>kr_successor := Some new, kr_rotate_at := Some rot\<rparr>) (api_keys t)\<rparr>))"
| "sql_step D now (MachineId k a) t =
     (PIds (map mr_id (filter (\<lambda>r. mr_key r = k \<and> mr_account r = a) (key_machines t))), t)"
| "sql_step D now (TouchMachineId i) t = (hits (\<lambda>r. mr_id r = i) (key_machines t),
     t\<lparr>key_machines := upd (\<lambda>r. mr_id r = i) (\<lambda>r. r\<lparr>mr_seen := now\<rparr>) (key_machines t)\<rparr>)"
| "sql_step D now (CountMachinesOf k) t =
     (PCount (int (length (filter (\<lambda>r. mr_key r = k) (key_machines t)))), t)"
| "sql_step D now (InsertMachine i k a) t =
     (if i \<in> mr_id ` set (key_machines t)
        \<or> (\<exists>r \<in> set (key_machines t). mr_key r = k \<and> mr_account r = a) then (unique_violation, t)
      else if \<not> has_key k t then (fk_violation, t)
      else (PDone 1, t\<lparr>key_machines := key_machines t @
        [\<lparr>mr_id = i, mr_key = k, mr_account = a, mr_registered = now, mr_seen = now\<rparr>]\<rparr>))"
| "sql_step D now (MachinesOf k) t =
     (PMachines (sort_key (\<lambda>r. - mr_registered r)
        (filter (\<lambda>r. case k of None \<Rightarrow> True | Some i \<Rightarrow> mr_key r = i) (key_machines t))), t)"
| "sql_step D now (DeleteMachine k a) t =
     (hits (\<lambda>r. mr_key r = k \<and> mr_account r = a) (key_machines t),
      t\<lparr>key_machines := filter (\<lambda>r. \<not> (mr_key r = k \<and> mr_account r = a)) (key_machines t)\<rparr>)"
| "sql_step D now (TouchMachine k a) t =
     (hits (\<lambda>r. mr_key r = k \<and> mr_account r = a) (key_machines t),
      t\<lparr>key_machines := upd (\<lambda>r. mr_key r = k \<and> mr_account r = a) (\<lambda>r. r\<lparr>mr_seen := now\<rparr>)
        (key_machines t)\<rparr>)"
| "sql_step D now (MaxMachinesOf k) t =
     (PMax (map kr_max (filter (\<lambda>r. kr_id r = k) (api_keys t))), t)"
| "sql_step D now ActiveSymbols t =
     (PSymbols (sort_key yr_symbol (filter yr_active (watched_symbols t))), t)"
| "sql_step D now AllSymbols t = (PSymbols (sort_key yr_symbol (watched_symbols t)), t)"
| "sql_step D now (UpsertSymbol i s) t =
     (if s \<in> yr_symbol ` set (watched_symbols t)
      then (PDone 1, t\<lparr>watched_symbols :=
        upd (\<lambda>r. yr_symbol r = s) (\<lambda>r. r\<lparr>yr_active := True\<rparr>) (watched_symbols t)\<rparr>)
      else if i \<in> yr_id ` set (watched_symbols t) then (unique_violation, t)
      else (PDone 1, t\<lparr>watched_symbols := watched_symbols t @
        [\<lparr>yr_id = i, yr_symbol = s, yr_active = True, yr_created = now\<rparr>]\<rparr>))"
| "sql_step D now (UpdateSymbolActive b s) t = (hits (\<lambda>r. yr_symbol r = s) (watched_symbols t),
     t\<lparr>watched_symbols := upd (\<lambda>r. yr_symbol r = s) (\<lambda>r. r\<lparr>yr_active := b\<rparr>) (watched_symbols t)\<rparr>)"
| "sql_step D now (DeleteSymbolRow s) t = (hits (\<lambda>r. yr_symbol r = s) (watched_symbols t),
     t\<lparr>watched_symbols := filter (\<lambda>r. yr_symbol r \<noteq> s) (watched_symbols t)\<rparr>)"
| "sql_step D now (InsertSignalRow i tid ty smb dir pr sl tp lot src) t =
     (if ty \<notin> set [SignalOpen, SignalModify, SignalClose, SignalPartial]
         \<or> dir \<notin> set [''BUY'', ''SELL''] then (check_violation, t)
      else if \<not> numeric_ok 8 pr \<or> \<not> numeric_opt_ok 8 sl \<or> \<not> numeric_opt_ok 8 tp
         \<or> \<not> numeric_ok 4 lot then (out_of_range, t)
      else if now < partition_start \<or> partition_end \<le> now then (no_partition, t)
      else if (case src of None \<Rightarrow> False | Some k \<Rightarrow> \<not> has_key k t) then (fk_violation, t)
      else if \<exists>r \<in> set (signals t). sr_id r = i \<and> sr_received r = now then (unique_violation, t)
      else (PDone 1, t\<lparr>signals := signals t @
        [\<lparr>sr_id = i, sr_ticket = tid, sr_type = ty, sr_symbol = smb, sr_direction = dir,
          sr_price = numeric_round 8 pr, sr_sl = map_option (numeric_round 8) sl,
          sr_tp = map_option (numeric_round 8) tp, sr_lot = numeric_round 4 lot,
          sr_source = src, sr_received = now\<rparr>]\<rparr>))"
| "sql_step D now (SignalsPage lmt off) t =
     (if lmt < 0 \<or> off < 0 then (PErr ''pq: LIMIT or OFFSET must not be negative'', t)
      else (PSignals (take (nat lmt) (drop (nat off) (sort_key (\<lambda>r. - sr_received r) (signals t)))), t))"
| "sql_step D now (InsertSub i k ch cfg) t =
     (if ch \<notin> set channels then (check_violation, t)
      else if i \<in> br_id ` set (subscribers t) then (unique_violation, t)
      else if \<not> has_key k t then (fk_violation, t)
      else (PDone 1, t\<lparr>subscribers := subscribers t @
        [\<lparr>br_id = i, br_key = k, br_channel = ch, br_config = cfg, br_active = True,
          br_created = now\<rparr>]\<rparr>))"
| "sql_step D now (SubById i) t = (PSubs (filter (\<lambda>r. br_id r = i) (subscribers t)), t)"
| "sql_step D now ActiveSubs t = (PSubs (filter br_active (subscribers t)), t)"
| "sql_step D now AllSubs t = (PSubs (sort_key (\<lambda>r. - br_created r) (subscribers t)), t)"
| "sql_step D now (UpdateSubActive b i) t = (hits (\<lambda>r. br_id r = i) (subscribers t),
     t\<lparr>subscribers := upd (\<lambda>r. br_id r = i) (\<lambda>r. r\<lparr>br_active := b\<rparr>) (subscribers t)\<rparr>)"
| "sql_step D now (InsertLog i sg sb ch) t =
     (if i \<in> lr_id ` set (delivery_log t) then (unique_violation, t)
      else if sb \<notin> br_id ` set (subscribers t) then (fk_violation, t)
      else (PDone 1, t\<lparr>delivery_log := delivery_log t @
        [\<lparr>lr_id = i, lr_signal = sg, lr_sub = sb, lr_channel = ch, lr_status = ''pending'',
          lr_attempts = 0, lr_attempted = None, lr_error = None, lr_created = now\<rparr>]\<rparr>))"
| "sql_step D now (UpdateDelivered i) t = (hits (\<lambda>r. lr_id r = i) (delivery_log t),
     t\<lparr>delivery_log := upd (\<lambda>r. lr_id r = i)
       (\<lambda>r. r\<lparr>lr_status := ''delivered'', lr_attempted := Some now, lr_attempts := lr_attempts r + 1\<rparr>)
       (delivery_log t)\<rparr>)"
| "sql_step D now (UpdateFailed e i) t = (hits (\<lambda>r. lr_id r = i) (delivery_log t),
     t\<lparr>delivery_log := upd (\<lambda>r. lr_id r = i)
       (\<lambda>r. r\<lparr>lr_status := ''failed'', lr_attempted := Some now, lr_attempts := lr_attempts r + 1,
              lr_error := Some e\<rparr>) (delivery_log t)\<rparr>)"
| "sql_step D now (UpdateDead e i) t = (hits (\<lambda>r. lr_id r = i) (delivery_log t),
     t\<lparr>delivery_log := upd (\<lambda>r. lr_id r = i)
       (\<lambda>r. r\<lparr>lr_status := ''dead'', lr_attempted := Some now, lr_error := Some e\<rparr>) (delivery_log t)\<rparr>)"
| "sql_step D now (InsertDead i pay sg e) t =
     (if i \<in> dr_id ` set (dead_letter t) then (unique_violation, t)
      else (PDone 1, t\<lparr>dead_letter := dead_letter t @
        [\<lparr>dr_id = i, dr_payload = pay, dr_signal = sg, dr_reason = e, dr_failed = now\<rparr>]\<rparr>))"
| "sql_step D now CountSignals t = (PCount (int (length (signals t))), t)"
| "sql_step D now (CountLog st) t =
     (PCount (int (length (filter (\<lambda>r. lr_status r = st) (delivery_log t)))), t)"
| "sql_step D now CountActiveSubs t = (PCount (int (length (filter br_active (subscribers t)))), t)"
| "sql_step D now CountKeys t = (PCount (int (length (api_keys t))), t)"
| "sql_step D now CountActiveKeys t =
     (PCount (int (length (filter (\<lambda>r. kr_status r = ''active'') (api_keys t)))), t)"
| "sql_step D now CreateMigrations t = (PDone 0,
     (case schema_migrations t of None \<Rightarrow> t\<lparr>schema_migrations := Some []\<rparr> | Some _ \<Rightarrow> t))"
| "sql_step D now (CountMigration f) t =
     (case schema_migrations t of
        None \<Rightarrow> (PErr ''pq: relation schema_migrations does not exist'', t)
      | Some fs \<Rightarrow> (PCount (int (length (filter (\<lambda>g. g = f) fs))), t))"
| "sql_step D now (RunScript s) t =
     (case script D s t of Inl e \<Rightarrow> (PErr e, t) | Inr t' \<Rightarrow> (PDone 0, t'))"
| "sql_step D now (InsertMigration f) t =
     (case schema_migrations t of
        None \<Rightarrow> (PErr ''pq: relation schema_migrations does not exist'', t)
      | Some fs \<Rightarrow> if f \<in> set fs then (unique_violation, t)
          else (PDone 1, t\<lparr>schema_migrations := Some (fs @ [f])\<rparr>))"

text \<open>
  A transaction: its statements in order, all of them or none. The reply to a failed one is the
  index of the statement that failed.
\<close>

fun tx_step :: "pgdoc \<Rightarrow> int \<Rightarrow> nat \<Rightarrow> sql list \<Rightarrow> tables \<Rightarrow> pgreply + tables" where
  "tx_step D now n [] t = Inr t"
| "tx_step D now n (c # cs) t =
     (case sql_step D now c t of
        (PErr m, _) \<Rightarrow> Inl (PTxErr n m)
      | (_, t') \<Rightarrow> tx_step D now (Suc n) cs t')"

fun pg_step :: "pgdoc \<Rightarrow> int \<Rightarrow> pgcmd \<Rightarrow> tables \<Rightarrow> pgreply \<times> tables" where
  "pg_step D now Ping t = (PDone 0, t)"
| "pg_step D now (Auto c) t = sql_step D now c t"
| "pg_step D now (Tx cs) t =
     (case tx_step D now 0 cs t of Inl e \<Rightarrow> (e, t) | Inr t' \<Rightarrow> (PDone 0, t'))"

definition pg_ok :: "pgdoc \<Rightarrow> int \<Rightarrow> pgcmd \<Rightarrow> tables \<Rightarrow> pgreply \<Rightarrow> tables \<Rightarrow> bool" where
  "pg_ok D now c t x t' \<longleftrightarrow> (x, t') = pg_step D now c t"

locale postgres = service exec \<alpha> "pg_ok D"
  for exec :: "(pgcmd, pgreply, 's) server" and \<alpha> :: "'s \<Rightarrow> tables" and D :: pgdoc
begin

lemma pg_answer: "exec now c s = (Inr x, s') \<Longrightarrow> (x, \<alpha> s') = pg_step D now c (\<alpha> s)"
  by (drule answer) (simp add: pg_ok_def)

lemma pg_failure: "exec now c s = (Inl e, s') \<Longrightarrow> \<alpha> s' = \<alpha> s \<or> \<alpha> s' = snd (pg_step D now c (\<alpha> s))"
  by (drule failure) (metis pg_ok_def snd_conv)

lemma pg_outcome: "exec now c s = (r, s') \<Longrightarrow> \<alpha> s' = \<alpha> s \<or> \<alpha> s' = snd (pg_step D now c (\<alpha> s))"
  using pg_answer pg_failure by (cases r) (metis snd_conv)+

text \<open>A query changes nothing, whether the call succeeds or fails.\<close>

lemma pg_query:
  "exec now c s = (r, s') \<Longrightarrow> snd (pg_step D now c (\<alpha> s)) = \<alpha> s \<Longrightarrow> \<alpha> s' = \<alpha> s"
  by (drule pg_outcome) auto

end

lemma pg_ok_step: "pg_ok D now c t (fst (pg_step D now c t)) (snd (pg_step D now c t))"
  by (simp add: pg_ok_def)

text \<open>
  Documented behaviour of the parameters, made concrete for the reference server: a literal of
  plain elements is its own canonical text, and a script without effect.
\<close>

definition plain_doc :: pgdoc where
  "plain_doc = \<lparr>array_canon = Some, script = (\<lambda>s t. Inr t)\<rparr>"

interpretation mem_pg: postgres "scripted (pg_step D)" fst D
  unfolding postgres_def by (rule service_scripted) (rule pg_ok_step)

end
