(* ===== verification/Jwt.thy ===== *)
theory Jwt
  imports GoTime
begin

text \<open>
  The package \<open>golang-jwt\<close> is not code of this repository. The program signs \<open>auth.AdminClaims\<close>
  with a secret and parses tokens with a function that gives the key for a signing method; the
  locale \<open>jwt_library\<close> says what is documented of the two. The reference library below is not
  the JWT format; it is a concrete pair of functions that satisfies the locale.
\<close>

subsection \<open>Claims\<close>

text \<open>\<open>auth.AdminClaims\<close> with the registered claims it embeds; times are instants.\<close>

record AdminClaims =
  Username :: string
  JTI :: string
  Subject :: string
  IssuedAt :: "int option"
  ExpiresAt :: "int option"
  Issuer :: string
  Audience :: "string list"

datatype sigmethod = MethodHMAC | MethodOther

type_synonym keyfunc = "sigmethod \<Rightarrow> string result"

subsection \<open>The library\<close>

text \<open>
  A numeric date has whole seconds. A token parses to the claims that were signed if the key
  function accepts HMAC with the same secret and the token is not expired; the claims of a token
  do not change with time; no token parses after its expiry, or when the key function refuses
  every method.
\<close>

definition whole_seconds :: "AdminClaims \<Rightarrow> bool" where
  "whole_seconds c \<longleftrightarrow> (case IssuedAt c of None \<Rightarrow> True | Some t \<Rightarrow> t mod Second = 0)
     \<and> (case ExpiresAt c of None \<Rightarrow> True | Some t \<Rightarrow> t mod Second = 0)"

locale jwt_library =
  fixes sign :: "AdminClaims \<Rightarrow> string \<Rightarrow> string + string"
    and parse :: "keyfunc \<Rightarrow> int \<Rightarrow> string \<Rightarrow> string + AdminClaims \<times> bool"
  assumes parse_signed: "sign c k = Inr t \<Longrightarrow> kf MethodHMAC = Inr k \<Longrightarrow> whole_seconds c \<Longrightarrow>
      (case ExpiresAt c of None \<Rightarrow> True | Some e \<Rightarrow> now < e) \<Longrightarrow> parse kf now t = Inr (c, True)"
    and parse_unexpired: "parse kf now t = Inr (c, v) \<Longrightarrow> ExpiresAt c = Some e \<Longrightarrow> now < e"
    and parse_stable: "parse kf now t = Inr (c, v) \<Longrightarrow> parse kf now' t = Inr (c', v') \<Longrightarrow> c' = c"
    and parse_key: "parse kf now t = Inr (c, v) \<Longrightarrow> \<exists>m k. kf m = Inr k"
begin

lemma parse_expired:
  "ExpiresAt c = Some e \<Longrightarrow> e \<le> now \<Longrightarrow> parse kf now t \<noteq> Inr (c, v)"
  using parse_unexpired by fastforce

end

subsection \<open>A concrete library\<close>

definition code_string :: "string \<Rightarrow> string" where
  "code_string s = concat (map (\<lambda>c. FormatInt (int (of_char c)) @ '','') s)"

definition decode_string :: "string \<Rightarrow> string" where
  "decode_string t = map (\<lambda>p. char_of (nat (digits_val p))) (butlast (Split t CHR '',''))"

definition code_time :: "int option \<Rightarrow> string" where
  "code_time x = (case x of None \<Rightarrow> ''-'' | Some n \<Rightarrow> FormatInt n)"

definition decode_time :: "string \<Rightarrow> int option" where
  "decode_time t = (if t = ''-'' then None
     else Some (if HasPrefix t ''-'' then - digits_val (tl t) else digits_val t))"

definition mem_jwt_sign :: "AdminClaims \<Rightarrow> string \<Rightarrow> string + string" where
  "mem_jwt_sign c k = Inr (Join (code_string k # code_string (Username c) # code_string (JTI c)
     # code_string (Subject c) # code_time (IssuedAt c) # code_time (ExpiresAt c)
     # code_string (Issuer c) # map code_string (Audience c)) '':'')"

definition mem_jwt_parse :: "keyfunc \<Rightarrow> int \<Rightarrow> string \<Rightarrow> string + AdminClaims \<times> bool" where
  "mem_jwt_parse kf now t = (case Split t CHR '':'' of
     k # u # j # sb # ia # ea # is # aud \<Rightarrow>
       if kf MethodHMAC \<noteq> Inr (decode_string k) then Inl ''token signature is invalid''
       else (case decode_time ea of
          Some e \<Rightarrow> if e \<le> now then Inl ''token is expired'' else Inr (\<lparr>Username = decode_string u,
            JTI = decode_string j, Subject = decode_string sb, IssuedAt = decode_time ia,
            ExpiresAt = Some e, Issuer = decode_string is, Audience = map decode_string aud\<rparr>, True)
        | None \<Rightarrow> Inr (\<lparr>Username = decode_string u, JTI = decode_string j, Subject = decode_string sb,
            IssuedAt = decode_time ia, ExpiresAt = None, Issuer = decode_string is,
            Audience = map decode_string aud\<rparr>, True))
   | _ \<Rightarrow> Inl ''token is malformed'')"

lemma FormatInt_chars: "c \<in> set (FormatInt n) \<Longrightarrow> is_digit c \<or> c = CHR ''-''"
  using nat_text_digits by (auto simp: FormatInt_def list_all_iff split: if_splits)

lemma FormatInt_no_comma: "CHR '','' \<notin> set (FormatInt n)"
  using FormatInt_chars [of "CHR '',''" n] by (auto simp: is_digit_def)

lemma Split_code: "Split (code_string s @ t) CHR '','' =
    map (\<lambda>c. FormatInt (int (of_char c))) s @ Split t CHR '',''"
  by (induction s) (simp_all add: code_string_def Split_append_sep FormatInt_no_comma)

lemma decode_code [simp]: "decode_string (code_string s) = s"
  using Split_code [of s "[]"]
  by (simp add: decode_string_def FormatInt_def map_idI)

lemma decode_code_time [simp]: "decode_time (code_time x) = x"
  using nat_text_no_sign
  by (auto simp: decode_time_def code_time_def FormatInt_def HasPrefix_def split: option.splits)

lemma code_string_no_colon: "CHR '':'' \<notin> set (code_string s)"
  using FormatInt_no_colon by (auto simp: code_string_def)

lemma code_time_no_colon: "CHR '':'' \<notin> set (code_time x)"
  using FormatInt_no_colon by (auto simp: code_time_def split: option.splits)

lemma mem_jwt_split:
  "mem_jwt_sign c k = Inr t \<Longrightarrow> Split t CHR '':'' = code_string k # code_string (Username c)
     # code_string (JTI c) # code_string (Subject c) # code_time (IssuedAt c)
     # code_time (ExpiresAt c) # code_string (Issuer c) # map code_string (Audience c)"
  unfolding mem_jwt_sign_def sum.inject
  by (erule subst, rule Split_Join) (auto simp: code_string_no_colon code_time_no_colon)

lemma map_decode [simp]: "map (decode_string \<circ> code_string) xs = xs"
  by (simp add: map_idI)

interpretation mem_jwt: jwt_library mem_jwt_sign mem_jwt_parse
proof
  fix c k t and kf :: keyfunc and now
  assume "mem_jwt_sign c k = Inr t" "kf MethodHMAC = Inr k"
    "case ExpiresAt c of None \<Rightarrow> True | Some e \<Rightarrow> now < e"
  then show "mem_jwt_parse kf now t = Inr (c, True)"
    by (simp add: mem_jwt_parse_def mem_jwt_split split: option.splits)
next
  fix c t v e and kf :: keyfunc and now
  assume "mem_jwt_parse kf now t = Inr (c, v)" "ExpiresAt c = Some e"
  then show "now < e"
    by (auto simp: mem_jwt_parse_def split: list.splits if_splits option.splits)
next
  fix c c' t v v' and kf :: keyfunc and now now'
  assume "mem_jwt_parse kf now t = Inr (c, v)" "mem_jwt_parse kf now' t = Inr (c', v')"
  then show "c' = c"
    by (auto simp: mem_jwt_parse_def split: list.splits if_splits option.splits)
next
  fix c t v and kf :: keyfunc and now
  assume "mem_jwt_parse kf now t = Inr (c, v)"
  then show "\<exists>m k. kf m = Inr k"
    by (auto simp: mem_jwt_parse_def split: list.splits if_splits option.splits)
qed

end
