(* ===== verification/World.thy ===== *)
theory World
  imports Redis Postgres Jwt
begin

text \<open>
  The world a handler runs in: the two Redis servers, the database, the clock, the goroutines it
  has started and the HTTP requests it has sent. Everything that is not code of the repository
  is a field of the environment \<open>env\<close>, an argument of every operation: the three servers, the
  packages \<open>google/uuid\<close>, \<open>golang-jwt\<close>, \<open>bcrypt\<close>, the random sources, the answers to outgoing
  HTTP requests, the texts that are no URL, the text layout of JSON and the conversion of a
  \<open>float64\<close> that is out of range. The locale \<open>deployment\<close> collects what is documented
  of them and the operations rely on.
\<close>

subsection \<open>HTTP\<close>

record request =
  rq_method :: string
  rq_path :: string
  rq_header :: "string \<Rightarrow> string"
  rq_value :: "string \<Rightarrow> string"
  rq_query :: "string \<Rightarrow> string"
  rq_body :: "json option"
  rq_remote :: string

text \<open>
  The body of a response: none, a JSON document, the error object \<open>{"error": text}\<close> as a document
  (\<open>ErrorText\<close>) or printed with the verb \<open>%q\<close> (\<open>Quoted\<close>), with the error whose text it shows, or a
  page of \<open>net/http\<close>. \<open>Aborted\<close> is a handler that panicked. The headers are those that the code
  sets; what \<open>net/http\<close> adds of its own is left out.
\<close>

datatype resp_body = NoBody | Doc json | ErrorText goerr | Quoted goerr | Page string | Aborted

record response =
  status :: nat
  headers :: "(string \<times> string) list"
  rbody :: resp_body

definition json_type :: "(string \<times> string) list" where
  "json_type = [(''Content-Type'', ''application/json'')]"

datatype hbody = HNone | HJson json | HForm "(string \<times> string) list"

record http_out =
  ho_method :: string
  ho_url :: string
  ho_headers :: "(string \<times> string) list"
  ho_body :: hbody

subsection \<open>World and environment\<close>

text \<open>Goroutines started with \<open>go\<close>: the three updates that handlers do not wait for.\<close>

datatype async = AsyncTouchKey uuid | AsyncTouchMachine uuid string | AsyncTouchMachineId uuid

record ('r, 'l, 'd) world =
  crit :: 'r
  lru :: 'l
  pg :: 'd
  clock :: int
  seed :: nat
  spawned :: "async list"
  outbox :: "http_out list"

record ('r, 'l, 'd) env =
  crit_srv :: "(rcmd, rreply, 'r) server"
  lru_srv :: "(rcmd, rreply, 'l) server"
  pg_srv :: "(pgcmd, pgreply, 'd) server"
  new_uuid :: "nat \<Rightarrow> uuid"
  uuid_str :: "uuid \<Rightarrow> string"
  uuid_prs :: "string \<Rightarrow> uuid option"
  rand_read :: "nat \<Rightarrow> string + byte list"
  rand_int :: "nat \<Rightarrow> nat"
  jwt_sign :: "AdminClaims \<Rightarrow> string \<Rightarrow> string + string"
  jwt_parse :: "keyfunc \<Rightarrow> int \<Rightarrow> string \<Rightarrow> string + AdminClaims \<times> bool"
  bcrypt_ok :: "string \<Rightarrow> string \<Rightarrow> bool"
  http_answer :: "nat \<Rightarrow> http_out \<Rightarrow> string + nat \<times> string"
  json_text :: "json \<Rightarrow> byte list"
  url_error :: "string \<Rightarrow> string option"
  float_int :: "rat \<Rightarrow> int"

type_synonym ('r, 'l, 'd, 'a) io = "(('r, 'l, 'd) world, 'a) state"

subsection \<open>Primitive actions\<close>

definition time_now :: "('r, 'l, 'd, int) io" where
  "time_now = State (\<lambda>w. (clock w, w))"

definition sleep :: "int \<Rightarrow> ('r, 'l, 'd, unit) io" where
  "sleep d = State (\<lambda>w. ((), w\<lparr>clock := clock w + max 0 d\<rparr>))"

definition uuid_New :: "('r, 'l, 'd) env \<Rightarrow> ('r, 'l, 'd, uuid) io" where
  "uuid_New E = State (\<lambda>w. (new_uuid E (seed w), w\<lparr>seed := Suc (seed w)\<rparr>))"

definition rand_Read :: "('r, 'l, 'd) env \<Rightarrow> ('r, 'l, 'd, byte list result) io" where
  "rand_Read E = State (\<lambda>w. (case rand_read E (seed w) of Inl e \<Rightarrow> Inl (ESvc e) | Inr b \<Rightarrow> Inr b,
     w\<lparr>seed := Suc (seed w)\<rparr>))"

text \<open>\<open>math/rand.Intn(n)\<close> for positive \<open>n\<close>.\<close>

definition rand_Intn :: "('r, 'l, 'd) env \<Rightarrow> nat \<Rightarrow> ('r, 'l, 'd, nat) io" where
  "rand_Intn E n = State (\<lambda>w. (rand_int E (seed w) mod n, w\<lparr>seed := Suc (seed w)\<rparr>))"

definition spawn :: "async \<Rightarrow> ('r, 'l, 'd, unit) io" where
  "spawn a = State (\<lambda>w. ((), w\<lparr>spawned := spawned w @ [a]\<rparr>))"

definition http_Do :: "('r, 'l, 'd) env \<Rightarrow> http_out \<Rightarrow> ('r, 'l, 'd, (nat \<times> string) result) io" where
  "http_Do E h = State (\<lambda>w. (case http_answer E (seed w) h of Inl e \<Rightarrow> Inl (ESvc e) | Inr x \<Rightarrow> Inr x,
     w\<lparr>seed := Suc (seed w), outbox := outbox w @ [h]\<rparr>))"

text \<open>The drivers: an error reply of the server is an error of the call.\<close>

fun redis_result :: "string + rreply \<Rightarrow> rreply result" where
  "redis_result (Inl e) = Inl (ESvc e)"
| "redis_result (Inr (RErr e)) = Inl (ESvc e)"
| "redis_result (Inr x) = Inr x"

fun pg_result :: "string + pgreply \<Rightarrow> pgreply result" where
  "pg_result (Inl e) = Inl (ESvc e)"
| "pg_result (Inr (PErr e)) = Inl (ESvc e)"
| "pg_result (Inr x) = Inr x"

definition Critical :: "('r, 'l, 'd) env \<Rightarrow> rcmd \<Rightarrow> ('r, 'l, 'd, rreply result) io" where
  "Critical E c = State (\<lambda>w. case crit_srv E (clock w) c (crit w) of
     (x, r) \<Rightarrow> (redis_result x, w\<lparr>crit := r\<rparr>))"

definition Cache :: "('r, 'l, 'd) env \<Rightarrow> rcmd \<Rightarrow> ('r, 'l, 'd, rreply result) io" where
  "Cache E c = State (\<lambda>w. case lru_srv E (clock w) c (lru w) of
     (x, r) \<Rightarrow> (redis_result x, w\<lparr>lru := r\<rparr>))"

definition DB :: "('r, 'l, 'd) env \<Rightarrow> pgcmd \<Rightarrow> ('r, 'l, 'd, pgreply result) io" where
  "DB E c = State (\<lambda>w. case pg_srv E (clock w) c (pg w) of
     (x, d) \<Rightarrow> (pg_result x, w\<lparr>pg := d\<rparr>))"

subsection \<open>What each action leaves alone\<close>

lemma time_now_keeps [hoare]: "keeps f time_now"
  by (simp add: keeps_def time_now_def)

lemma run_time_now [simp]: "run_state time_now w = (clock w, w)"
  by (simp add: time_now_def)

lemma run_spawn [simp]: "run_state (spawn a) w = ((), w\<lparr>spawned := spawned w @ [a]\<rparr>)"
  by (simp add: spawn_def)

lemma run_uuid_New [simp]:
  "run_state (uuid_New E) w = (new_uuid E (seed w), w\<lparr>seed := Suc (seed w)\<rparr>)"
  by (simp add: uuid_New_def)

lemma run_sleep [simp]: "run_state (sleep d) w = ((), w\<lparr>clock := clock w + max 0 d\<rparr>)"
  by (simp add: sleep_def)

lemma uuid_New_keeps [hoare]:
  "keeps crit (uuid_New E)" "keeps lru (uuid_New E)" "keeps pg (uuid_New E)"
  "keeps clock (uuid_New E)" "keeps spawned (uuid_New E)" "keeps outbox (uuid_New E)"
  by (simp_all add: keeps_def)

lemma rand_keeps [hoare]:
  "keeps crit (rand_Read E)" "keeps lru (rand_Read E)" "keeps pg (rand_Read E)"
  "keeps clock (rand_Read E)" "keeps spawned (rand_Read E)" "keeps outbox (rand_Read E)"
  "keeps crit (rand_Intn E n)" "keeps lru (rand_Intn E n)" "keeps pg (rand_Intn E n)"
  "keeps clock (rand_Intn E n)" "keeps spawned (rand_Intn E n)" "keeps outbox (rand_Intn E n)"
  by (simp_all add: keeps_def rand_Read_def rand_Intn_def)

lemma sleep_keeps [hoare]:
  "keeps crit (sleep d)" "keeps lru (sleep d)" "keeps pg (sleep d)" "keeps spawned (sleep d)"
  "keeps outbox (sleep d)"
  by (simp_all add: keeps_def)

lemma spawn_keeps [hoare]:
  "keeps crit (spawn a)" "keeps lru (spawn a)" "keeps pg (spawn a)" "keeps clock (spawn a)"
  "keeps outbox (spawn a)"
  by (simp_all add: keeps_def)

lemma http_Do_keeps [hoare]:
  "keeps crit (http_Do E h)" "keeps lru (http_Do E h)" "keeps pg (http_Do E h)"
  "keeps clock (http_Do E h)" "keeps spawned (http_Do E h)"
  by (simp_all add: keeps_def http_Do_def)

lemma Critical_keeps [hoare]:
  "keeps lru (Critical E c)" "keeps pg (Critical E c)" "keeps clock (Critical E c)"
  "keeps spawned (Critical E c)" "keeps outbox (Critical E c)" "keeps seed (Critical E c)"
  by (simp_all add: keeps_def Critical_def split: prod.splits)

lemma Cache_keeps [hoare]:
  "keeps crit (Cache E c)" "keeps pg (Cache E c)" "keeps clock (Cache E c)"
  "keeps spawned (Cache E c)" "keeps outbox (Cache E c)" "keeps seed (Cache E c)"
  by (simp_all add: keeps_def Cache_def split: prod.splits)

lemma DB_keeps [hoare]:
  "keeps crit (DB E c)" "keeps lru (DB E c)" "keeps clock (DB E c)"
  "keeps spawned (DB E c)" "keeps outbox (DB E c)" "keeps seed (DB E c)"
  by (simp_all add: keeps_def DB_def split: prod.splits)

subsection \<open>Documented behaviour of the environment\<close>

locale deployment =
  crit: critical_redis "crit_srv E" ac + lru: lru_redis "lru_srv E" al +
  pg: postgres "pg_srv E" ad D + ids: uuid_text "uuid_str E" "uuid_prs E" +
  tok: jwt_library "jwt_sign E" "jwt_parse E"
  for E :: "('r, 'l, 'd) env" and ac :: "'r \<Rightarrow> rview" and al :: "'l \<Rightarrow> rview"
    and ad :: "'d \<Rightarrow> tables" and D :: pgdoc
begin

lemma Critical_ok:
  assumes "run_state (Critical E c) w = (Inr x, w')"
  shows "redis_ok (clock w) c (ac (crit w)) x (ac (crit w'))"
  using assms crit.answer
  by (auto simp: Critical_def split: prod.splits elim!: redis_result.elims)

lemma Critical_err:
  assumes "run_state (Critical E c) w = (r, w')"
  shows "ac (crit w') = ac (crit w) \<or> (\<exists>x. redis_ok (clock w) c (ac (crit w)) x (ac (crit w')))"
  using assms crit.outcome
  by (auto simp: Critical_def split: prod.splits) blast

lemma Cache_ok:
  assumes "run_state (Cache E c) w = (Inr x, w')"
  shows "lru_ok (clock w) c (al (lru w)) x (al (lru w'))"
  using assms lru.answer
  by (auto simp: Cache_def split: prod.splits elim!: redis_result.elims)

lemma Cache_err:
  assumes "run_state (Cache E c) w = (r, w')"
  shows "al (lru w') = al (lru w) \<or> (\<exists>x. lru_ok (clock w) c (al (lru w)) x (al (lru w')))"
  using assms lru.outcome
  by (auto simp: Cache_def split: prod.splits) blast

lemma DB_ok:
  assumes "run_state (DB E c) w = (Inr x, w')"
  shows "pg_step D (clock w) c (ad (pg w)) = (x, ad (pg w'))"
  using assms pg.pg_answer
  by (auto simp: DB_def split: prod.splits elim!: pg_result.elims)

lemma DB_any:
  assumes "run_state (DB E c) w = (r, w')"
  shows "ad (pg w') = ad (pg w) \<or> ad (pg w') = snd (pg_step D (clock w) c (ad (pg w)))"
  using assms pg.pg_outcome
  by (auto simp: DB_def split: prod.splits) blast

lemma DB_query:
  assumes "run_state (DB E c) w = (r, w')"
    and "snd (pg_step D (clock w) c (ad (pg w))) = ad (pg w)"
  shows "ad (pg w') = ad (pg w)"
  using DB_any [OF assms(1)] assms(2) by auto

end

subsection \<open>A concrete deployment\<close>

text \<open>
  The conversion of a \<open>float64\<close> to \<open>int64\<close> cuts towards zero; out of range its result is up to
  the implementation (\<open>float_int\<close>). On amd64 it is the least \<open>int64\<close>.
\<close>

definition amd64_int :: "rat \<Rightarrow> int" where
  "amd64_int q = (let i = (if q < 0 then \<lceil>q\<rceil> else \<lfloor>q\<rfloor>) in if in64 i then i else min64)"

text \<open>
  The environment of the reference servers, the canonical UUID text and the reference token
  library, with numbered UUIDs. Each server's state carries the script of its faults, so the
  concrete worlds of the witnesses run with every pattern of failures.
\<close>

type_synonym mem_world =
  "(rview \<times> fault list, rview \<times> fault list, tables \<times> fault list) world"

definition mem_env :: "(rview \<times> fault list, rview \<times> fault list, tables \<times> fault list) env" where
  "mem_env = \<lparr>crit_srv = scripted redis_step, lru_srv = scripted redis_step,
     pg_srv = scripted (pg_step plain_doc), new_uuid = of_nat, uuid_str = uuid_string,
     uuid_prs = uuid_parse, rand_read = (\<lambda>n. Inr (replicate 32 (of_nat n))), rand_int = (\<lambda>n. n),
     jwt_sign = mem_jwt_sign, jwt_parse = mem_jwt_parse, bcrypt_ok = (\<lambda>h p. h = p),
     http_answer = (\<lambda>n h. Inr (200, [])), json_text = (\<lambda>d. []),
     url_error = (\<lambda>u. None), float_int = amd64_int\<rparr>"

definition empty_rview :: rview where
  "empty_rview = \<lparr>rstr = (\<lambda>k. None), rlst = (\<lambda>k. [])\<rparr>"

text \<open>All servers empty and without faults, at a given time.\<close>

definition mem_world :: "tables \<Rightarrow> int \<Rightarrow> mem_world" where
  "mem_world t now = \<lparr>crit = (empty_rview, []), lru = (empty_rview, []), pg = (t, []),
     clock = now, seed = 1, spawned = [], outbox = []\<rparr>"

interpretation mem: deployment mem_env fst fst fst plain_doc
proof -
  show "deployment mem_env fst fst fst plain_doc"
    using mem_critical.critical_redis_axioms mem_lru.lru_redis_axioms
      mem_pg.postgres_axioms uuid_model.uuid_text_axioms mem_jwt.jwt_library_axioms
    by (simp add: deployment_def mem_env_def)
qed

lemmas mem_deployment = mem.deployment_axioms

text \<open>The environment whose servers answer every call.\<close>

definition calm_env :: "(rview, rview, tables) env" where
  "calm_env = \<lparr>crit_srv = faultless redis_step, lru_srv = faultless redis_step,
     pg_srv = faultless (pg_step plain_doc), new_uuid = of_nat, uuid_str = uuid_string,
     uuid_prs = uuid_parse, rand_read = (\<lambda>n. Inr (replicate 32 (of_nat n))), rand_int = (\<lambda>n. n),
     jwt_sign = mem_jwt_sign, jwt_parse = mem_jwt_parse, bcrypt_ok = (\<lambda>h p. h = p),
     http_answer = (\<lambda>n h. Inr (200, [])), json_text = (\<lambda>d. []),
     url_error = (\<lambda>u. None), float_int = amd64_int\<rparr>"

definition calm_world :: "tables \<Rightarrow> int \<Rightarrow> (rview, rview, tables) world" where
  "calm_world t now = \<lparr>crit = empty_rview, lru = empty_rview, pg = t, clock = now, seed = 1,
     spawned = [], outbox = []\<rparr>"

interpretation calm_pg: reliable_service "faultless (pg_step D)" id "pg_ok D"
  by (rule reliable_service_faultless) (rule pg_ok_step)

interpretation calm_redis: reliable_service "faultless redis_step" id redis_ok
  by (rule reliable_service_faultless) (rule redis_ok_step)

interpretation calm_cache: reliable_service "faultless redis_step" id lru_ok
  by (rule reliable_service_faultless) (rule lru_ok_step)

interpretation calm: deployment calm_env id id id plain_doc
proof -
  show "deployment calm_env id id id plain_doc"
    using calm_redis.service_axioms calm_cache.service_axioms calm_pg.service_axioms
      uuid_model.uuid_text_axioms mem_jwt.jwt_library_axioms
    by (simp add: deployment_def calm_env_def critical_redis_def lru_redis_def postgres_def)
qed

lemmas calm_deployment = calm.deployment_axioms

text \<open>Runs in this environment are computed by the simplifier.\<close>

lemma calm_env_simps [simp]:
  "crit_srv calm_env = faultless redis_step" "lru_srv calm_env = faultless redis_step"
  "pg_srv calm_env = faultless (pg_step plain_doc)" "new_uuid calm_env = of_nat"
  "uuid_str calm_env = uuid_string" "uuid_prs calm_env = uuid_parse"
  "rand_read calm_env n = Inr (replicate 32 (of_nat n))" "rand_int calm_env n = n"
  "jwt_sign calm_env = mem_jwt_sign" "jwt_parse calm_env = mem_jwt_parse"
  "bcrypt_ok calm_env h p \<longleftrightarrow> h = p" "http_answer calm_env n o1 = Inr (200, [])" "json_text calm_env d = []"
  "url_error calm_env u = None" "float_int calm_env = amd64_int"
  by (simp_all add: calm_env_def)

lemma calm_run [simp]:
  "run_state (Critical calm_env c) w = (redis_result (Inr (fst (redis_step (clock w) c (crit w)))),
     w\<lparr>crit := snd (redis_step (clock w) c (crit w))\<rparr>)"
  "run_state (Cache calm_env c) w = (redis_result (Inr (fst (redis_step (clock w) c (lru w)))),
     w\<lparr>lru := snd (redis_step (clock w) c (lru w))\<rparr>)"
  "run_state (DB calm_env q) w = (pg_result (Inr (fst (pg_step plain_doc (clock w) q (pg w)))),
     w\<lparr>pg := snd (pg_step plain_doc (clock w) q (pg w))\<rparr>)"
  by (simp_all add: Critical_def Cache_def DB_def faultless_def split: prod.splits)

lemma calm_world_simps [simp]:
  "pg (calm_world t now) = t" "clock (calm_world t now) = now" "seed (calm_world t now) = 1"
  "crit (calm_world t now) = empty_rview" "lru (calm_world t now) = empty_rview"
  "spawned (calm_world t now) = []" "outbox (calm_world t now) = []"
  by (simp_all add: calm_world_def)

lemma empty_rview_simps [simp]: "rstr empty_rview k = None" "rlst empty_rview k = []" "live t empty_rview k = None"
  by (simp_all add: empty_rview_def live_def)

lemma plain_doc_simps [simp]: "array_canon plain_doc s = Some s" "script plain_doc s t = Inr t"
  by (simp_all add: plain_doc_def)

end
