(* ===== verification/CacheLayer.thy ===== *)
theory CacheLayer
  imports World "HOL-Library.Multiset"
begin

text \<open>
  \<open>internal/cache/cache.go\<close>: every method of \<open>cache.Client\<close> over the two Redis servers, the key
  names it builds, and what a call that succeeds did to the server's state. The methods for the
  job queues satisfy the contract \<open>work_queue\<close>, which the queue consumer relies on.
\<close>

subsection \<open>Connection\<close>

definition Ping :: "('r, 'l, 'd) env \<Rightarrow> ('r, 'l, 'd, unit result) io" where
  "Ping E = do {
     a \<leftarrow> Critical E PING;
     case a of Inl e \<Rightarrow> ret (Inl (EWrap ''critical redis'' e))
     | Inr _ \<Rightarrow> do {
         b \<leftarrow> Cache E PING;
         ret (case b of Inl e \<Rightarrow> Inl (EWrap ''cache redis'' e) | Inr _ \<Rightarrow> Inr ()) } }"

definition only_err :: "rreply result \<Rightarrow> unit result" where
  "only_err x = (case x of Inl e \<Rightarrow> Inl e | Inr _ \<Rightarrow> Inr ())"

text \<open>\<open>Get(...).Bytes()\<close> with \<open>redis.Nil\<close> turned into \<open>nil\<close>.\<close>

definition bytes_or_nil :: "rreply result \<Rightarrow> json option result" where
  "bytes_or_nil x = (case x of Inl e \<Rightarrow> Inl e | Inr (RBulk v) \<Rightarrow> Inr (Some v) | Inr _ \<Rightarrow> Inr None)"

subsection \<open>Signal cache\<close>

definition signalKey :: "string \<Rightarrow> string" where
  "signalKey symbol = ''signal:'' @ symbol @ '':latest''"

definition SetLatestSignal ::
    "('r, 'l, 'd) env \<Rightarrow> string \<Rightarrow> gopayload \<Rightarrow> ('r, 'l, 'd, unit result) io" where
  "SetLatestSignal E symbol payload = (case Marshal (json_text E) payload of
     Inl e \<Rightarrow> ret (Inl e)
   | Inr b \<Rightarrow> do { x \<leftarrow> Critical E (SET (signalKey symbol) b 0); ret (only_err x) })"

definition GetLatestSignal ::
    "('r, 'l, 'd) env \<Rightarrow> string \<Rightarrow> ('r, 'l, 'd, json option result) io" where
  "GetLatestSignal E symbol = do { x \<leftarrow> Critical E (GET (signalKey symbol)); ret (bytes_or_nil x) }"

subsection \<open>Deduplication\<close>

definition dedupKey :: "int \<Rightarrow> string \<Rightarrow> string" where
  "dedupKey ticketID signalType = ''dedup:'' @ FormatInt ticketID @ '':'' @ signalType"

definition SetDedup ::
    "('r, 'l, 'd) env \<Rightarrow> int \<Rightarrow> string \<Rightarrow> int \<Rightarrow> ('r, 'l, 'd, bool result) io" where
  "SetDedup E ticketID signalType ttl = do {
     x \<leftarrow> Critical E (SETNX (dedupKey ticketID signalType) (JInt 1) ttl);
     ret (case x of Inl e \<Rightarrow> Inl e | Inr r \<Rightarrow> Inr (r = RInt 1)) }"

subsection \<open>Queues\<close>

definition QueueKey :: "string \<Rightarrow> string" where
  "QueueKey symbol = ''queue:signal:'' @ symbol"

definition ProcessingKey :: "string \<Rightarrow> string" where
  "ProcessingKey symbol = ''processing:signal:'' @ symbol"

definition DeadLetterKey :: string where
  "DeadLetterKey = ''queue:dead_letter''"

definition EnqueueJob ::
    "('r, 'l, 'd) env \<Rightarrow> string \<Rightarrow> gopayload \<Rightarrow> ('r, 'l, 'd, unit result) io" where
  "EnqueueJob E symbol job = (case Marshal (json_text E) job of
     Inl e \<Rightarrow> ret (Inl e)
   | Inr b \<Rightarrow> do { x \<leftarrow> Critical E (LPUSH (QueueKey symbol) b); ret (only_err x) })"

text \<open>A dequeue from an empty queue blocks for the timeout.\<close>

definition DequeueJob ::
    "('r, 'l, 'd) env \<Rightarrow> string \<Rightarrow> int \<Rightarrow> ('r, 'l, 'd, json option result) io" where
  "DequeueJob E symbol timeout = do {
     x \<leftarrow> Critical E (RPOPLPUSH (QueueKey symbol) (ProcessingKey symbol));
     _ \<leftarrow> (if x = Inr RNil then sleep timeout else ret ());
     ret (bytes_or_nil x) }"

definition AckJob ::
    "('r, 'l, 'd) env \<Rightarrow> string \<Rightarrow> json \<Rightarrow> ('r, 'l, 'd, unit result) io" where
  "AckJob E symbol jobData = do {
     x \<leftarrow> Critical E (LREM (ProcessingKey symbol) jobData); ret (only_err x) }"

text \<open>\<open>pipe.Exec\<close>: both commands are sent; the error is that of the first one that failed.\<close>

definition pipe2 :: "('r, 'l, 'd) env \<Rightarrow> (('r, 'l, 'd) env \<Rightarrow> rcmd \<Rightarrow> ('r, 'l, 'd, rreply result) io)
    \<Rightarrow> rcmd \<Rightarrow> rcmd \<Rightarrow> ('r, 'l, 'd, rreply result) io" where
  "pipe2 E cl a b = do {
     x \<leftarrow> cl E a;
     y \<leftarrow> cl E b;
     ret (case x of Inl e \<Rightarrow> Inl e | Inr r \<Rightarrow> (case y of Inl e \<Rightarrow> Inl e | Inr _ \<Rightarrow> Inr r)) }"

definition NackJob ::
    "('r, 'l, 'd) env \<Rightarrow> string \<Rightarrow> json \<Rightarrow> ('r, 'l, 'd, unit result) io" where
  "NackJob E symbol jobData = do {
     x \<leftarrow> pipe2 E Critical (LREM (ProcessingKey symbol) jobData) (LPUSH (QueueKey symbol) jobData);
     ret (only_err x) }"

definition MoveToDeadLetter ::
    "('r, 'l, 'd) env \<Rightarrow> string \<Rightarrow> json \<Rightarrow> ('r, 'l, 'd, unit result) io" where
  "MoveToDeadLetter E symbol jobData = do {
     x \<leftarrow> pipe2 E Critical (LREM (ProcessingKey symbol) jobData) (LPUSH DeadLetterKey jobData);
     ret (only_err x) }"

definition GetAllProcessingJobs ::
    "('r, 'l, 'd) env \<Rightarrow> string \<Rightarrow> ('r, 'l, 'd, json list result) io" where
  "GetAllProcessingJobs E symbol = do {
     x \<leftarrow> Critical E (LRANGE (ProcessingKey symbol));
     ret (case x of Inl e \<Rightarrow> Inl e | Inr (RList xs) \<Rightarrow> Inr xs | Inr _ \<Rightarrow> Inr []) }"

definition int_reply :: "rreply result \<Rightarrow> int result" where
  "int_reply x = (case x of Inl e \<Rightarrow> Inl e | Inr (RInt n) \<Rightarrow> Inr n | Inr _ \<Rightarrow> Inr 0)"

definition QueueDepth :: "('r, 'l, 'd) env \<Rightarrow> string \<Rightarrow> ('r, 'l, 'd, int result) io" where
  "QueueDepth E symbol = do { x \<leftarrow> Critical E (LLEN (QueueKey symbol)); ret (int_reply x) }"

definition DeadLetterDepth :: "('r, 'l, 'd) env \<Rightarrow> ('r, 'l, 'd, int result) io" where
  "DeadLetterDepth E = do { x \<leftarrow> Critical E (LLEN DeadLetterKey); ret (int_reply x) }"

subsection \<open>Symbol list\<close>

definition symbolCacheKey :: string where
  "symbolCacheKey = ''watched:symbols''"

definition SetSymbolList ::
    "('r, 'l, 'd) env \<Rightarrow> string list \<Rightarrow> int \<Rightarrow> ('r, 'l, 'd, unit result) io" where
  "SetSymbolList E symbols ttl = (case Marshal (json_text E) (Struct (Some (JArr (map JStr symbols)))) of
     Inl e \<Rightarrow> ret (Inl e)
   | Inr b \<Rightarrow> do { x \<leftarrow> Critical E (SET symbolCacheKey b ttl); ret (only_err x) })"

definition GetSymbolList :: "('r, 'l, 'd) env \<Rightarrow> ('r, 'l, 'd, string list result) io" where
  "GetSymbolList E = do {
     x \<leftarrow> Critical E (GET symbolCacheKey);
     ret (case bytes_or_nil x of
       Inl e \<Rightarrow> Inl e
     | Inr None \<Rightarrow> Inr []
     | Inr (Some b) \<Rightarrow> (case dec_slice [] dec_string [] b of
         None \<Rightarrow> Inl (EMsg ''json: cannot unmarshal'') | Some syms \<Rightarrow> Inr syms)) }"

definition InvalidateSymbolCache :: "('r, 'l, 'd) env \<Rightarrow> ('r, 'l, 'd, unit result) io" where
  "InvalidateSymbolCache E = do { x \<leftarrow> Critical E (DEL [symbolCacheKey]); ret (only_err x) }"

definition InvalidateSymbolList :: "('r, 'l, 'd) env \<Rightarrow> ('r, 'l, 'd, unit result) io" where
  "InvalidateSymbolList E = InvalidateSymbolCache E"

subsection \<open>API key cache\<close>

definition apiKeyCacheKey :: "string \<Rightarrow> string" where
  "apiKeyCacheKey keyHash = ''apikey:'' @ keyHash"

definition SetAPIKeyCache ::
    "('r, 'l, 'd) env \<Rightarrow> string \<Rightarrow> gopayload \<Rightarrow> int \<Rightarrow> ('r, 'l, 'd, unit result) io" where
  "SetAPIKeyCache E keyHash data ttl = (case Marshal (json_text E) data of
     Inl e \<Rightarrow> ret (Inl e)
   | Inr b \<Rightarrow> do { x \<leftarrow> Cache E (SET (apiKeyCacheKey keyHash) b ttl); ret (only_err x) })"

definition GetAPIKeyCache ::
    "('r, 'l, 'd) env \<Rightarrow> string \<Rightarrow> ('r, 'l, 'd, json option result) io" where
  "GetAPIKeyCache E keyHash = do { x \<leftarrow> Cache E (GET (apiKeyCacheKey keyHash)); ret (bytes_or_nil x) }"

definition DeleteAPIKeyCache :: "('r, 'l, 'd) env \<Rightarrow> string \<Rightarrow> ('r, 'l, 'd, unit result) io" where
  "DeleteAPIKeyCache E keyHash = do { x \<leftarrow> Cache E (DEL [apiKeyCacheKey keyHash]); ret (only_err x) }"

subsection \<open>Rate limiting\<close>

definition rateLimitKey :: "string \<Rightarrow> string" where
  "rateLimitKey ip = ''ratelimit:authfail:'' @ ip"

definition IncrAuthFailure ::
    "('r, 'l, 'd) env \<Rightarrow> string \<Rightarrow> int \<Rightarrow> ('r, 'l, 'd, int result) io" where
  "IncrAuthFailure E ip window = do {
     x \<leftarrow> pipe2 E Cache (INCR (rateLimitKey ip)) (EXPIRE (rateLimitKey ip) window);
     ret (int_reply x) }"

definition GetAuthFailures :: "('r, 'l, 'd) env \<Rightarrow> string \<Rightarrow> ('r, 'l, 'd, int result) io" where
  "GetAuthFailures E ip = do {
     x \<leftarrow> Cache E (GET (rateLimitKey ip));
     ret (case bytes_or_nil x of
       Inl e \<Rightarrow> Inl e
     | Inr None \<Rightarrow> Inr 0
     | Inr (Some (JInt n)) \<Rightarrow> if in64 n then Inr n else Inl (EMsg ''value out of range'')
     | Inr (Some _) \<Rightarrow> Inl (EMsg ''invalid syntax'')) }"

subsection \<open>JWT blocklist\<close>

definition jwtBlockKey :: "string \<Rightarrow> string" where
  "jwtBlockKey jti = ''jwt:block:'' @ jti"

definition BlockJWT ::
    "('r, 'l, 'd) env \<Rightarrow> string \<Rightarrow> int \<Rightarrow> ('r, 'l, 'd, unit result) io" where
  "BlockJWT E jti ttl = do { x \<leftarrow> Cache E (SET (jwtBlockKey jti) (JInt 1) ttl); ret (only_err x) }"

definition IsJWTBlocked :: "('r, 'l, 'd) env \<Rightarrow> string \<Rightarrow> ('r, 'l, 'd, bool result) io" where
  "IsJWTBlocked E jti = do {
     x \<leftarrow> Cache E (EXISTS (jwtBlockKey jti));
     ret (case int_reply x of Inl e \<Rightarrow> Inl e | Inr n \<Rightarrow> Inr (0 < n)) }"

subsection \<open>Machine binding cache\<close>

definition MachineCacheTTL :: int where
  "MachineCacheTTL = 5 * Minute"

definition machineCacheKey :: "string \<Rightarrow> string \<Rightarrow> string" where
  "machineCacheKey keyID accountNumber = ''machine:'' @ keyID @ '':'' @ accountNumber"

text \<open>The result is the pair \<open>(allowed, found)\<close>.\<close>

definition GetMachineAllowed ::
    "('r, 'l, 'd) env \<Rightarrow> string \<Rightarrow> string \<Rightarrow> ('r, 'l, 'd, (bool \<times> bool) result) io" where
  "GetMachineAllowed E keyID accountNumber = do {
     x \<leftarrow> Cache E (GET (machineCacheKey keyID accountNumber));
     ret (case bytes_or_nil x of
       Inl e \<Rightarrow> Inl e
     | Inr None \<Rightarrow> Inr (False, False)
     | Inr (Some v) \<Rightarrow> Inr (v = JInt 1, True)) }"

definition SetMachineAllowed ::
    "('r, 'l, 'd) env \<Rightarrow> string \<Rightarrow> string \<Rightarrow> bool \<Rightarrow> int \<Rightarrow> ('r, 'l, 'd, unit result) io" where
  "SetMachineAllowed E keyID accountNumber allowed ttl = do {
     x \<leftarrow> Cache E (SET (machineCacheKey keyID accountNumber) (JInt (if allowed then 1 else 0)) ttl);
     ret (only_err x) }"

text \<open>
  The cursor loop of \<open>InvalidateMachineCache\<close>. Whether the cursor ever comes back to 0 is up to
  the server, so the loop is a partial function: \<open>None\<close> if it does not end.
\<close>

partial_function (option) scan_loop ::
    "('r, 'l, 'd) env \<Rightarrow> string \<Rightarrow> nat \<Rightarrow> ('r, 'l, 'd) world
      \<Rightarrow> (unit result \<times> ('r, 'l, 'd) world) option" where
  "scan_loop E pat cursor w = (case run_state (Cache E (SCAN cursor pat)) w of
     (Inl e, w1) \<Rightarrow> Some (Inl e, w1)
   | (Inr r, w1) \<Rightarrow>
       let (next_cursor, keys) = (case r of RScan n ks \<Rightarrow> (n, ks) | _ \<Rightarrow> (0, []));
           w2 = (if keys \<noteq> [] then snd (run_state (Cache E (DEL keys)) w1) else w1)
       in if next_cursor = 0 then Some (Inr (), w2) else scan_loop E pat next_cursor w2)"

definition machinePattern :: "string \<Rightarrow> string" where
  "machinePattern keyID = ''machine:'' @ keyID @ '':*''"

definition InvalidateMachineCache ::
    "('r, 'l, 'd) env \<Rightarrow> string \<Rightarrow> ('r, 'l, 'd) world
      \<Rightarrow> (unit result \<times> ('r, 'l, 'd) world) option" where
  "InvalidateMachineCache E keyID w = scan_loop E (machinePattern keyID) 0 w"

subsection \<open>Frames\<close>

text \<open>Methods on the critical server leave everything else alone, but for a blocking dequeue's time.\<close>

lemma pipe2_Critical_keeps [hoare]:
  "keeps lru (pipe2 E Critical a b)" "keeps pg (pipe2 E Critical a b)"
  "keeps clock (pipe2 E Critical a b)" "keeps spawned (pipe2 E Critical a b)"
  "keeps outbox (pipe2 E Critical a b)" "keeps seed (pipe2 E Critical a b)"
  unfolding pipe2_def by (intro hoare)+

lemma pipe2_Cache_keeps [hoare]:
  "keeps crit (pipe2 E Cache a b)" "keeps pg (pipe2 E Cache a b)"
  "keeps clock (pipe2 E Cache a b)" "keeps spawned (pipe2 E Cache a b)"
  "keeps outbox (pipe2 E Cache a b)" "keeps seed (pipe2 E Cache a b)"
  unfolding pipe2_def by (intro hoare)+

lemmas critical_defs = SetLatestSignal_def GetLatestSignal_def SetDedup_def EnqueueJob_def
  DequeueJob_def AckJob_def NackJob_def MoveToDeadLetter_def GetAllProcessingJobs_def
  QueueDepth_def DeadLetterDepth_def SetSymbolList_def GetSymbolList_def InvalidateSymbolCache_def
  InvalidateSymbolList_def

lemmas lru_defs = SetAPIKeyCache_def GetAPIKeyCache_def DeleteAPIKeyCache_def IncrAuthFailure_def
  GetAuthFailures_def BlockJWT_def IsJWTBlocked_def GetMachineAllowed_def SetMachineAllowed_def

lemma critical_keeps [hoare]:
  "keeps pg (SetLatestSignal E sy p)" "keeps pg (GetLatestSignal E sy)" "keeps pg (SetDedup E i ty d)"
  "keeps pg (EnqueueJob E sy p)" "keeps pg (DequeueJob E sy d)" "keeps pg (AckJob E sy j)"
  "keeps pg (NackJob E sy j)" "keeps pg (MoveToDeadLetter E sy j)"
  "keeps pg (GetAllProcessingJobs E sy)" "keeps pg (DeadLetterDepth E)" "keeps pg (SetSymbolList E ss d)"
  "keeps pg (GetSymbolList E)" "keeps pg (InvalidateSymbolList E)"
  unfolding critical_defs by (intro hoare)+

lemma critical_keeps_lru [hoare]:
  "keeps lru (SetLatestSignal E sy p)" "keeps lru (GetLatestSignal E sy)" "keeps lru (SetDedup E i ty d)"
  "keeps lru (EnqueueJob E sy p)" "keeps lru (DequeueJob E sy d)" "keeps lru (AckJob E sy j)"
  "keeps lru (NackJob E sy j)" "keeps lru (MoveToDeadLetter E sy j)"
  "keeps lru (GetAllProcessingJobs E sy)" "keeps lru (DeadLetterDepth E)" "keeps lru (SetSymbolList E ss d)"
  "keeps lru (GetSymbolList E)" "keeps lru (InvalidateSymbolList E)"
  unfolding critical_defs by (intro hoare)+

lemma critical_keeps_clock [hoare]:
  "keeps clock (SetLatestSignal E sy p)" "keeps clock (GetLatestSignal E sy)"
  "keeps clock (SetDedup E i ty d)" "keeps clock (EnqueueJob E sy p)" "keeps clock (AckJob E sy j)"
  "keeps clock (NackJob E sy j)" "keeps clock (MoveToDeadLetter E sy j)"
  "keeps clock (GetAllProcessingJobs E sy)" "keeps clock (SetSymbolList E ss d)"
  "keeps clock (GetSymbolList E)" "keeps clock (InvalidateSymbolList E)"
  unfolding critical_defs by (intro hoare)+

lemma lru_keeps [hoare]:
  "keeps pg (SetAPIKeyCache E h p d)" "keeps pg (GetAPIKeyCache E h)" "keeps pg (DeleteAPIKeyCache E h)"
  "keeps pg (IncrAuthFailure E ip d)" "keeps pg (GetAuthFailures E ip)" "keeps pg (BlockJWT E i d)"
  "keeps pg (IsJWTBlocked E i)" "keeps pg (GetMachineAllowed E k a)" "keeps pg (SetMachineAllowed E k a b d)"
  unfolding lru_defs by (intro hoare)+

lemma lru_keeps_crit [hoare]:
  "keeps crit (SetAPIKeyCache E h p d)" "keeps crit (GetAPIKeyCache E h)" "keeps crit (DeleteAPIKeyCache E h)"
  "keeps crit (IncrAuthFailure E ip d)" "keeps crit (GetAuthFailures E ip)" "keeps crit (BlockJWT E i d)"
  "keeps crit (IsJWTBlocked E i)" "keeps crit (GetMachineAllowed E k a)" "keeps crit (SetMachineAllowed E k a b d)"
  unfolding lru_defs by (intro hoare)+

lemma lru_keeps_clock [hoare]:
  "keeps clock (SetAPIKeyCache E h p d)" "keeps clock (GetAPIKeyCache E h)" "keeps clock (DeleteAPIKeyCache E h)"
  "keeps clock (IncrAuthFailure E ip d)" "keeps clock (GetAuthFailures E ip)" "keeps clock (BlockJWT E i d)"
  "keeps clock (IsJWTBlocked E i)" "keeps clock (GetMachineAllowed E k a)" "keeps clock (SetMachineAllowed E k a b d)"
  unfolding lru_defs by (intro hoare)+

subsection \<open>Key names\<close>

lemma queue_keys [simp]:
  "QueueKey s \<noteq> ProcessingKey t" "ProcessingKey s \<noteq> QueueKey t" "QueueKey s \<noteq> DeadLetterKey"
  "DeadLetterKey \<noteq> QueueKey s" "ProcessingKey s \<noteq> DeadLetterKey" "DeadLetterKey \<noteq> ProcessingKey s"
  "QueueKey s = QueueKey t \<longleftrightarrow> s = t" "ProcessingKey s = ProcessingKey t \<longleftrightarrow> s = t"
  by (auto simp: QueueKey_def ProcessingKey_def DeadLetterKey_def)

lemma lru_key_names [simp]:
  "apiKeyCacheKey h \<noteq> rateLimitKey ip" "apiKeyCacheKey h \<noteq> jwtBlockKey j" "apiKeyCacheKey h \<noteq> machineCacheKey k a"
  "jwtBlockKey j \<noteq> rateLimitKey ip" "jwtBlockKey j \<noteq> machineCacheKey k a" "rateLimitKey ip \<noteq> machineCacheKey k a"
  "apiKeyCacheKey h = apiKeyCacheKey h' \<longleftrightarrow> h = h'" "jwtBlockKey j = jwtBlockKey j' \<longleftrightarrow> j = j'"
  "rateLimitKey ip = rateLimitKey ip' \<longleftrightarrow> ip = ip'"
  by (auto simp: apiKeyCacheKey_def rateLimitKey_def jwtBlockKey_def machineCacheKey_def)

lemma signalKey_inj [simp]: "signalKey s = signalKey t \<longleftrightarrow> s = t"
  by (simp add: signalKey_def)

lemma signal_key_names [simp]:
  "signalKey s \<noteq> dedupKey i ty" "signalKey s \<noteq> symbolCacheKey" "dedupKey i ty \<noteq> symbolCacheKey"
  by (auto simp: signalKey_def dedupKey_def symbolCacheKey_def)

lemma dedupKey_inj: "dedupKey i ty = dedupKey j ty' \<longleftrightarrow> i = j \<and> ty = ty'"
  using append_sep_inj [OF _ FormatInt_no_colon FormatInt_no_colon, of i ty j ty'] FormatInt_inj
  by (auto simp: dedupKey_def)

subsection \<open>The queue contract\<close>

text \<open>
  What the consumer expects of the queue operations of one symbol: \<open>pend\<close> is the list of waiting
  jobs, the oldest last, \<open>flight\<close> the jobs handed to a worker, \<open>deadq\<close> the dead letters. The
  laws speak of calls that succeed.
\<close>

locale work_queue =
  fixes enq :: "'a \<Rightarrow> ('s, unit result) state"
    and deq :: "('s, 'a option result) state"
    and ack nack bury :: "'a \<Rightarrow> ('s, unit result) state"
    and pend flight deadq :: "'s \<Rightarrow> 'a list"
  assumes enq_law: "run_state (enq x) s = (Inr (), s') \<Longrightarrow>
      pend s' = x # pend s \<and> flight s' = flight s \<and> deadq s' = deadq s"
    and deq_some: "run_state deq s = (Inr (Some x), s') \<Longrightarrow>
      pend s \<noteq> [] \<and> x = last (pend s) \<and> pend s' = butlast (pend s)
        \<and> flight s' = x # flight s \<and> deadq s' = deadq s"
    and deq_none: "run_state deq s = (Inr None, s') \<Longrightarrow>
      pend s = [] \<and> pend s' = [] \<and> flight s' = flight s \<and> deadq s' = deadq s"
    and ack_law: "run_state (ack x) s = (Inr (), s') \<Longrightarrow>
      pend s' = pend s \<and> flight s' = remove1 x (flight s) \<and> deadq s' = deadq s"
    and nack_law: "run_state (nack x) s = (Inr (), s') \<Longrightarrow>
      pend s' = x # pend s \<and> flight s' = remove1 x (flight s) \<and> deadq s' = deadq s"
    and bury_law: "run_state (bury x) s = (Inr (), s') \<Longrightarrow>
      pend s' = pend s \<and> flight s' = remove1 x (flight s) \<and> deadq s' = x # deadq s"
begin

text \<open>All jobs the queue knows of, as a multiset.\<close>

lemma deq_conserves:
  assumes "run_state deq s = (Inr r, s')"
  shows "mset (pend s') + mset (flight s') + mset (deadq s')
    = mset (pend s) + mset (flight s) + mset (deadq s)"
proof (cases r)
  case None
  with assms deq_none show ?thesis by simp
next
  case (Some x)
  from deq_some [OF assms [unfolded Some]]
  have p: "pend s \<noteq> []" "x = last (pend s)" "pend s' = butlast (pend s)" "flight s' = x # flight s"
    "deadq s' = deadq s" by simp_all
  have "mset (pend s) = mset (butlast (pend s) @ [last (pend s)])"
    using p(1) by simp
  then show ?thesis using p by (simp only: mset_append) simp
qed

lemma nack_conserves:
  "run_state (nack x) s = (Inr (), s') \<Longrightarrow> x \<in> set (flight s) \<Longrightarrow>
     mset (pend s') + mset (flight s') + mset (deadq s')
       = mset (pend s) + mset (flight s) + mset (deadq s)"
  by (drule nack_law) simp

lemma bury_conserves:
  "run_state (bury x) s = (Inr (), s') \<Longrightarrow> x \<in> set (flight s) \<Longrightarrow>
     mset (pend s') + mset (flight s') + mset (deadq s')
       = mset (pend s) + mset (flight s) + mset (deadq s)"
  by (drule bury_law) simp

text \<open>The oldest job comes out first, and is in flight until it is acknowledged.\<close>

lemma fifo_step:
  assumes "pend s = q @ [y]" and "run_state deq s = (Inr r, s')"
  shows "r = Some y \<and> pend s' = q \<and> y \<in> set (flight s')"
  using assms deq_none deq_some by (cases r) force+

lemma deq_ack:
  assumes "run_state deq s = (Inr (Some x), s1)" and "run_state (ack x) s1 = (Inr (), s2)"
  shows "pend s2 = butlast (pend s) \<and> flight s2 = flight s \<and> deadq s2 = deadq s"
  using deq_some [OF assms(1)] ack_law [OF assms(2)] by simp

end

context deployment
begin

lemma Critical_step:
  assumes "run_state (Critical E c) w = (Inr x, w')" and "\<not> is_scan c"
  shows "x = fst (redis_step (clock w) c (ac (crit w)))"
    and "rlst (ac (crit w')) = rlst (snd (redis_step (clock w) c (ac (crit w))))"
    and "clock w \<le> t \<Longrightarrow> live t (ac (crit w')) k = live t (snd (redis_step (clock w) c (ac (crit w)))) k"
    and "clock w' = clock w"
  using redis_okD [OF Critical_ok [OF assms(1)] assms(2)] keepsD [OF Critical_keeps(3) assms(1)]
  by auto

lemma queue_of_enqueue:
  "run_state (EnqueueJob E sy (Struct (Some d))) w = (Inr (), w') \<Longrightarrow>
     rlst (ac (crit w')) = (rlst (ac (crit w)))(QueueKey sy := d # rlst (ac (crit w)) (QueueKey sy))"
  by (auto simp: EnqueueJob_def only_err_def split: prod.splits sum.splits dest: Critical_step(2))

lemma queue_of_dequeue_some:
  assumes "run_state (DequeueJob E sy tm) w = (Inr (Some x), w')"
  shows "rlst (ac (crit w)) (QueueKey sy) \<noteq> [] \<and> x = last (rlst (ac (crit w)) (QueueKey sy)) \<and>
    rlst (ac (crit w')) = (rlst (ac (crit w)))
      (QueueKey sy := butlast (rlst (ac (crit w)) (QueueKey sy)),
       ProcessingKey sy := x # rlst (ac (crit w)) (ProcessingKey sy))"
proof -
  obtain r where c: "run_state (Critical E (RPOPLPUSH (QueueKey sy) (ProcessingKey sy))) w = (Inr r, w')"
    and r: "r = RBulk x"
    using assms by (auto simp: DequeueJob_def bytes_or_nil_def split: prod.splits sum.splits rreply.splits if_splits)
  from Critical_step(1,2) [OF c] show ?thesis
    by (auto simp: r Let_def split: if_splits)
qed

lemma queue_of_dequeue_none:
  assumes "run_state (DequeueJob E sy tm) w = (Inr None, w')"
  shows "rlst (ac (crit w)) (QueueKey sy) = [] \<and> rlst (ac (crit w')) = rlst (ac (crit w))"
proof -
  obtain r w1 where c: "run_state (Critical E (RPOPLPUSH (QueueKey sy) (ProcessingKey sy))) w = (Inr r, w1)"
    and r: "r \<noteq> RBulk x" and w1: "crit w' = crit w1" for x
    using assms by (auto simp: DequeueJob_def bytes_or_nil_def split: prod.splits sum.splits rreply.splits if_splits)
  from Critical_step(1,2) [OF c] r w1 show ?thesis
    by (auto simp: Let_def split: if_splits)
qed

lemma queue_of_ack:
  "run_state (AckJob E sy d) w = (Inr (), w') \<Longrightarrow>
     rlst (ac (crit w')) = (rlst (ac (crit w)))
       (ProcessingKey sy := remove1 d (rlst (ac (crit w)) (ProcessingKey sy)))"
  by (auto simp: AckJob_def only_err_def split: prod.splits sum.splits dest: Critical_step(2))

lemma pipe2_ok:
  assumes "run_state (pipe2 E Critical (LREM k x) (LPUSH l y)) w = (Inr r, w')" and "k \<noteq> l"
  shows "rlst (ac (crit w')) = (rlst (ac (crit w)))
    (k := remove1 x (rlst (ac (crit w)) k), l := y # rlst (ac (crit w)) l)"
proof -
  obtain p q w1 where c: "run_state (Critical E (LREM k x)) w = (Inr p, w1)"
    "run_state (Critical E (LPUSH l y)) w1 = (Inr q, w')"
    using assms(1) by (auto simp: pipe2_def split: prod.splits sum.splits)
  from Critical_step(2) [OF c(1)] Critical_step(2) [OF c(2)] assms(2) show ?thesis
    by simp
qed

lemma queue_of_nack:
  "run_state (NackJob E sy d) w = (Inr (), w') \<Longrightarrow>
     rlst (ac (crit w')) = (rlst (ac (crit w)))
       (ProcessingKey sy := remove1 d (rlst (ac (crit w)) (ProcessingKey sy)),
        QueueKey sy := d # rlst (ac (crit w)) (QueueKey sy))"
  by (auto simp: NackJob_def only_err_def split: prod.splits sum.splits dest!: pipe2_ok)

lemma queue_of_bury:
  "run_state (MoveToDeadLetter E sy d) w = (Inr (), w') \<Longrightarrow>
     rlst (ac (crit w')) = (rlst (ac (crit w)))
       (ProcessingKey sy := remove1 d (rlst (ac (crit w)) (ProcessingKey sy)),
        DeadLetterKey := d # rlst (ac (crit w)) DeadLetterKey)"
  by (auto simp: MoveToDeadLetter_def only_err_def split: prod.splits sum.splits dest!: pipe2_ok)

end

text \<open>The methods of \<open>cache.Client\<close> satisfy the contract, for every symbol and timeout.\<close>

sublocale deployment \<subseteq> queue: work_queue
  "\<lambda>d. EnqueueJob E sy (Struct (Some d))" "DequeueJob E sy tm" "AckJob E sy" "NackJob E sy"
  "MoveToDeadLetter E sy" "\<lambda>w. rlst (ac (crit w)) (QueueKey sy)"
  "\<lambda>w. rlst (ac (crit w)) (ProcessingKey sy)" "\<lambda>w. rlst (ac (crit w)) DeadLetterKey"
  for sy :: string and tm :: int
  by unfold_locales
     (auto dest!: queue_of_enqueue queue_of_dequeue_some queue_of_dequeue_none queue_of_ack
        queue_of_nack queue_of_bury)

end
