(* ===== verification/Store.thy ===== *)
theory Store
  imports World
begin

text \<open>
  \<open>internal/store/store.go\<close>: the methods of \<open>store.Store\<close>, each the SQL statement it sends and
  what it makes of the answer. The lemmas say what a successful call did to the tables, that
  a machine limit is kept by calls that do not overlap, and that a migration runs once.
\<close>

subsection \<open>API keys\<close>

definition APIKeyActive :: string where "APIKeyActive = ''active''"
definition APIKeyRevoked :: string where "APIKeyRevoked = ''revoked''"
definition APIKeySuspended :: string where "APIKeySuspended = ''suspended''"

record APIKey =
  ID :: uuid
  KeyHash :: string
  Owner :: string
  Scopes :: "string list"
  Status :: string
  MaxMachines :: "int option"
  SuccessorKeyID :: "uuid option"
  RotateAt :: "int option"
  Note :: string
  CreatedAt :: int
  LastUsedAt :: "int option"

definition scopesToArray :: "string list \<Rightarrow> string" where
  "scopesToArray scopes = (if scopes = [] then ''{}'' else ''{'' @ Join scopes '','' @ ''}'')"

definition parsePostgresArray :: "string \<Rightarrow> string list" where
  "parsePostgresArray s0 = (let s = Trim s0 ''{}'' in
     if s = [] then [] else filter (\<lambda>p. p \<noteq> []) (map TrimSpace (Split s CHR '','')))"

definition scan_key_row :: "key_row \<Rightarrow> APIKey" where
  "scan_key_row r = \<lparr>ID = kr_id r, KeyHash = kr_hash r, Owner = kr_owner r,
     Scopes = parsePostgresArray (kr_scopes r), Status = kr_status r, MaxMachines = kr_max r,
     SuccessorKeyID = kr_successor r, RotateAt = kr_rotate_at r, Note = kr_note r,
     CreatedAt = kr_created r, LastUsedAt = kr_last_used r\<rparr>"

text \<open>A reply of another kind than the statement has cannot happen; a driver reports it as an error.\<close>

definition unexpected :: "'a result" where
  "unexpected = Inl (EMsg ''sql: unexpected reply'')"

definition exec_result :: "pgreply result \<Rightarrow> unit result" where
  "exec_result x = (case x of Inl e \<Rightarrow> Inl e | Inr _ \<Rightarrow> Inr ())"

definition rows_affected :: "pgreply \<Rightarrow> nat" where
  "rows_affected x = (case x of PDone n \<Rightarrow> n | _ \<Rightarrow> 0)"

text \<open>\<open>scanAPIKey\<close> on \<open>QueryRow\<close>: \<open>sql.ErrNoRows\<close> becomes a nil key.\<close>

definition scanAPIKey :: "pgreply result \<Rightarrow> APIKey option result" where
  "scanAPIKey x = (case x of
     Inl e \<Rightarrow> Inl e
   | Inr (PKeys []) \<Rightarrow> Inr None
   | Inr (PKeys (r # _)) \<Rightarrow> Inr (Some (scan_key_row r))
   | Inr _ \<Rightarrow> unexpected)"

definition GetAPIKeyByHash ::
    "('r, 'l, 'd) env \<Rightarrow> string \<Rightarrow> ('r, 'l, 'd, APIKey option result) io" where
  "GetAPIKeyByHash E keyHash = do { x \<leftarrow> DB E (Auto (KeyByHash keyHash)); ret (scanAPIKey x) }"

definition GetAPIKeyByID ::
    "('r, 'l, 'd) env \<Rightarrow> uuid \<Rightarrow> ('r, 'l, 'd, APIKey option result) io" where
  "GetAPIKeyByID E i = do { x \<leftarrow> DB E (Auto (KeyById i)); ret (scanAPIKey x) }"

definition CreateAPIKey :: "('r, 'l, 'd) env \<Rightarrow> string \<Rightarrow> string \<Rightarrow> string \<Rightarrow> string list
    \<Rightarrow> int option \<Rightarrow> ('r, 'l, 'd, APIKey option result) io" where
  "CreateAPIKey E keyHash owner note scopes maxMachines = do {
     i \<leftarrow> uuid_New E;
     x \<leftarrow> DB E (Auto (InsertKey i keyHash owner (scopesToArray scopes) note maxMachines));
     case x of Inl e \<Rightarrow> ret (Inl (EWrap ''create api key'' e)) | Inr _ \<Rightarrow> GetAPIKeyByID E i }"

definition ListAPIKeys :: "('r, 'l, 'd) env \<Rightarrow> ('r, 'l, 'd, APIKey list result) io" where
  "ListAPIKeys E = do {
     x \<leftarrow> DB E (Auto ListKeys);
     ret (case x of Inl e \<Rightarrow> Inl e | Inr (PKeys rs) \<Rightarrow> Inr (map scan_key_row rs) | Inr _ \<Rightarrow> unexpected) }"

definition SetAPIKeyStatus ::
    "('r, 'l, 'd) env \<Rightarrow> uuid \<Rightarrow> string \<Rightarrow> ('r, 'l, 'd, unit result) io" where
  "SetAPIKeyStatus E i st = do { x \<leftarrow> DB E (Auto (UpdateKeyStatus st i)); ret (exec_result x) }"

definition SetAPIKeyMaxMachines ::
    "('r, 'l, 'd) env \<Rightarrow> uuid \<Rightarrow> int option \<Rightarrow> ('r, 'l, 'd, unit result) io" where
  "SetAPIKeyMaxMachines E i mx = do { x \<leftarrow> DB E (Auto (UpdateKeyMax mx i)); ret (exec_result x) }"

definition TouchAPIKeyLastUsed :: "('r, 'l, 'd) env \<Rightarrow> uuid \<Rightarrow> ('r, 'l, 'd, unit) io" where
  "TouchAPIKeyLastUsed E i = do { _ \<leftarrow> DB E (Auto (TouchKey i)); ret () }"

text \<open>The transaction of \<open>RotateAPIKey\<close> is one command: its two statements, then the commit.\<close>

definition RotateAPIKey :: "('r, 'l, 'd) env \<Rightarrow> uuid \<Rightarrow> string \<Rightarrow> string \<Rightarrow> string \<Rightarrow> string list
    \<Rightarrow> int option \<Rightarrow> int \<Rightarrow> ('r, 'l, 'd, APIKey option result) io" where
  "RotateAPIKey E oldID newKeyHash owner note scopes maxMachines rotateAt = do {
     newID \<leftarrow> uuid_New E;
     x \<leftarrow> DB E (Tx [InsertKey newID newKeyHash owner (scopesToArray scopes) note maxMachines,
                    LinkSuccessor newID rotateAt oldID]);
     case x of
       Inl e \<Rightarrow> ret (Inl e)
     | Inr (PTxErr n m) \<Rightarrow>
         ret (Inl (EWrap (if n = 0 then ''create successor'' else ''link successor'') (ESvc m)))
     | Inr _ \<Rightarrow> GetAPIKeyByID E newID }"

subsection \<open>Machine binding\<close>

type_synonym KeyMachine = machine_row

text \<open>The text of a driver error contains a word (\<open>strings.Contains(err.Error(), w)\<close>).\<close>

definition mentions :: "goerr \<Rightarrow> string \<Rightarrow> bool" where
  "mentions e p = (case e of ESvc m \<Rightarrow> Contains m p | EMsg m \<Rightarrow> Contains m p | _ \<Rightarrow> False)"

definition count_or_zero :: "pgreply result \<Rightarrow> int" where
  "count_or_zero x = (case x of Inr (PCount n) \<Rightarrow> n | _ \<Rightarrow> 0)"

definition InsertNewMachine ::
    "('r, 'l, 'd) env \<Rightarrow> uuid \<Rightarrow> string \<Rightarrow> ('r, 'l, 'd, bool result) io" where
  "InsertNewMachine E keyID accountNumber = do {
     i \<leftarrow> uuid_New E;
     x \<leftarrow> DB E (Auto (InsertMachine i keyID accountNumber));
     ret (case x of
       Inl e \<Rightarrow> if mentions e ''unique'' \<or> mentions e ''duplicate'' then Inr False
               else Inl (EWrap ''register machine'' e)
     | Inr _ \<Rightarrow> Inr True) }"

definition RegisterMachine ::
    "('r, 'l, 'd) env \<Rightarrow> uuid \<Rightarrow> string \<Rightarrow> int option \<Rightarrow> ('r, 'l, 'd, bool result) io" where
  "RegisterMachine E keyID accountNumber maxMachines = do {
     x \<leftarrow> DB E (Auto (MachineId keyID accountNumber));
     case x of
       Inl e \<Rightarrow> ret (Inl (EWrap ''check machine'' e))
     | Inr (PIds (existing # _)) \<Rightarrow> do { _ \<leftarrow> spawn (AsyncTouchMachineId existing); ret (Inr False) }
     | Inr _ \<Rightarrow>
         (case maxMachines of
            None \<Rightarrow> InsertNewMachine E keyID accountNumber
          | Some mx \<Rightarrow> do {
              c \<leftarrow> DB E (Auto (CountMachinesOf keyID));
              if count_or_zero c \<ge> mx then ret (Inl EMachineLimit)
              else InsertNewMachine E keyID accountNumber }) }"

definition ListMachines ::
    "('r, 'l, 'd) env \<Rightarrow> uuid option \<Rightarrow> ('r, 'l, 'd, KeyMachine list result) io" where
  "ListMachines E keyID = do {
     x \<leftarrow> DB E (Auto (MachinesOf keyID));
     ret (case x of Inl e \<Rightarrow> Inl e | Inr (PMachines ms) \<Rightarrow> Inr ms | Inr _ \<Rightarrow> unexpected) }"

definition RemoveMachine ::
    "('r, 'l, 'd) env \<Rightarrow> uuid \<Rightarrow> string \<Rightarrow> ('r, 'l, 'd, unit result) io" where
  "RemoveMachine E keyID accountNumber = do {
     x \<leftarrow> DB E (Auto (DeleteMachine keyID accountNumber));
     ret (case x of Inl e \<Rightarrow> Inl e
       | Inr r \<Rightarrow> if rows_affected r = 0 then Inl (EMsg ''machine not found'') else Inr ()) }"

definition CountMachines :: "('r, 'l, 'd) env \<Rightarrow> uuid \<Rightarrow> ('r, 'l, 'd, int result) io" where
  "CountMachines E keyID = do {
     x \<leftarrow> DB E (Auto (CountMachinesOf keyID));
     ret (case x of Inl e \<Rightarrow> Inl e | Inr (PCount n) \<Rightarrow> Inr n | Inr _ \<Rightarrow> unexpected) }"

definition IsMachineRegistered ::
    "('r, 'l, 'd) env \<Rightarrow> uuid \<Rightarrow> string \<Rightarrow> ('r, 'l, 'd, bool result) io" where
  "IsMachineRegistered E keyID accountNumber = do {
     x \<leftarrow> DB E (Auto (MachineId keyID accountNumber));
     ret (case x of Inl e \<Rightarrow> Inl e | Inr (PIds is) \<Rightarrow> Inr (is \<noteq> []) | Inr _ \<Rightarrow> unexpected) }"

definition GetMaxMachines ::
    "('r, 'l, 'd) env \<Rightarrow> uuid \<Rightarrow> ('r, 'l, 'd, int option result) io" where
  "GetMaxMachines E keyID = do {
     x \<leftarrow> DB E (Auto (MaxMachinesOf keyID));
     ret (case x of
       Inl e \<Rightarrow> Inl e
     | Inr (PMax []) \<Rightarrow> Inr None
     | Inr (PMax (m # _)) \<Rightarrow> Inr m
     | Inr _ \<Rightarrow> unexpected) }"

definition TouchMachineLastSeen ::
    "('r, 'l, 'd) env \<Rightarrow> uuid \<Rightarrow> string \<Rightarrow> ('r, 'l, 'd, unit) io" where
  "TouchMachineLastSeen E keyID accountNumber = do {
     _ \<leftarrow> DB E (Auto (TouchMachine keyID accountNumber)); ret () }"

subsection \<open>Watched symbols\<close>

type_synonym WatchedSymbol = symbol_row

definition defaultSymbols :: "string list" where
  "defaultSymbols = [''EURUSD'', ''GBPUSD'', ''USDJPY'', ''XAUUSD'', ''USDCHF'', ''AUDUSD'',
     ''USDCAD'', ''NZDUSD'', ''GBPJPY'', ''EURJPY'', ''XAGUSD'', ''BTCUSD'']"

definition ListActiveSymbols :: "('r, 'l, 'd) env \<Rightarrow> ('r, 'l, 'd, string list result) io" where
  "ListActiveSymbols E = do {
     x \<leftarrow> DB E (Auto ActiveSymbols);
     ret (case x of
       Inl e \<Rightarrow> Inl e
     | Inr (PSymbols rs) \<Rightarrow> Inr (let syms = map yr_symbol rs in if syms = [] then defaultSymbols else syms)
     | Inr _ \<Rightarrow> unexpected) }"

definition ListAllSymbols :: "('r, 'l, 'd) env \<Rightarrow> ('r, 'l, 'd, WatchedSymbol list result) io" where
  "ListAllSymbols E = do {
     x \<leftarrow> DB E (Auto AllSymbols);
     ret (case x of Inl e \<Rightarrow> Inl e | Inr (PSymbols rs) \<Rightarrow> Inr rs | Inr _ \<Rightarrow> unexpected) }"

definition AddSymbol :: "('r, 'l, 'd) env \<Rightarrow> string \<Rightarrow> ('r, 'l, 'd, unit result) io" where
  "AddSymbol E symbol = do {
     i \<leftarrow> uuid_New E;
     x \<leftarrow> DB E (Auto (UpsertSymbol i (ToUpper (TrimSpace symbol))));
     ret (exec_result x) }"

definition symbol_found :: "string \<Rightarrow> pgreply result \<Rightarrow> unit result" where
  "symbol_found symbol x = (case x of Inl e \<Rightarrow> Inl e
     | Inr r \<Rightarrow> if rows_affected r = 0 then Inl (EMsg (''symbol not found: '' @ symbol)) else Inr ())"

definition SetSymbolActive ::
    "('r, 'l, 'd) env \<Rightarrow> string \<Rightarrow> bool \<Rightarrow> ('r, 'l, 'd, unit result) io" where
  "SetSymbolActive E symbol active = do {
     x \<leftarrow> DB E (Auto (UpdateSymbolActive active symbol)); ret (symbol_found symbol x) }"

definition DeleteSymbol :: "('r, 'l, 'd) env \<Rightarrow> string \<Rightarrow> ('r, 'l, 'd, unit result) io" where
  "DeleteSymbol E symbol = do {
     x \<leftarrow> DB E (Auto (DeleteSymbolRow symbol)); ret (symbol_found symbol x) }"

subsection \<open>Signals\<close>

record StoreSignal =
  st_TicketID :: int
  st_SignalType :: string
  st_Symbol :: string
  st_Direction :: string
  st_Price :: rat
  st_SL :: "rat option"
  st_TP :: "rat option"
  st_Lot :: rat
  st_SourceKeyID :: "uuid option"

text \<open>The id is returned with the error, as in the code.\<close>

definition InsertSignal ::
    "('r, 'l, 'd) env \<Rightarrow> StoreSignal \<Rightarrow> ('r, 'l, 'd, uuid \<times> unit result) io" where
  "InsertSignal E sg = do {
     i \<leftarrow> uuid_New E;
     x \<leftarrow> DB E (Auto (InsertSignalRow i (st_TicketID sg) (st_SignalType sg) (st_Symbol sg)
            (st_Direction sg) (st_Price sg) (st_SL sg) (st_TP sg) (st_Lot sg) (st_SourceKeyID sg)));
     ret (i, exec_result x) }"

definition ListSignals ::
    "('r, 'l, 'd) env \<Rightarrow> int \<Rightarrow> int \<Rightarrow> ('r, 'l, 'd, signal_row list result) io" where
  "ListSignals E lmt offset = do {
     x \<leftarrow> DB E (Auto (SignalsPage lmt offset));
     ret (case x of Inl e \<Rightarrow> Inl e | Inr (PSignals rs) \<Rightarrow> Inr rs | Inr _ \<Rightarrow> unexpected) }"

subsection \<open>Subscribers\<close>

text \<open>
  \<open>Config\<close> is a \<open>map[string]any\<close>: an object with distinct sorted keys and JSON values, as
  \<open>Unmarshal\<close> into \<open>any\<close> builds them (\<open>any_value\<close>: numbers become \<open>float64\<close>, of two members
  with one name the last counts). A nil map is \<open>None\<close>.
\<close>

definition canonical :: "(string \<times> 'a) list \<Rightarrow> (string \<times> 'a) list" where
  "canonical obj = map (\<lambda>k. (k, the (map_of (rev obj) k))) (sort (remdups (map fst obj)))"

fun any_value :: "json \<Rightarrow> json" where
  "any_value (JInt i) = json_float (of_int (float_of_int i))"
| "any_value (JNum q) = json_float q"
| "any_value (JArr vs) = JArr (map any_value vs)"
| "any_value (JObj obj) = JObj (canonical (map (\<lambda>(k, v). (k, any_value v)) obj))"
| "any_value v = v"

type_synonym config_map = "(string \<times> json) list option"

fun dec_config :: "config_map decoder" where
  "dec_config old (JObj obj) =
     Some (Some (canonical ((case old of None \<Rightarrow> [] | Some m \<Rightarrow> m) @ map (\<lambda>(k, v). (k, any_value v)) obj)))"
| "dec_config old JNull = Some None"
| "dec_config old _ = None"

definition enc_config :: "config_map \<Rightarrow> json" where
  "enc_config m = (case m of None \<Rightarrow> JNull | Some obj \<Rightarrow> JObj obj)"

definition config_get :: "config_map \<Rightarrow> string \<Rightarrow> json option" where
  "config_get m k = (case m of None \<Rightarrow> None | Some obj \<Rightarrow> map_of obj k)"

text \<open>\<open>s, _ := m[k].(string)\<close>\<close>

definition config_string :: "config_map \<Rightarrow> string \<Rightarrow> string" where
  "config_string m k = (case config_get m k of Some (JStr s) \<Rightarrow> s | _ \<Rightarrow> [])"

record Subscriber =
  sub_ID :: uuid
  sub_KeyID :: uuid
  Channel :: string
  Config :: config_map
  Active :: bool
  sub_CreatedAt :: int

definition scan_sub_row :: "sub_row \<Rightarrow> Subscriber" where
  "scan_sub_row r = \<lparr>sub_ID = br_id r, sub_KeyID = br_key r, Channel = br_channel r,
     Config = (case dec_config None (br_config r) of None \<Rightarrow> None | Some m \<Rightarrow> m),
     Active = br_active r, sub_CreatedAt = br_created r\<rparr>"

definition scanSubscriber :: "pgreply result \<Rightarrow> Subscriber option result" where
  "scanSubscriber x = (case x of
     Inl e \<Rightarrow> Inl e
   | Inr (PSubs []) \<Rightarrow> Inr None
   | Inr (PSubs (r # _)) \<Rightarrow> Inr (Some (scan_sub_row r))
   | Inr _ \<Rightarrow> unexpected)"

definition collectSubscribers :: "pgreply result \<Rightarrow> Subscriber list result" where
  "collectSubscribers x = (case x of Inl e \<Rightarrow> Inl e | Inr (PSubs rs) \<Rightarrow> Inr (map scan_sub_row rs)
     | Inr _ \<Rightarrow> unexpected)"

definition GetSubscriberByID ::
    "('r, 'l, 'd) env \<Rightarrow> uuid \<Rightarrow> ('r, 'l, 'd, Subscriber option result) io" where
  "GetSubscriberByID E i = do { x \<leftarrow> DB E (Auto (SubById i)); ret (scanSubscriber x) }"

definition CreateSubscriber :: "('r, 'l, 'd) env \<Rightarrow> uuid \<Rightarrow> string \<Rightarrow> config_map
    \<Rightarrow> ('r, 'l, 'd, Subscriber option result) io" where
  "CreateSubscriber E keyID channel config = do {
     i \<leftarrow> uuid_New E;
     x \<leftarrow> DB E (Auto (InsertSub i keyID channel (enc_config config)));
     case x of Inl e \<Rightarrow> ret (Inl e) | Inr _ \<Rightarrow> GetSubscriberByID E i }"

definition ListActiveSubscribers ::
    "('r, 'l, 'd) env \<Rightarrow> ('r, 'l, 'd, Subscriber list result) io" where
  "ListActiveSubscribers E = do { x \<leftarrow> DB E (Auto ActiveSubs); ret (collectSubscribers x) }"

definition ListAllSubscribers ::
    "('r, 'l, 'd) env \<Rightarrow> ('r, 'l, 'd, Subscriber list result) io" where
  "ListAllSubscribers E = do { x \<leftarrow> DB E (Auto AllSubs); ret (collectSubscribers x) }"

definition SetSubscriberActive ::
    "('r, 'l, 'd) env \<Rightarrow> uuid \<Rightarrow> bool \<Rightarrow> ('r, 'l, 'd, unit result) io" where
  "SetSubscriberActive E i active = do { x \<leftarrow> DB E (Auto (UpdateSubActive active i)); ret (exec_result x) }"

subsection \<open>Delivery log\<close>

definition InsertDeliveryLog :: "('r, 'l, 'd) env \<Rightarrow> uuid \<Rightarrow> uuid \<Rightarrow> string
    \<Rightarrow> ('r, 'l, 'd, uuid \<times> unit result) io" where
  "InsertDeliveryLog E signalID subscriberID channel = do {
     i \<leftarrow> uuid_New E;
     x \<leftarrow> DB E (Auto (InsertLog i signalID subscriberID channel));
     ret (i, exec_result x) }"

definition MarkDelivered :: "('r, 'l, 'd) env \<Rightarrow> uuid \<Rightarrow> ('r, 'l, 'd, unit result) io" where
  "MarkDelivered E logID = do { x \<leftarrow> DB E (Auto (UpdateDelivered logID)); ret (exec_result x) }"

definition MarkFailed :: "('r, 'l, 'd) env \<Rightarrow> uuid \<Rightarrow> goerr \<Rightarrow> ('r, 'l, 'd, unit result) io" where
  "MarkFailed E logID err = do { x \<leftarrow> DB E (Auto (UpdateFailed err logID)); ret (exec_result x) }"

definition MarkDead :: "('r, 'l, 'd) env \<Rightarrow> uuid \<Rightarrow> goerr \<Rightarrow> ('r, 'l, 'd, unit result) io" where
  "MarkDead E logID err = do { x \<leftarrow> DB E (Auto (UpdateDead err logID)); ret (exec_result x) }"

definition InsertDeadLetter :: "('r, 'l, 'd) env \<Rightarrow> json \<Rightarrow> uuid option \<Rightarrow> goerr
    \<Rightarrow> ('r, 'l, 'd, unit result) io" where
  "InsertDeadLetter E jobPayload signalID reason = do {
     i \<leftarrow> uuid_New E;
     x \<leftarrow> DB E (Auto (InsertDead i jobPayload signalID reason));
     ret (exec_result x) }"

subsection \<open>Metrics\<close>

record Metrics =
  TotalSignals :: int
  DeliveredCount :: int
  FailedCount :: int
  DeadCount :: int
  ActiveSubscribers :: int
  TotalAPIKeys :: int
  ActiveAPIKeys :: int

text \<open>Each count that fails is left at 0; the error is always nil.\<close>

definition GetMetrics :: "('r, 'l, 'd) env \<Rightarrow> ('r, 'l, 'd, Metrics result) io" where
  "GetMetrics E = do {
     a \<leftarrow> DB E (Auto CountSignals);
     b \<leftarrow> DB E (Auto (CountLog ''delivered''));
     c \<leftarrow> DB E (Auto (CountLog ''failed''));
     d \<leftarrow> DB E (Auto (CountLog ''dead''));
     e \<leftarrow> DB E (Auto CountActiveSubs);
     f \<leftarrow> DB E (Auto CountKeys);
     g \<leftarrow> DB E (Auto CountActiveKeys);
     ret (Inr \<lparr>TotalSignals = count_or_zero a, DeliveredCount = count_or_zero b,
       FailedCount = count_or_zero c, DeadCount = count_or_zero d,
       ActiveSubscribers = count_or_zero e, TotalAPIKeys = count_or_zero f,
       ActiveAPIKeys = count_or_zero g\<rparr>) }"

subsection \<open>Migrations\<close>

text \<open>A directory: \<open>os.ReadDir\<close> lists the entries in order of name, \<open>os.ReadFile\<close> reads one.\<close>

record dir_entry =
  de_name :: string
  de_is_dir :: bool
  de_content :: "string + string"

fun migrate_entries :: "('r, 'l, 'd) env \<Rightarrow> dir_entry list \<Rightarrow> ('r, 'l, 'd, unit result) io" where
  "migrate_entries E [] = ret (Inr ())"
| "migrate_entries E (en # ens) =
     (if de_is_dir en \<or> \<not> HasSuffix (de_name en) ''.sql'' then migrate_entries E ens
      else do {
        c \<leftarrow> DB E (Auto (CountMigration (de_name en)));
        if count_or_zero c > 0 then migrate_entries E ens
        else (case de_content en of
          Inl e \<Rightarrow> ret (Inl (EWrap (''read migration '' @ de_name en) (ESvc e)))
        | Inr sql_text \<Rightarrow> do {
            x \<leftarrow> DB E (Auto (RunScript sql_text));
            case x of
              Inl e \<Rightarrow> ret (Inl (EWrap (''apply migration '' @ de_name en) e))
            | Inr _ \<Rightarrow> do {
                _ \<leftarrow> DB E (Auto (InsertMigration (de_name en)));
                migrate_entries E ens } }) })"

definition Migrate ::
    "('r, 'l, 'd) env \<Rightarrow> string + dir_entry list \<Rightarrow> ('r, 'l, 'd, unit result) io" where
  "Migrate E dir = (case dir of
     Inl e \<Rightarrow> ret (Inl (EWrap ''read migrations dir'' (ESvc e)))
   | Inr entries \<Rightarrow> do {
       x \<leftarrow> DB E (Auto CreateMigrations);
       case x of
         Inl e \<Rightarrow> ret (Inl (EWrap ''create schema_migrations'' e))
       | Inr _ \<Rightarrow> migrate_entries E entries })"

definition StorePing :: "('r, 'l, 'd) env \<Rightarrow> ('r, 'l, 'd, unit result) io" where
  "StorePing E = do { x \<leftarrow> DB E Postgres.Ping; ret (exec_result x) }"

text \<open>\<open>store.New\<close>: the pool is opened (\<open>sql.Open\<close> only checks the DSN) and pinged.\<close>

definition NewStore ::
    "('r, 'l, 'd) env \<Rightarrow> (string \<Rightarrow> string option) \<Rightarrow> string \<Rightarrow> ('r, 'l, 'd, unit result) io" where
  "NewStore E dsn_error dsn = (case dsn_error dsn of
     Some e \<Rightarrow> ret (Inl (EWrap ''open postgres'' (ESvc e)))
   | None \<Rightarrow> do {
       x \<leftarrow> DB E Postgres.Ping;
       ret (case x of Inl e \<Rightarrow> Inl (EWrap ''ping postgres'' e) | Inr _ \<Rightarrow> Inr ()) })"

subsection \<open>Frames\<close>

text \<open>A store method talks to the database only; a query leaves the tables alone.\<close>

lemma keeps_list [hoare]:
  "(x = [] \<Longrightarrow> keeps f m) \<Longrightarrow> (\<And>y ys. x = y # ys \<Longrightarrow> keeps f (g y ys))
    \<Longrightarrow> keeps f (case x of [] \<Rightarrow> m | y # ys \<Rightarrow> g y ys)"
  by (cases x) simp_all

lemma keeps_pgreply [hoare]:
  "(\<And>a. keeps f (g1 a)) \<Longrightarrow> (\<And>a. keeps f (g2 a)) \<Longrightarrow> (\<And>a. keeps f (g3 a)) \<Longrightarrow> (\<And>a. keeps f (g4 a))
    \<Longrightarrow> (\<And>a. keeps f (g5 a)) \<Longrightarrow> (\<And>a. keeps f (g6 a)) \<Longrightarrow> (\<And>a. keeps f (g7 a)) \<Longrightarrow> (\<And>a. keeps f (g8 a))
    \<Longrightarrow> (\<And>a. keeps f (g9 a)) \<Longrightarrow> (\<And>a. keeps f (g10 a)) \<Longrightarrow> (\<And>a b. keeps f (g11 a b))
    \<Longrightarrow> keeps f (case_pgreply g1 g2 g3 g4 g5 g6 g7 g8 g9 g10 g11 x)"
  by (cases x) simp_all

lemmas store_query_defs = GetAPIKeyByHash_def GetAPIKeyByID_def ListAPIKeys_def ListMachines_def
  CountMachines_def IsMachineRegistered_def GetMaxMachines_def ListActiveSymbols_def
  ListAllSymbols_def ListSignals_def GetSubscriberByID_def ListActiveSubscribers_def
  ListAllSubscribers_def GetMetrics_def StorePing_def

lemmas store_update_defs = CreateAPIKey_def SetAPIKeyStatus_def SetAPIKeyMaxMachines_def
  TouchAPIKeyLastUsed_def RotateAPIKey_def InsertNewMachine_def RegisterMachine_def
  RemoveMachine_def TouchMachineLastSeen_def AddSymbol_def SetSymbolActive_def DeleteSymbol_def
  InsertSignal_def CreateSubscriber_def SetSubscriberActive_def InsertDeliveryLog_def
  MarkDelivered_def MarkFailed_def MarkDead_def InsertDeadLetter_def

text \<open>What a projection of the world must not depend on for every store method to keep it.\<close>

definition off_pg :: "(('r, 'l, 'd) world \<Rightarrow> 'v) \<Rightarrow> bool" where
  "off_pg f \<longleftrightarrow> (\<forall>w d n sp. f (w\<lparr>pg := d\<rparr>) = f w \<and> f (w\<lparr>seed := n\<rparr>) = f w \<and> f (w\<lparr>spawned := sp\<rparr>) = f w)"

lemma off_pg_proj [simp]: "off_pg crit" "off_pg lru" "off_pg clock" "off_pg outbox"
  "off_pg (\<lambda>w. h (crit w))" "off_pg (\<lambda>w. h (lru w))"
  by (simp_all add: off_pg_def)

lemma off_pg_prims [hoare]:
  assumes "off_pg f"
  shows "keeps f (DB E c)" "keeps f (uuid_New E)" "keeps f (spawn a)"
  using assms by (simp_all add: keeps_def off_pg_def DB_def split: prod.splits)

lemma store_query_keeps [hoare]:
  assumes [intro]: "off_pg f"
  shows "keeps f (GetAPIKeyByHash E h)" "keeps f (GetAPIKeyByID E i)" "keeps f (ListAPIKeys E)"
    "keeps f (ListMachines E ki)" "keeps f (CountMachines E i)" "keeps f (IsMachineRegistered E i a)"
    "keeps f (GetMaxMachines E i)" "keeps f (ListActiveSymbols E)" "keeps f (ListAllSymbols E)"
    "keeps f (ListSignals E l ofs)" "keeps f (GetSubscriberByID E i)" "keeps f (ListActiveSubscribers E)"
    "keeps f (ListAllSubscribers E)" "keeps f (GetMetrics E)" "keeps f (StorePing E)"
  unfolding store_query_defs by (intro hoare assms)+

lemma store_update_keeps [hoare]:
  assumes "off_pg f"
  shows "keeps f (CreateAPIKey E h ow nt sc mx)" "keeps f (SetAPIKeyStatus E i st)"
    "keeps f (SetAPIKeyMaxMachines E i mx)" "keeps f (TouchAPIKeyLastUsed E i)"
    "keeps f (RotateAPIKey E i h ow nt sc mx at1)" "keeps f (InsertNewMachine E i a)"
    "keeps f (RegisterMachine E i a mx)" "keeps f (RemoveMachine E i a)"
    "keeps f (TouchMachineLastSeen E i a)" "keeps f (Store.AddSymbol E s)"
    "keeps f (SetSymbolActive E s b)" "keeps f (DeleteSymbol E s)" "keeps f (InsertSignal E sg)"
    "keeps f (CreateSubscriber E i ch cfg)" "keeps f (SetSubscriberActive E i b)"
    "keeps f (InsertDeliveryLog E i j ch)" "keeps f (MarkDelivered E i)" "keeps f (MarkFailed E i er)"
    "keeps f (MarkDead E i er)" "keeps f (InsertDeadLetter E jp si er)"
  unfolding store_update_defs by (intro hoare assms store_query_keeps)+

lemma migrate_keeps [hoare]: "off_pg f \<Longrightarrow> keeps f (migrate_entries E ens)"
  by (induction ens) (auto intro!: hoare)

subsection \<open>What the methods return and do\<close>

definition first_key :: "key_row list \<Rightarrow> APIKey option" where
  "first_key rs = (case rs of [] \<Rightarrow> None | r # _ \<Rightarrow> Some (scan_key_row r))"

definition key_by_hash :: "string \<Rightarrow> tables \<Rightarrow> APIKey option" where
  "key_by_hash h t = first_key (filter (\<lambda>r. kr_hash r = h) (api_keys t))"

definition key_by_id :: "uuid \<Rightarrow> tables \<Rightarrow> APIKey option" where
  "key_by_id i t = first_key (filter (\<lambda>r. kr_id r = i) (api_keys t))"

definition machines_of :: "uuid \<Rightarrow> tables \<Rightarrow> machine_row list" where
  "machines_of k t = filter (\<lambda>r. mr_key r = k) (key_machines t)"

definition bound :: "uuid \<Rightarrow> string \<Rightarrow> tables \<Rightarrow> bool" where
  "bound k a t \<longleftrightarrow> (\<exists>r \<in> set (key_machines t). mr_key r = k \<and> mr_account r = a)"

definition active_symbols :: "tables \<Rightarrow> string list" where
  "active_symbols t = map yr_symbol (sort_key yr_symbol (filter yr_active (watched_symbols t)))"

lemma scanAPIKey_keys [simp]: "scanAPIKey (Inr (PKeys rs)) = Inr (first_key rs)"
  "scanAPIKey (Inl e) = Inl e"
  by (cases rs) (simp_all add: scanAPIKey_def first_key_def)

lemma unexpected_neq [simp]: "unexpected \<noteq> Inr x" "Inr x \<noteq> unexpected"
  by (simp_all add: unexpected_def)

text \<open>A statement that is refused changes nothing.\<close>

lemma sql_refused: "sql_step D now c t = (PErr m, t') \<Longrightarrow> t' = t"
  by (cases c)
     (auto simp: unique_violation_def fk_violation_def check_violation_def no_partition_def
        out_of_range_def hits_def split: if_splits option.splits sum.splits)

context deployment
begin

lemma DB_query_keeps [hoare]:
  assumes "\<And>now t. snd (sql_step D now c t) = t"
  shows "keeps (\<lambda>w. ad (pg w)) (DB E (Auto c))"
  unfolding keeps_def using DB_query assms by (metis pg_step.simps(2) prod.collapse)

lemma pure_queries [hoare]:
  "keeps (\<lambda>w. ad (pg w)) (DB E (Auto (KeyByHash h)))" "keeps (\<lambda>w. ad (pg w)) (DB E (Auto (KeyById i)))"
  "keeps (\<lambda>w. ad (pg w)) (DB E (Auto ListKeys))" "keeps (\<lambda>w. ad (pg w)) (DB E (Auto (MachineId i a)))"
  "keeps (\<lambda>w. ad (pg w)) (DB E (Auto (CountMachinesOf i)))"
  "keeps (\<lambda>w. ad (pg w)) (DB E (Auto (MachinesOf ki)))"
  "keeps (\<lambda>w. ad (pg w)) (DB E (Auto (MaxMachinesOf i)))" "keeps (\<lambda>w. ad (pg w)) (DB E (Auto ActiveSymbols))"
  "keeps (\<lambda>w. ad (pg w)) (DB E (Auto AllSymbols))" "keeps (\<lambda>w. ad (pg w)) (DB E (Auto (SignalsPage l ofs)))"
  "keeps (\<lambda>w. ad (pg w)) (DB E (Auto (SubById i)))" "keeps (\<lambda>w. ad (pg w)) (DB E (Auto ActiveSubs))"
  "keeps (\<lambda>w. ad (pg w)) (DB E (Auto AllSubs))" "keeps (\<lambda>w. ad (pg w)) (DB E (Auto CountSignals))"
  "keeps (\<lambda>w. ad (pg w)) (DB E (Auto (CountLog st)))" "keeps (\<lambda>w. ad (pg w)) (DB E (Auto CountActiveSubs))"
  "keeps (\<lambda>w. ad (pg w)) (DB E (Auto CountKeys))" "keeps (\<lambda>w. ad (pg w)) (DB E (Auto CountActiveKeys))"
  by (rule DB_query_keeps; simp)+

lemma DB_ping_keeps [hoare]: "keeps (\<lambda>w. ad (pg w)) (DB E Postgres.Ping)"
  unfolding keeps_def using DB_query by (metis pg_step.simps(1) prod.collapse snd_conv)

lemma pg_frames [hoare]: "keeps (\<lambda>w. ad (pg w)) (uuid_New E)" "keeps (\<lambda>w. ad (pg w)) (spawn a)"
  by (simp_all add: keeps_def)

lemma store_queries_pure [hoare]:
  "keeps (\<lambda>w. ad (pg w)) (GetAPIKeyByHash E h)" "keeps (\<lambda>w. ad (pg w)) (GetAPIKeyByID E i)"
  "keeps (\<lambda>w. ad (pg w)) (ListAPIKeys E)" "keeps (\<lambda>w. ad (pg w)) (ListMachines E ki)"
  "keeps (\<lambda>w. ad (pg w)) (CountMachines E i)" "keeps (\<lambda>w. ad (pg w)) (IsMachineRegistered E i a)"
  "keeps (\<lambda>w. ad (pg w)) (GetMaxMachines E i)" "keeps (\<lambda>w. ad (pg w)) (ListActiveSymbols E)"
  "keeps (\<lambda>w. ad (pg w)) (ListAllSymbols E)" "keeps (\<lambda>w. ad (pg w)) (ListSignals E l ofs)"
  "keeps (\<lambda>w. ad (pg w)) (GetSubscriberByID E i)" "keeps (\<lambda>w. ad (pg w)) (ListActiveSubscribers E)"
  "keeps (\<lambda>w. ad (pg w)) (ListAllSubscribers E)" "keeps (\<lambda>w. ad (pg w)) (GetMetrics E)"
  "keeps (\<lambda>w. ad (pg w)) (StorePing E)"
  unfolding store_query_defs by (intro hoare)+

lemma query_answer:
  assumes "run_state (DB E (Auto c)) w = (Inr x, w')"
  shows "x = fst (sql_step D (clock w) c (ad (pg w)))" and "ad (pg w') = snd (sql_step D (clock w) c (ad (pg w)))"
  using DB_ok [OF assms] by simp_all

lemma scan_query:
  assumes "run_state (do { x \<leftarrow> DB E (Auto c); ret (scanAPIKey x) }) w = (Inr k, w')"
    and "fst (sql_step D (clock w) c (ad (pg w))) = PKeys rs"
  shows "k = first_key rs"
proof -
  obtain x w1 where "run_state (DB E (Auto c)) w = (x, w1)" and x: "scanAPIKey x = Inr k"
    using assms(1) by (auto split: prod.splits)
  with query_answer(1) assms(2) show ?thesis
    by (cases x) fastforce+
qed

lemma GetAPIKeyByHash_value:
  "run_state (GetAPIKeyByHash E h) w = (Inr k, w') \<Longrightarrow> k = key_by_hash h (ad (pg w))"
  unfolding GetAPIKeyByHash_def key_by_hash_def by (erule scan_query) simp

lemma GetAPIKeyByID_value:
  "run_state (GetAPIKeyByID E i) w = (Inr k, w') \<Longrightarrow> k = key_by_id i (ad (pg w))"
  unfolding GetAPIKeyByID_def key_by_id_def by (erule scan_query) simp

text \<open>An update that is reported as done was executed; one that failed may have been.\<close>

lemma update_ok:
  assumes "run_state (DB E (Auto c)) w = (x, w')" and "exec_result x = Inr ()"
  shows "ad (pg w') = snd (sql_step D (clock w) c (ad (pg w)))"
  using assms query_answer(2) by (cases x) (auto simp: exec_result_def)

lemma update_any:
  assumes "run_state (DB E (Auto c)) w = (x, w')"
  shows "ad (pg w') = ad (pg w) \<or> ad (pg w') = snd (sql_step D (clock w) c (ad (pg w)))"
  using DB_any [OF assms] by simp

lemma IsMachineRegistered_value:
  assumes "run_state (IsMachineRegistered E k a) w = (Inr b, w')"
  shows "b \<longleftrightarrow> bound k a (ad (pg w))"
proof -
  obtain x where x: "run_state (DB E (Auto (MachineId k a))) w = (Inr x, w')"
    and b: "b \<longleftrightarrow> x \<noteq> PIds []"
    using assms by (auto simp: IsMachineRegistered_def split: prod.splits sum.splits pgreply.splits)
  from query_answer(1) [OF x] b show ?thesis
    by (auto simp: bound_def filter_empty_conv)
qed

lemma GetMaxMachines_value:
  assumes "run_state (GetMaxMachines E k) w = (Inr m, w')"
  shows "m = (case key_by_id k (ad (pg w)) of None \<Rightarrow> None | Some key \<Rightarrow> MaxMachines key)"
proof -
  obtain x where x: "run_state (DB E (Auto (MaxMachinesOf k))) w = (Inr x, w')"
    and m: "x = PMax [] \<and> m = None \<or> (\<exists>ms. x = PMax (m # ms))"
    using assms by (auto simp: GetMaxMachines_def split: prod.splits sum.splits pgreply.splits list.splits)
  from query_answer(1) [OF x] m show ?thesis
    by (cases "filter (\<lambda>r. kr_id r = k) (api_keys (ad (pg w)))")
       (auto simp: key_by_id_def first_key_def scan_key_row_def)
qed

lemma CountMachines_value:
  assumes "run_state (CountMachines E k) w = (Inr n, w')"
  shows "n = int (length (machines_of k (ad (pg w))))"
proof -
  obtain x where x: "run_state (DB E (Auto (CountMachinesOf k))) w = (Inr x, w')" and n: "x = PCount n"
    using assms by (auto simp: CountMachines_def split: prod.splits sum.splits pgreply.splits)
  from query_answer(1) [OF x] n show ?thesis by (simp add: machines_of_def)
qed

lemma ListActiveSymbols_value:
  assumes "run_state (ListActiveSymbols E) w = (Inr ss, w')"
  shows "ss = (if active_symbols (ad (pg w)) = [] then defaultSymbols else active_symbols (ad (pg w)))"
proof -
  obtain x rs where x: "run_state (DB E (Auto ActiveSymbols)) w = (Inr x, w')" and r: "x = PSymbols rs"
    and ss: "ss = (if map yr_symbol rs = [] then defaultSymbols else map yr_symbol rs)"
    using assms by (auto simp: ListActiveSymbols_def Let_def split: prod.splits sum.splits pgreply.splits)
  from query_answer(1) [OF x] r have "rs = sort_key yr_symbol (filter yr_active (watched_symbols (ad (pg w))))"
    by simp
  then show ?thesis unfolding ss active_symbols_def by simp
qed

end

subsection \<open>The machine limit\<close>

text \<open>
  \<open>RegisterMachine\<close> is a check and then an insert, with nothing that keeps the two together.
  \<open>RegisterCheck\<close> is the part before the insert; \<open>Inl\<close> is its early return.
\<close>

definition RegisterCheck :: "('r, 'l, 'd) env \<Rightarrow> uuid \<Rightarrow> string \<Rightarrow> int option
    \<Rightarrow> ('r, 'l, 'd, bool result + unit) io" where
  "RegisterCheck E keyID accountNumber maxMachines = do {
     x \<leftarrow> DB E (Auto (MachineId keyID accountNumber));
     case x of
       Inl e \<Rightarrow> ret (Inl (Inl (EWrap ''check machine'' e)))
     | Inr (PIds (existing # _)) \<Rightarrow> do { _ \<leftarrow> spawn (AsyncTouchMachineId existing); ret (Inl (Inr False)) }
     | Inr _ \<Rightarrow>
         (case maxMachines of
            None \<Rightarrow> ret (Inr ())
          | Some mx \<Rightarrow> do {
              c \<leftarrow> DB E (Auto (CountMachinesOf keyID));
              ret (if count_or_zero c \<ge> mx then Inl (Inl EMachineLimit) else Inr ()) }) }"

lemma RegisterMachine_phases:
  "RegisterMachine E k a mx = do {
     c \<leftarrow> RegisterCheck E k a mx;
     case c of Inl r \<Rightarrow> ret r | Inr _ \<Rightarrow> InsertNewMachine E k a }"
  unfolding RegisterMachine_def RegisterCheck_def
  by (rule state.expand, rule ext)
     (auto split: prod.splits sum.splits pgreply.splits list.splits option.splits)

definition reliable_db :: "('r, 'l, 'd) env \<Rightarrow> bool" where
  "reliable_db E \<longleftrightarrow> (\<forall>now c s. \<exists>x s'. pg_srv E now c s = (Inr x, s'))"

definition new_machine :: "uuid \<Rightarrow> uuid \<Rightarrow> string \<Rightarrow> int \<Rightarrow> tables \<Rightarrow> tables" where
  "new_machine i k a now t = t\<lparr>key_machines := key_machines t @
     [\<lparr>mr_id = i, mr_key = k, mr_account = a, mr_registered = now, mr_seen = now\<rparr>]\<rparr>"

text \<open>What \<open>RegisterMachine\<close> promises, on the tables.\<close>

definition register_spec :: "uuid \<Rightarrow> uuid \<Rightarrow> string \<Rightarrow> int option \<Rightarrow> int \<Rightarrow> tables \<Rightarrow> bool result \<times> tables" where
  "register_spec i k a mx now t =
     (if bound k a t then (Inr False, t)
      else if (case mx of None \<Rightarrow> False | Some m \<Rightarrow> m \<le> int (length (machines_of k t))) then (Inl EMachineLimit, t)
      else if \<not> has_key k t then
        (Inl (EWrap ''register machine'' (ESvc ''pq: insert or update violates foreign key constraint'')), t)
      else (Inr True, new_machine i k a now t))"

lemma reliable_calm [simp]: "reliable_db calm_env"
  by (simp add: reliable_db_def calm_env_def faultless_def split: prod.splits)

lemma machines_of_new [simp]:
  "length (machines_of k' (new_machine i k a now t)) =
     (if k' = k then Suc (length (machines_of k t)) else length (machines_of k' t))"
  by (simp add: machines_of_def new_machine_def)

lemma bound_new [simp]: "bound k' b (new_machine i k a now t) \<longleftrightarrow> bound k' b t \<or> (k' = k \<and> b = a)"
  by (auto simp: bound_def new_machine_def)

lemma has_key_new [simp]: "has_key k' (new_machine i k a now t) = has_key k' t"
  by (simp add: has_key_def new_machine_def)

lemma mr_ids_new [simp]: "mr_id ` set (key_machines (new_machine i k a now t)) = insert i (mr_id ` set (key_machines t))"
  by (auto simp: new_machine_def)

context deployment
begin

lemma reliable_DB:
  assumes "reliable_db E"
  shows "\<exists>w'. run_state (DB E (Auto c)) w = (pg_result (Inr (fst (sql_step D (clock w) c (ad (pg w))))), w')
    \<and> ad (pg w') = snd (sql_step D (clock w) c (ad (pg w))) \<and> clock w' = clock w \<and> seed w' = seed w"
proof -
  obtain x d where x: "pg_srv E (clock w) (Auto c) (pg w) = (Inr x, d)"
    using assms by (metis reliable_db_def)
  then have "sql_step D (clock w) c (ad (pg w)) = (x, ad d)"
    using pg.pg_answer by fastforce
  with x show ?thesis by (simp add: DB_def)
qed

lemma RegisterCheck_spec:
  assumes "reliable_db E"
  shows "\<exists>w'. run_state (RegisterCheck E k a mx) w =
      ((if bound k a (ad (pg w)) then Inl (Inr False)
        else if (case mx of None \<Rightarrow> False | Some m \<Rightarrow> m \<le> int (length (machines_of k (ad (pg w)))))
        then Inl (Inl EMachineLimit) else Inr ()), w')
    \<and> ad (pg w') = ad (pg w) \<and> clock w' = clock w \<and> seed w' = seed w"
proof -
  obtain w1 where w1: "run_state (DB E (Auto (MachineId k a))) w =
      (Inr (PIds (map mr_id (filter (\<lambda>r. mr_key r = k \<and> mr_account r = a) (key_machines (ad (pg w)))))), w1)"
    "ad (pg w1) = ad (pg w)" "clock w1 = clock w" "seed w1 = seed w"
    using reliable_DB [OF assms, of "MachineId k a" w] by auto
  obtain w2 where w2: "run_state (DB E (Auto (CountMachinesOf k))) w1 =
      (Inr (PCount (int (length (machines_of k (ad (pg w)))))), w2)"
    "ad (pg w2) = ad (pg w)" "clock w2 = clock w" "seed w2 = seed w"
    using reliable_DB [OF assms, of "CountMachinesOf k" w1] w1 by (auto simp: machines_of_def)
  have b: "bound k a (ad (pg w)) \<longleftrightarrow>
      filter (\<lambda>r. mr_key r = k \<and> mr_account r = a) (key_machines (ad (pg w))) \<noteq> []"
    by (auto simp: bound_def filter_empty_conv)
  show ?thesis
    using w1 w2 unfolding RegisterCheck_def b
    by (cases "filter (\<lambda>r. mr_key r = k \<and> mr_account r = a) (key_machines (ad (pg w)))")
       (auto simp: count_or_zero_def split: option.splits)
qed

lemma InsertNewMachine_spec:
  assumes "reliable_db E" and "new_uuid E (seed w) \<notin> mr_id ` set (key_machines (ad (pg w)))"
    and "\<not> bound k a (ad (pg w))"
  shows "\<exists>w'. run_state (InsertNewMachine E k a) w = (if has_key k (ad (pg w)) then Inr True
      else Inl (EWrap ''register machine'' (ESvc ''pq: insert or update violates foreign key constraint'')), w')
    \<and> ad (pg w') = (if has_key k (ad (pg w)) then new_machine (new_uuid E (seed w)) k a (clock w) (ad (pg w))
        else ad (pg w)) \<and> clock w' = clock w \<and> seed w' = Suc (seed w)"
proof -
  define w0 where "w0 = w\<lparr>seed := Suc (seed w)\<rparr>"
  have w0: "pg w0 = pg w" "clock w0 = clock w" "seed w0 = Suc (seed w)" by (simp_all add: w0_def)
  have s: "sql_step D (clock w) (InsertMachine (new_uuid E (seed w)) k a) (ad (pg w)) =
      (if has_key k (ad (pg w)) then (PDone 1, new_machine (new_uuid E (seed w)) k a (clock w) (ad (pg w)))
       else (fk_violation, ad (pg w)))"
    using assms(2,3) by (auto simp: bound_def new_machine_def)
  have f: "\<not> mentions (ESvc ''pq: insert or update violates foreign key constraint'') ''unique''"
    "\<not> mentions (ESvc ''pq: insert or update violates foreign key constraint'') ''duplicate''"
    by (simp_all add: mentions_def)
  show ?thesis
    using reliable_DB [OF assms(1), of "InsertMachine (new_uuid E (seed w)) k a" w0] s f
    unfolding w0 by (auto simp: InsertNewMachine_def fk_violation_def w0_def)
qed

lemma RegisterMachine_spec:
  assumes "reliable_db E" and "new_uuid E (seed w) \<notin> mr_id ` set (key_machines (ad (pg w)))"
    and "run_state (RegisterMachine E k a mx) w = (r, w')"
  shows "(r, ad (pg w')) = register_spec (new_uuid E (seed w)) k a mx (clock w) (ad (pg w))"
    and "clock w' = clock w"
proof -
  obtain c w1 where c: "run_state (RegisterCheck E k a mx) w = (c, w1)"
    and c_def: "c = (if bound k a (ad (pg w)) then Inl (Inr False)
        else if (case mx of None \<Rightarrow> False | Some m \<Rightarrow> m \<le> int (length (machines_of k (ad (pg w)))))
        then Inl (Inl EMachineLimit) else Inr ())"
    and w1: "ad (pg w1) = ad (pg w)" "clock w1 = clock w" "seed w1 = seed w"
    using RegisterCheck_spec [OF assms(1), of k a mx w] by blast
  show "(r, ad (pg w')) = register_spec (new_uuid E (seed w)) k a mx (clock w) (ad (pg w))"
    and "clock w' = clock w"
    using assms(3) InsertNewMachine_spec [OF assms(1), of w1 k a] assms(2) c w1 unfolding RegisterMachine_phases c_def
    by (auto simp: register_spec_def split: if_splits)
qed

end

text \<open>Requests that register machines one after the other.\<close>

fun register_all :: "('r, 'l, 'd) env \<Rightarrow> uuid \<Rightarrow> int option \<Rightarrow> string list \<Rightarrow> ('r, 'l, 'd, unit) io" where
  "register_all E k mx [] = ret ()"
| "register_all E k mx (a # as) = do { _ \<leftarrow> RegisterMachine E k a mx; register_all E k mx as }"

context deployment
begin

text \<open>A call adds at most one machine, and only below the limit that it counted.\<close>

lemma RegisterMachine_limit:
  assumes "reliable_db E" and "run_state (RegisterMachine E k a (Some m)) w = (r, w')"
  shows "ad (pg w') = ad (pg w) \<or>
    (int (length (machines_of k (ad (pg w)))) < m \<and> \<not> bound k a (ad (pg w)) \<and>
     (\<exists>i t. ad (pg w') = new_machine i k a t (ad (pg w))))"
proof -
  obtain c w1 where c: "run_state (RegisterCheck E k a (Some m)) w = (c, w1)"
    and c_def: "c = (if bound k a (ad (pg w)) then Inl (Inr False)
        else if m \<le> int (length (machines_of k (ad (pg w)))) then Inl (Inl EMachineLimit) else Inr ())"
    and w1: "ad (pg w1) = ad (pg w)"
    using RegisterCheck_spec [OF assms(1), of k a "Some m" w] by auto
  show ?thesis
  proof (cases c)
    case (Inl x)
    then show ?thesis using assms(2) c w1 by (simp add: RegisterMachine_phases)
  next
    case (Inr u)
    then have lt: "int (length (machines_of k (ad (pg w)))) < m" "\<not> bound k a (ad (pg w))"
      using c_def by (simp_all split: if_splits)
    define w2 where "w2 = w1\<lparr>seed := Suc (seed w1)\<rparr>"
    obtain x w3 where x: "run_state (DB E (Auto (InsertMachine (new_uuid E (seed w1)) k a))) w2 = (x, w3)"
      by (metis surj_pair)
    then have "w' = w3"
      using assms(2) c Inr by (simp add: RegisterMachine_phases InsertNewMachine_def w2_def)
    moreover have "ad (pg w2) = ad (pg w)" by (simp add: w2_def w1)
    ultimately show ?thesis
      using update_any [OF x] lt
      by (auto simp: new_machine_def unique_violation_def split: if_splits)
  qed
qed

lemma register_all_limit:
  assumes "reliable_db E"
  shows "int (length (machines_of k (ad (pg (exec_state (register_all E k (Some m) as) w)))))
    \<le> max m (int (length (machines_of k (ad (pg w)))))"
proof (induction as arbitrary: w)
  case (Cons a as)
  obtain r w1 where r: "run_state (RegisterMachine E k a (Some m)) w = (r, w1)" by (metis surj_pair)
  have "int (length (machines_of k (ad (pg w1)))) \<le> max m (int (length (machines_of k (ad (pg w)))))"
    using RegisterMachine_limit [OF assms r] by auto
  with Cons.IH [of w1] r show ?case by simp
qed simp

lemma register_race_steps:
  assumes "reliable_db E" and "a \<noteq> b" and "has_key k (ad (pg w))"
    and "\<not> bound k a (ad (pg w))" and "\<not> bound k b (ad (pg w))"
    and "n = int (length (machines_of k (ad (pg w))))"
    and fresh: "new_uuid E (seed w) \<notin> mr_id ` set (key_machines (ad (pg w)))"
      "new_uuid E (Suc (seed w)) \<notin> insert (new_uuid E (seed w)) (mr_id ` set (key_machines (ad (pg w))))"
  shows "\<exists>w1 w2 w3 w4. run_state (RegisterCheck E k a (Some (n + 1))) w = (Inr (), w1)
    \<and> run_state (RegisterCheck E k b (Some (n + 1))) w1 = (Inr (), w2)
    \<and> run_state (InsertNewMachine E k a) w2 = (Inr True, w3)
    \<and> run_state (InsertNewMachine E k b) w3 = (Inr True, w4)
    \<and> int (length (machines_of k (ad (pg w4)))) = n + 2"
proof -
  obtain w1 where w1: "run_state (RegisterCheck E k a (Some (n + 1))) w = (Inr (), w1)"
    "ad (pg w1) = ad (pg w)" "seed w1 = seed w"
    using RegisterCheck_spec [OF assms(1), of k a "Some (n + 1)" w] assms(4,6) by auto
  obtain w2 where w2: "run_state (RegisterCheck E k b (Some (n + 1))) w1 = (Inr (), w2)"
    "ad (pg w2) = ad (pg w)" "seed w2 = seed w"
    using RegisterCheck_spec [OF assms(1), of k b "Some (n + 1)" w1] assms(5,6) w1 by auto
  obtain w3 where w3: "run_state (InsertNewMachine E k a) w2 = (Inr True, w3)"
    "ad (pg w3) = new_machine (new_uuid E (seed w)) k a (clock w2) (ad (pg w))" "seed w3 = Suc (seed w)"
    using InsertNewMachine_spec [OF assms(1), of w2 k a] assms(3,4) fresh(1) w2 by auto
  obtain w4 where w4: "run_state (InsertNewMachine E k b) w3 = (Inr True, w4)"
    "ad (pg w4) = new_machine (new_uuid E (Suc (seed w))) k b (clock w3) (ad (pg w3))"
    using InsertNewMachine_spec [OF assms(1), of w3 k b] assms(2,3,5) fresh(2) w3 by auto
  have "int (length (machines_of k (ad (pg w4)))) = n + 2"
    using assms(6) w3(2) w4(2) by simp
  with w1(1) w2(1) w3(1) w4(1) show ?thesis by blast
qed

end

text \<open>Tables with one API key, for the concrete instances below and in other theories.\<close>

definition demo_key :: "uuid \<Rightarrow> string \<Rightarrow> string \<Rightarrow> int option \<Rightarrow> key_row" where
  "demo_key i h st mx = \<lparr>kr_id = i, kr_hash = h, kr_owner = ''desk'', kr_scopes = ''{copy:receive}'',
     kr_status = st, kr_max = mx, kr_successor = None, kr_rotate_at = None, kr_note = [],
     kr_created = 0, kr_last_used = None\<rparr>"

definition demo_tables :: "string \<Rightarrow> string \<Rightarrow> int option \<Rightarrow> tables" where
  "demo_tables h st mx = empty_tables\<lparr>api_keys := [demo_key 7 h st mx]\<rparr>"

lemma demo_tables_simps [simp]:
  "api_keys (demo_tables h st mx) = [demo_key 7 h st mx]" "key_machines (demo_tables h st mx) = []"
  "has_key k (demo_tables h st mx) \<longleftrightarrow> k = 7" "machines_of k (demo_tables h st mx) = []"
  "bound k a (demo_tables h st mx) = False" "schema_migrations (demo_tables h st mx) = None"
  "watched_symbols (demo_tables h st mx) = []" "signals (demo_tables h st mx) = []"
  by (simp_all add: demo_tables_def demo_key_def empty_tables_def has_key_def machines_of_def bound_def)

text \<open>
  C32: Registrations on one API key that do not overlap never exceed its limit: after any
  sequence of calls of RegisterMachine with the limit m, the key has at most m machines, or as
  many as it had before if that was more (the database answers every call).
\<close>

theorem machine_limit_sequence:
  assumes "deployment E ac al ad D" and "reliable_db E"
    and "run_state (register_all E k (Some m) accounts) w = (u, w')"
  shows "int (length (machines_of k (ad (pg w')))) \<le> max m (int (length (machines_of k (ad (pg w)))))"
  using deployment.register_all_limit [OF assms(1,2), of k m accounts w] assms(3) by simp

theorem machine_limit_sequence_witness:
  "\<exists>u w'. run_state (register_all calm_env 7 (Some 1) [''1001'', ''1002'']) (calm_world (demo_tables ''h'' ''active'' (Some 1)) 0)
     = (u, w') \<and> int (length (machines_of 7 (id (pg w')))) \<le> 1"
proof -
  obtain u w' where r: "run_state (register_all calm_env 7 (Some 1) [''1001'', ''1002''])
      (calm_world (demo_tables ''h'' ''active'' (Some 1)) 0) = (u, w')" by (metis surj_pair)
  from machine_limit_sequence [OF calm_deployment reliable_calm r] r show ?thesis by auto
qed

text \<open>
  C33: Two requests that overlap can exceed the machine limit of a key: when one slot is left and
  both run the check of RegisterMachine before either inserts, both are registered, although
  no call fails.
\<close>

theorem machine_limit_race:
  assumes "deployment E ac al ad D" and "reliable_db E" and "a \<noteq> b" and "has_key k (ad (pg w))"
    and "\<not> bound k a (ad (pg w))" and "\<not> bound k b (ad (pg w))"
    and "n = int (length (machines_of k (ad (pg w))))"
    and "new_uuid E (seed w) \<notin> mr_id ` set (key_machines (ad (pg w)))"
    and "new_uuid E (Suc (seed w)) \<notin> insert (new_uuid E (seed w)) (mr_id ` set (key_machines (ad (pg w))))"
  shows "\<exists>w1 w2 w3 w4. run_state (RegisterCheck E k a (Some (n + 1))) w = (Inr (), w1)
    \<and> run_state (RegisterCheck E k b (Some (n + 1))) w1 = (Inr (), w2)
    \<and> run_state (InsertNewMachine E k a) w2 = (Inr True, w3)
    \<and> run_state (InsertNewMachine E k b) w3 = (Inr True, w4)
    \<and> int (length (machines_of k (ad (pg w4)))) = n + 2"
  using deployment.register_race_steps [OF assms(1-9)] .

theorem machine_limit_race_witness:
  "\<exists>w1 w2 w3 w4. run_state (RegisterCheck calm_env 7 ''1001'' (Some 1)) (calm_world (demo_tables ''h'' ''active'' (Some 1)) 0) = (Inr (), w1)
    \<and> run_state (RegisterCheck calm_env 7 ''1002'' (Some 1)) w1 = (Inr (), w2)
    \<and> run_state (InsertNewMachine calm_env 7 ''1001'') w2 = (Inr True, w3)
    \<and> run_state (InsertNewMachine calm_env 7 ''1002'') w3 = (Inr True, w4)
    \<and> int (length (machines_of 7 (id (pg w4)))) = 2"
  using machine_limit_race [OF calm_deployment reliable_calm, of "''1001''" "''1002''" 7
      "calm_world (demo_tables ''h'' ''active'' (Some 1)) 0" 0]
  by (simp add: calm_env_def)

subsection \<open>Scopes\<close>

text \<open>A scope that survives the array text: not empty, no comma, no brace, no space at the ends.\<close>

definition plain_scope :: "string \<Rightarrow> bool" where
  "plain_scope s \<longleftrightarrow> s \<noteq> [] \<and> TrimSpace s = s \<and> CHR '','' \<notin> set s \<and> CHR ''{'' \<notin> set s \<and> CHR ''}'' \<notin> set s"

lemma Join_set: "c \<in> set (Join ws sep) \<Longrightarrow> (\<exists>w \<in> set ws. c \<in> set w) \<or> c \<in> set sep"
  by (induction ws sep rule: Join.induct) auto

lemma Trim_braces:
  assumes "\<And>c. c \<in> set s \<Longrightarrow> c \<noteq> CHR ''{'' \<and> c \<noteq> CHR ''}''"
  shows "Trim (''{'' @ s @ ''}'') ''{}'' = s"
proof -
  have d: "dropWhile (\<lambda>c. c \<in> set ''{}'') (t @ u) = t @ u"
    if "\<And>c. c \<in> set t \<Longrightarrow> c \<noteq> CHR ''{'' \<and> c \<noteq> CHR ''}''" "t \<noteq> []" for t u :: string
    using that by (cases t) auto
  show ?thesis
  proof (cases "s = []")
    case False
    then have "dropWhile (\<lambda>c. c \<in> set ''{}'') (rev s) = rev s"
      using d [of "rev s" "[]"] assms by simp
    with d [of s "''}''"] assms False show ?thesis by (simp add: Trim_def)
  qed (simp add: Trim_def)
qed

lemma parse_scopes:
  assumes "list_all plain_scope scopes"
  shows "parsePostgresArray (scopesToArray scopes) = scopes"
proof (cases "scopes = []")
  case False
  have p: "plain_scope s" if "s \<in> set scopes" for s using assms that by (simp add: list_all_iff)
  have "Trim (scopesToArray scopes) ''{}'' = Join scopes '',''"
    using False Trim_braces [of "Join scopes '',''"] p Join_set [of _ scopes "'',''"]
    by (fastforce simp: scopesToArray_def plain_scope_def)
  moreover have "Split (Join scopes '','') CHR '','' = scopes"
    using False p by (intro Split_Join) (auto simp: plain_scope_def)
  moreover have "map TrimSpace scopes = scopes" "filter (\<lambda>s. s \<noteq> []) scopes = scopes"
    using p by (auto simp: plain_scope_def intro: map_idI filter_True)
  moreover have "Join scopes '','' \<noteq> []"
    using False p by (cases "(scopes, '','')" rule: Join.cases) (auto simp: plain_scope_def)
  ultimately show ?thesis by (simp add: parsePostgresArray_def)
qed (simp add: scopesToArray_def parsePostgresArray_def Trim_def)

text \<open>
  The scopes of a key survive their way through the database column: parsePostgresArray
  inverts scopesToArray on every list of plain scopes.
\<close>

theorem scopes_round_trip:
  assumes "list_all plain_scope scopes"
  shows "parsePostgresArray (scopesToArray scopes) = scopes"
  using assms by (rule parse_scopes)

theorem scopes_round_trip_witness:
  "parsePostgresArray (scopesToArray [''copy:receive'', ''signals:read'']) = [''copy:receive'', ''signals:read'']"
  by (rule scopes_round_trip) (simp add: plain_scope_def TrimSpace_def is_space_def)

text \<open>
  A scope with a comma does not survive: one granted scope \<open>a,b\<close> is read back as the two
  scopes \<open>a\<close> and \<open>b\<close>, for all plain a and b.
\<close>

theorem comma_scope_splits:
  assumes "plain_scope a" and "plain_scope b"
  shows "parsePostgresArray (scopesToArray [a @ '','' @ b]) = [a, b]"
  using parse_scopes [of "[a, b]"] assms by (simp add: scopesToArray_def)

theorem comma_scope_splits_witness:
  "parsePostgresArray (scopesToArray [''copy:receive,signals:read'']) = [''copy:receive'', ''signals:read'']"
  using comma_scope_splits [of "''copy:receive''" "''signals:read''"]
  by (simp add: plain_scope_def TrimSpace_def is_space_def)

subsection \<open>Rotation\<close>

definition successor_row :: "uuid \<Rightarrow> string \<Rightarrow> string \<Rightarrow> string \<Rightarrow> string \<Rightarrow> int option \<Rightarrow> int \<Rightarrow> key_row" where
  "successor_row i h ow nt sc mx now = \<lparr>kr_id = i, kr_hash = h, kr_owner = ow, kr_scopes = sc,
     kr_status = ''active'', kr_max = mx, kr_successor = None, kr_rotate_at = None, kr_note = nt,
     kr_created = now, kr_last_used = None\<rparr>"

definition link_row :: "uuid \<Rightarrow> uuid \<Rightarrow> int \<Rightarrow> key_row \<Rightarrow> key_row" where
  "link_row old new rot r = (if kr_id r = old then r\<lparr>kr_successor := Some new, kr_rotate_at := Some rot\<rparr> else r)"

lemma rotate_tx:
  assumes "has_key old t"
  shows "\<exists>x. tx_step D now 0 [InsertKey i h ow (scopesToArray sc) nt mx, LinkSuccessor i rot old] t = Inl x \<or>
    (i \<notin> kr_id ` set (api_keys t) \<and> h \<notin> kr_hash ` set (api_keys t) \<and>
     (\<exists>sc'. tx_step D now 0 [InsertKey i h ow (scopesToArray sc) nt mx, LinkSuccessor i rot old] t =
       Inr (t\<lparr>api_keys := map (link_row old i rot) (api_keys t) @ [successor_row i h ow nt sc' mx now]\<rparr>)))"
  using assms
  by (auto simp: has_key_def hits_def upd_def link_row_def [abs_def] successor_row_def unique_violation_def
      out_of_range_def fk_violation_def split: option.splits pgreply.splits prod.splits if_splits)

context deployment
begin

lemma RotateAPIKey_tables:
  assumes "run_state (RotateAPIKey E old h ow nt sc mx rot) w = (r, w')" and "has_key old (ad (pg w))"
  shows "(ad (pg w') = ad (pg w) \<and> (\<exists>e. r = Inl e)) \<or>
    (\<exists>i sc'. i \<notin> kr_id ` set (api_keys (ad (pg w))) \<and> h \<notin> kr_hash ` set (api_keys (ad (pg w))) \<and>
       ad (pg w') = (ad (pg w))\<lparr>api_keys := map (link_row old i rot) (api_keys (ad (pg w)))
         @ [successor_row i h ow nt sc' mx (clock w)]\<rparr>)"
proof -
  define i where "i = new_uuid E (seed w)"
  define w0 where "w0 = w\<lparr>seed := Suc (seed w)\<rparr>"
  let ?tx = "[InsertKey i h ow (scopesToArray sc) nt mx, LinkSuccessor i rot old]"
  obtain x w1 where x: "run_state (DB E (Tx ?tx)) w0 = (x, w1)" by (metis surj_pair)
  have w0: "pg w0 = pg w" "clock w0 = clock w" by (simp_all add: w0_def)
  have q: "ad (pg (exec_state (GetAPIKeyByID E i) w1)) = ad (pg w1)"
    using store_queries_pure(2) by (simp add: keeps_def)
  have e: "case x of Inl e \<Rightarrow> (\<exists>e. r = Inl e) \<and> w' = w1
      | Inr (PTxErr n m) \<Rightarrow> (\<exists>e. r = Inl e) \<and> w' = w1
      | Inr _ \<Rightarrow> ad (pg w') = ad (pg w1)"
    using assms(1) x q
    by (auto simp: RotateAPIKey_def i_def w0_def split: sum.splits pgreply.splits)
  consider (no) y where "tx_step D (clock w) 0 ?tx (ad (pg w)) = Inl y"
    | (yes) sc' where "i \<notin> kr_id ` set (api_keys (ad (pg w)))" "h \<notin> kr_hash ` set (api_keys (ad (pg w)))"
      "tx_step D (clock w) 0 ?tx (ad (pg w)) = Inr ((ad (pg w))\<lparr>api_keys := map (link_row old i rot) (api_keys (ad (pg w)))
         @ [successor_row i h ow nt sc' mx (clock w)]\<rparr>)"
    using rotate_tx [OF assms(2)] by meson
  then show ?thesis
  proof cases
    case no
    then have s: "pg_step D (clock w) (Tx ?tx) (ad (pg w)) = (y, ad (pg w))" by simp
    from no have "\<exists>n m. y = PTxErr n m" by (auto split: prod.splits pgreply.splits)
    moreover have "ad (pg w1) = ad (pg w)" using DB_any [OF x] s w0 by auto
    moreover have "x = Inr z \<Longrightarrow> z = y" for z using DB_ok [of "Tx ?tx" w0 z w1] x s w0 by auto
    ultimately show ?thesis using e by (cases x) auto
  next
    case yes
    then have s: "pg_step D (clock w) (Tx ?tx) (ad (pg w)) = (PDone 0, (ad (pg w))\<lparr>api_keys :=
        map (link_row old i rot) (api_keys (ad (pg w))) @ [successor_row i h ow nt sc' mx (clock w)]\<rparr>)" by simp
    show ?thesis
    proof (cases x)
      case (Inl f)
      then show ?thesis using DB_any [OF x] s w0 e yes(1,2) by auto
    next
      case (Inr z)
      with DB_ok [of "Tx ?tx" w0 z w1] x s w0 have "z = PDone 0"
        "ad (pg w1) = (ad (pg w))\<lparr>api_keys :=
          map (link_row old i rot) (api_keys (ad (pg w))) @ [successor_row i h ow nt sc' mx (clock w)]\<rparr>" by auto
      with Inr e yes(1,2) show ?thesis by auto
    qed
  qed
qed

end

text \<open>
  C35: Rotation is atomic, whatever fails: either the tables are as before and RotateAPIKey
  returns an error, or a successor key with a fresh id and hash is active and the old key, unchanged
  otherwise, names it with the rotation time; no other key and no other table changes.
\<close>

theorem RotateAPIKey_atomic:
  assumes "deployment E ac al ad D" and "run_state (RotateAPIKey E old h ow nt sc mx rot) w = (r, w')"
    and "has_key old (ad (pg w))"
  shows "(ad (pg w') = ad (pg w) \<and> (\<exists>e. r = Inl e)) \<or>
    (\<exists>i sc'. i \<notin> kr_id ` set (api_keys (ad (pg w))) \<and> h \<notin> kr_hash ` set (api_keys (ad (pg w))) \<and>
       ad (pg w') = (ad (pg w))\<lparr>api_keys := map (link_row old i rot) (api_keys (ad (pg w)))
         @ [successor_row i h ow nt sc' mx (clock w)]\<rparr>)"
  using assms by (rule deployment.RotateAPIKey_tables)

theorem RotateAPIKey_atomic_witness:
  "\<exists>r w'. run_state (RotateAPIKey calm_env 7 ''g'' ''desk'' [] [''copy:receive''] None 5)
      (calm_world (demo_tables ''h'' ''active'' None) 0) = (r, w')
    \<and> length (api_keys (pg w')) \<le> 2"
proof -
  obtain r w' where r: "run_state (RotateAPIKey calm_env 7 ''g'' ''desk'' [] [''copy:receive''] None 5)
      (calm_world (demo_tables ''h'' ''active'' None) 0) = (r, w')" by (metis surj_pair)
  from RotateAPIKey_atomic [OF calm_deployment r] have "length (api_keys (pg w')) \<le> 2" by auto
  with r show ?thesis by blast
qed

subsection \<open>Migrations\<close>

definition is_migration :: "dir_entry \<Rightarrow> bool" where
  "is_migration en \<longleftrightarrow> \<not> de_is_dir en \<and> HasSuffix (de_name en) ''.sql''"

text \<open>A script that does not touch the table of applied migrations.\<close>

definition scripts_separate :: "pgdoc \<Rightarrow> bool" where
  "scripts_separate D \<longleftrightarrow> (\<forall>s t t'. script D s t = Inr t' \<longrightarrow> schema_migrations t' = schema_migrations t)"

context deployment
begin

lemma count_migration:
  assumes "reliable_db E" and "schema_migrations (ad (pg w)) = Some fs"
  shows "\<exists>w'. run_state (DB E (Auto (CountMigration f))) w = (Inr (PCount (int (length (filter (\<lambda>g. g = f) fs)))), w')
    \<and> ad (pg w') = ad (pg w)"
  using reliable_DB [OF assms(1), of "CountMigration f" w] assms(2) by auto

lemma migrate_applied:
  assumes "reliable_db E" and "schema_migrations (ad (pg w)) = Some fs"
    and "\<And>en. en \<in> set ens \<Longrightarrow> is_migration en \<Longrightarrow> de_name en \<in> set fs"
  shows "\<exists>w'. run_state (migrate_entries E ens) w = (Inr (), w') \<and> ad (pg w') = ad (pg w)"
  using assms(2,3)
proof (induction ens arbitrary: w)
  case (Cons en ens)
  show ?case
  proof (cases "is_migration en")
    case False
    then show ?thesis using Cons by (auto simp: is_migration_def)
  next
    case True
    obtain w1 where w1: "run_state (DB E (Auto (CountMigration (de_name en)))) w =
        (Inr (PCount (int (length (filter (\<lambda>g. g = de_name en) fs)))), w1)" "ad (pg w1) = ad (pg w)"
      using count_migration [OF assms(1) Cons.prems(1)] by blast
    have "0 < length (filter (\<lambda>g. g = de_name en) fs)"
      using Cons.prems(2) True by (auto simp: filter_empty_conv)
    moreover obtain w2 where "run_state (migrate_entries E ens) w1 = (Inr (), w2)" "ad (pg w2) = ad (pg w1)"
      using Cons.IH [of w1] Cons.prems w1(2) by auto
    ultimately show ?thesis using True w1 by (simp add: is_migration_def count_or_zero_def)
  qed
qed simp

lemma migrate_records:
  assumes "reliable_db E" and sep: "scripts_separate D"
    and "schema_migrations (ad (pg w)) = Some fs" and "run_state (migrate_entries E ens) w = (Inr (), w')"
  shows "\<exists>gs. schema_migrations (ad (pg w')) = Some gs \<and> set fs \<subseteq> set gs
    \<and> (\<forall>en \<in> set ens. is_migration en \<longrightarrow> de_name en \<in> set gs)"
  using assms(3,4)
proof (induction ens arbitrary: w fs)
  case (Cons en ens)
  show ?case
  proof (cases "is_migration en")
    case False
    then show ?thesis using Cons by (auto simp: is_migration_def split: if_splits)
  next
    case True
    let ?f = "de_name en"
    obtain w1 where w1: "run_state (DB E (Auto (CountMigration ?f))) w =
        (Inr (PCount (int (length (filter (\<lambda>g. g = ?f) fs)))), w1)" "ad (pg w1) = ad (pg w)"
      using count_migration [OF assms(1) Cons.prems(1)] by blast
    show ?thesis
    proof (cases "?f \<in> set fs")
      case in_fs: True
      then have "0 < length (filter (\<lambda>g. g = ?f) fs)" by (auto simp: filter_empty_conv)
      then have "run_state (migrate_entries E ens) w1 = (Inr (), w')"
        using Cons.prems(2) True w1 by (simp add: is_migration_def count_or_zero_def)
      with Cons.IH [of w1 fs] Cons.prems(1) w1(2) in_fs show ?thesis by auto
    next
      case False
      then have z: "filter (\<lambda>g. g = ?f) fs = []" by (auto simp: filter_empty_conv)
      obtain s where s: "de_content en = Inr s"
        using Cons.prems(2) True w1 z by (cases "de_content en") (simp_all add: is_migration_def count_or_zero_def)
      obtain x w2 where x: "run_state (DB E (Auto (RunScript s))) w1 = (x, w2)" by (metis surj_pair)
      obtain r where r: "x = Inr r"
        using Cons.prems(2) True w1 z s x by (cases x) (simp_all add: is_migration_def count_or_zero_def)
      have f2: "schema_migrations (ad (pg w2)) = Some fs"
        using query_answer(2) [of "RunScript s" w1 r w2] x r w1(2) Cons.prems(1) sep
        by (auto simp: scripts_separate_def split: sum.splits)
      obtain y w3 where y: "run_state (DB E (Auto (InsertMigration ?f))) w2 = (y, w3)"
        "ad (pg w3) = snd (sql_step D (clock w2) (InsertMigration ?f) (ad (pg w2)))"
        using reliable_DB [OF assms(1), of "InsertMigration ?f" w2] by blast
      have f3: "schema_migrations (ad (pg w3)) = Some (fs @ [?f])"
        using y(2) f2 False by simp
      have "run_state (migrate_entries E ens) w3 = (Inr (), w')"
        using Cons.prems(2) True w1 z s x r y(1) by (simp add: is_migration_def count_or_zero_def)
      with Cons.IH [OF f3] show ?thesis by auto
    qed
  qed
qed simp

lemma Migrate_twice:
  assumes "reliable_db E" and "scripts_separate D"
    and "run_state (Migrate E (Inr ens)) w = (Inr (), w1)"
  shows "\<exists>w2. run_state (Migrate E (Inr ens)) w1 = (Inr (), w2) \<and> ad (pg w2) = ad (pg w1)"
proof -
  have create: "\<exists>w'. run_state (DB E (Auto CreateMigrations)) v = (Inr (PDone 0), w') \<and>
      schema_migrations (ad (pg w')) = Some (case schema_migrations (ad (pg v)) of None \<Rightarrow> [] | Some fs \<Rightarrow> fs) \<and>
      (schema_migrations (ad (pg v)) \<noteq> None \<longrightarrow> ad (pg w') = ad (pg v))" for v
    using reliable_DB [OF assms(1), of CreateMigrations v] by (auto split: option.splits)
  obtain v fs where v: "run_state (migrate_entries E ens) v = (Inr (), w1)"
    "schema_migrations (ad (pg v)) = Some fs"
    using create [of w] assms(3) by (auto simp: Migrate_def)
  obtain gs where gs: "schema_migrations (ad (pg w1)) = Some gs"
    "\<forall>en \<in> set ens. is_migration en \<longrightarrow> de_name en \<in> set gs"
    using migrate_records [OF assms(1,2) v(2,1)] by blast
  obtain u where u: "run_state (DB E (Auto CreateMigrations)) w1 = (Inr (PDone 0), u)" "ad (pg u) = ad (pg w1)"
    using create [of w1] gs(1) by auto
  then show ?thesis
    using migrate_applied [OF assms(1), of u gs ens] gs by (auto simp: Migrate_def)
qed

end

text \<open>
  Migrations are applied once. If Migrate succeeds on a directory, a second Migrate on the
  same directory succeeds and leaves every table as it is (the database answers every call and
  no script touches the table of applied migrations).
\<close>

theorem Migrate_once:
  assumes "deployment E ac al ad D" and "reliable_db E" and "scripts_separate D"
    and "run_state (Migrate E (Inr ens)) w = (Inr (), w1)"
  shows "\<exists>w2. run_state (Migrate E (Inr ens)) w1 = (Inr (), w2) \<and> ad (pg w2) = ad (pg w1)"
  using deployment.Migrate_twice [OF assms] .

definition demo_migration :: dir_entry where
  "demo_migration = \<lparr>de_name = ''001.sql'', de_is_dir = False, de_content = Inr []\<rparr>"

theorem Migrate_once_witness:
  "\<exists>w1 w2. run_state (Migrate calm_env (Inr [demo_migration])) (calm_world empty_tables 0) = (Inr (), w1)
    \<and> run_state (Migrate calm_env (Inr [demo_migration])) w1 = (Inr (), w2) \<and> pg w2 = pg w1"
proof -
  obtain w1 where r: "run_state (Migrate calm_env (Inr [demo_migration])) (calm_world empty_tables 0) = (Inr (), w1)"
    by (simp add: Migrate_def DB_def calm_env_def calm_world_def faultless_def empty_tables_def
        HasSuffix_def count_or_zero_def plain_doc_def demo_migration_def)
  have "scripts_separate plain_doc" by (simp add: scripts_separate_def plain_doc_def)
  from Migrate_once [OF calm_deployment reliable_calm this r] r show ?thesis by auto
qed

end
