(* ===== verification/Config.thy ===== *)
theory Config
  imports GoTime
begin

text \<open>
  \<open>internal/config/config.go\<close>: the configuration read from the environment, with the duration
  parser \<open>time.ParseDuration\<close>. The environment is the function \<open>Getenv\<close> (an unset variable is
  the empty string). A required variable that is missing ends the program: \<open>Load\<close> then returns
  the variable's name.
\<close>

subsection \<open>Configuration records\<close>

record ServerConfig =
  Port :: string
  ReadTimeout :: int
  WriteTimeout :: int

record PostgresConfig =
  DSN :: string
  MaxOpenConns :: int
  MaxIdleConns :: int

record RedisConfig =
  CriticalAddr :: string
  CacheAddr :: string
  Password :: string

record AuthConfig =
  SignalHMACSecret :: string
  SignalTimestampTTL :: int
  KeyCacheTTL :: int
  RateLimitWindow :: int
  RateLimitMaxFail :: int
  DeduplicateTTL :: int
  JWTSecret :: string
  JWTAccessTokenTTL :: int
  JWTRefreshTokenTTL :: int
  AdminUsername :: string
  AdminPasswordHash :: string

record WorkerConfig =
  Concurrency :: int
  MaxRetries :: int
  BaseBackoff :: int
  MaxBackoff :: int
  StaleJobThreshold :: int
  CleanupInterval :: int

record NotifyConfig =
  TelegramToken :: string
  TelegramBaseURL :: string
  WhatsAppProvider :: string
  TwilioSID :: string
  TwilioToken :: string
  TwilioFrom :: string
  CallMeBotAPIKey :: string

record Config =
  Server :: ServerConfig
  Postgres :: PostgresConfig
  RedisCfg :: RedisConfig
  Auth :: AuthConfig
  Worker :: WorkerConfig
  Notify :: NotifyConfig

subsection \<open>\<open>time.ParseDuration\<close>\<close>

text \<open>Rounding of a positive rational to a \<open>float64\<close> with 53 bits, ties to even.\<close>

definition round_float :: "rat \<Rightarrow> rat" where
  "round_float q = (if q \<le> 0 then q else
     let (n, d) = quotient_of q;
         e = int (bit_width (nat n)) - int (bit_width (nat d)) - 53;
         s = (if q / (2 powi e) < 2 ^ 53 then e else e + 1);
         (m, l) = quotient_of (q / (2 powi s))
     in of_int (round_even m l) * (2 powi s))"

text \<open>
  The digits after the point: value and scale, ignoring digits once the value would overflow.
  An element of the state is \<open>(value, scale, overflow)\<close>.
\<close>

fun fraction_digit :: "int \<times> int \<times> bool \<Rightarrow> char \<Rightarrow> int \<times> int \<times> bool" where
  "fraction_digit (x, scale, ov) c =
     (if ov \<or> (2 ^ 63 - 1) div 10 < x \<or> 2 ^ 63 < 10 * x + digit_val c then (x, scale, True)
      else (10 * x + digit_val c, 10 * scale, False))"

definition duration_unit :: "string \<Rightarrow> int option" where
  "duration_unit u = map_of [(''ns'', 1), (''us'', 1000), ([CHR 0xC2, CHR 0xB5, CHR ''s''], 1000),
     ([CHR 0xCE, CHR 0xBC, CHR ''s''], 1000), (''ms'', Millisecond), (''s'', Second), (''m'', Minute), (''h'', Hour)] u"

definition unit_char :: "char \<Rightarrow> bool" where
  "unit_char c \<longleftrightarrow> \<not> is_digit c \<and> c \<noteq> CHR ''.''"

definition fraction_part :: "string \<Rightarrow> string \<times> string" where
  "fraction_part s = (case s of
     [] \<Rightarrow> ([], [])
   | c # t \<Rightarrow> if c = CHR ''.'' then (takeWhile is_digit t, dropWhile is_digit t) else ([], s))"

text \<open>The duration of \<open>ip.fp\<close> units of \<open>d\<close> nanoseconds.\<close>

definition part_value :: "string \<Rightarrow> string \<Rightarrow> int \<Rightarrow> int option" where
  "part_value ip fp d = (let (f, scale, ov) = foldl fraction_digit (0, 1, False) fp;
       v = digits_val ip * d + (if 0 < f then
         \<lfloor>round_float (of_int (float_of_int f) * round_float (of_int d / of_int scale))\<rfloor> else 0)
     in if 2 ^ 63 < digits_val ip \<or> 2 ^ 63 div d < digits_val ip \<or> 2 ^ 63 < v then None else Some v)"

text \<open>One number with its unit, and the rest of the text.\<close>

definition duration_part :: "string \<Rightarrow> (int \<times> string) option" where
  "duration_part s0 = (let
       ip = takeWhile is_digit s0;
       (fp, s2) = fraction_part (dropWhile is_digit s0);
       u = takeWhile unit_char s2
     in if ip = [] \<and> fp = [] \<or> u = [] then None
        else do { d \<leftarrow> duration_unit u; v \<leftarrow> part_value ip fp d; Some (v, dropWhile unit_char s2) })"

lemma length_dropWhile_less: "takeWhile P s \<noteq> [] \<Longrightarrow> length (dropWhile P s) < length s"
  by (cases s) (auto simp: le_imp_less_Suc length_dropWhile_le split: if_splits)

lemma fraction_part_shorter: "fraction_part s = (f, r) \<Longrightarrow> length r \<le> length s"
  by (auto simp: fraction_part_def length_dropWhile_le le_SucI split: list.splits if_splits)

lemma duration_part_shorter:
  assumes "duration_part s = Some (v, r)"
  shows "length r < length s"
proof -
  obtain fp s2 where f: "fraction_part (dropWhile is_digit s) = (fp, s2)" by (metis surj_pair)
  with assms have "length r < length s2"
    by (auto simp: duration_part_def Let_def length_dropWhile_less split: if_splits bind_splits)
  with fraction_part_shorter [OF f] length_dropWhile_le [of is_digit s] show ?thesis by linarith
qed

function duration_parts :: "int \<Rightarrow> string \<Rightarrow> int option" where
  "duration_parts d s = (if s = [] then Some d
     else (case duration_part s of
       None \<Rightarrow> None
     | Some (v, r) \<Rightarrow> if 2 ^ 63 < d + v then None else duration_parts (d + v) r))"
  by pat_completeness auto
termination
  by (relation "measure (\<lambda>(d, s). length s)") (auto dest: duration_part_shorter)

declare duration_parts.simps [simp del]

definition ParseDuration :: "string \<Rightarrow> int option" where
  "ParseDuration s = (let neg = HasPrefix s ''-''; t = (if neg \<or> HasPrefix s ''+'' then tl s else s) in
     if t = ''0'' then Some 0
     else if t = [] then None
     else (case duration_parts 0 t of
       None \<Rightarrow> None
     | Some d \<Rightarrow> if neg then Some (- d) else if max64 < d then None else Some d))"

subsection \<open>Reading the environment\<close>

type_synonym getenv = "string \<Rightarrow> string"

definition mustEnv :: "getenv \<Rightarrow> string \<Rightarrow> string + string" where
  "mustEnv Getenv key = (let v = Getenv key in if v = [] then Inl key else Inr v)"

definition getEnv :: "getenv \<Rightarrow> string \<Rightarrow> string \<Rightarrow> string" where
  "getEnv Getenv key fallback = (let v = Getenv key in if v \<noteq> [] then v else fallback)"

definition getInt :: "getenv \<Rightarrow> string \<Rightarrow> int \<Rightarrow> int" where
  "getInt Getenv key fallback = (let v = Getenv key in
     if v \<noteq> [] then (case Atoi v of Some i \<Rightarrow> i | None \<Rightarrow> fallback) else fallback)"

definition getDuration :: "getenv \<Rightarrow> string \<Rightarrow> int \<Rightarrow> int" where
  "getDuration Getenv key fallback = (let v = Getenv key in
     if v \<noteq> [] then (case ParseDuration v of Some d \<Rightarrow> d | None \<Rightarrow> fallback) else fallback)"

definition LoadServer :: "getenv \<Rightarrow> ServerConfig" where
  "LoadServer g = \<lparr>Port = getEnv g ''SERVER_PORT'' ''8080'',
     ReadTimeout = getDuration g ''SERVER_READ_TIMEOUT'' (10 * Second),
     WriteTimeout = getDuration g ''SERVER_WRITE_TIMEOUT'' (10 * Second)\<rparr>"

definition LoadRedis :: "getenv \<Rightarrow> RedisConfig" where
  "LoadRedis g = \<lparr>CriticalAddr = getEnv g ''REDIS_CRITICAL_ADDR'' ''localhost:6379'',
     CacheAddr = getEnv g ''REDIS_CACHE_ADDR'' ''localhost:6380'',
     Password = getEnv g ''REDIS_PASSWORD'' []\<rparr>"

definition LoadWorker :: "getenv \<Rightarrow> WorkerConfig" where
  "LoadWorker g = \<lparr>Concurrency = getInt g ''WORKER_CONCURRENCY'' 10,
     MaxRetries = getInt g ''WORKER_MAX_RETRIES'' 5,
     BaseBackoff = getDuration g ''WORKER_BASE_BACKOFF'' (1 * Second),
     MaxBackoff = getDuration g ''WORKER_MAX_BACKOFF'' (5 * Minute),
     StaleJobThreshold = getDuration g ''WORKER_STALE_JOB_THRESHOLD'' (60 * Second),
     CleanupInterval = getDuration g ''WORKER_CLEANUP_INTERVAL'' (30 * Second)\<rparr>"

definition LoadNotify :: "getenv \<Rightarrow> NotifyConfig" where
  "LoadNotify g = \<lparr>TelegramToken = getEnv g ''TELEGRAM_BOT_TOKEN'' [],
     TelegramBaseURL = getEnv g ''TELEGRAM_BASE_URL'' ''https://api.telegram.org'',
     WhatsAppProvider = getEnv g ''WHATSAPP_PROVIDER'' ''twilio'',
     TwilioSID = getEnv g ''TWILIO_ACCOUNT_SID'' [],
     TwilioToken = getEnv g ''TWILIO_AUTH_TOKEN'' [],
     TwilioFrom = getEnv g ''TWILIO_FROM_NUMBER'' [],
     CallMeBotAPIKey = getEnv g ''CALLMEBOT_API_KEY'' []\<rparr>"

text \<open>The fields are evaluated in order; the first missing variable panics.\<close>

definition Load :: "getenv \<Rightarrow> string + Config" where
  "Load g = (case mustEnv g ''POSTGRES_DSN'' of Inl k \<Rightarrow> Inl k | Inr dsn \<Rightarrow>
     (case mustEnv g ''SIGNAL_HMAC_SECRET'' of Inl k \<Rightarrow> Inl k | Inr hsec \<Rightarrow>
     (case mustEnv g ''JWT_SECRET'' of Inl k \<Rightarrow> Inl k | Inr jsec \<Rightarrow>
     (case mustEnv g ''ADMIN_USERNAME'' of Inl k \<Rightarrow> Inl k | Inr user \<Rightarrow>
     (case mustEnv g ''ADMIN_PASSWORD_HASH'' of Inl k \<Rightarrow> Inl k | Inr pwhash \<Rightarrow>
       Inr \<lparr>Server = LoadServer g,
         Postgres = \<lparr>DSN = dsn, MaxOpenConns = getInt g ''POSTGRES_MAX_OPEN_CONNS'' 25,
           MaxIdleConns = getInt g ''POSTGRES_MAX_IDLE_CONNS'' 10\<rparr>,
         RedisCfg = LoadRedis g,
         Auth = \<lparr>SignalHMACSecret = hsec,
           SignalTimestampTTL = getDuration g ''SIGNAL_TIMESTAMP_TTL'' (30 * Second),
           KeyCacheTTL = getDuration g ''AUTH_KEY_CACHE_TTL'' (5 * Minute),
           RateLimitWindow = getDuration g ''AUTH_RATE_LIMIT_WINDOW'' (15 * Minute),
           RateLimitMaxFail = getInt g ''AUTH_RATE_LIMIT_MAX_FAIL'' 10,
           DeduplicateTTL = getDuration g ''AUTH_DEDUP_TTL'' (60 * Second),
           JWTSecret = jsec,
           JWTAccessTokenTTL = getDuration g ''JWT_ACCESS_TTL'' (15 * Minute),
           JWTRefreshTokenTTL = getDuration g ''JWT_REFRESH_TTL'' (7 * 24 * Hour),
           AdminUsername = user, AdminPasswordHash = pwhash\<rparr>,
         Worker = LoadWorker g, Notify = LoadNotify g\<rparr>)))))"

subsection \<open>Durations\<close>

lemma duration_unit_pos: "duration_unit u = Some d \<Longrightarrow> 0 < d"
  by (auto simp: duration_unit_def duration_units split: if_splits)

lemma round_even_nonneg: "0 \<le> m \<Longrightarrow> 0 < l \<Longrightarrow> 0 \<le> round_even m l"
  by (simp add: round_even_def Let_def pos_imp_zdiv_nonneg_iff)

lemma round_float_nonneg: "0 \<le> q \<Longrightarrow> 0 \<le> round_float q"
proof (cases "q \<le> 0")
  case False
  then have q: "0 < q" by simp
  obtain n d where nd: "quotient_of q = (n, d)" by (metis surj_pair)
  obtain s where s: "round_float q = (case quotient_of (q / 2 powi s) of (m, l) \<Rightarrow> of_int (round_even m l) * 2 powi s)"
    using False nd by (simp add: round_float_def Let_def split: prod.splits)
  obtain m l where ml: "quotient_of (q / 2 powi s) = (m, l)" by (metis surj_pair)
  have l: "0 < l" using ml by (rule quotient_of_denom_pos)
  have "q / 2 powi s = of_int m / of_int l" using ml by (rule quotient_of_div)
  moreover have "0 < q / 2 powi s" using q by simp
  ultimately have "0 < of_int m / (of_int l :: rat)" by metis
  then have "0 \<le> m" using l by (simp add: zero_less_divide_iff)
  then have "0 \<le> round_even m l" using l by (rule round_even_nonneg)
  then show ?thesis by (simp add: s ml)
qed (simp add: round_float_def)

lemma digits_val_nonneg: "list_all is_digit s \<Longrightarrow> 0 \<le> digits_val s"
  by (induction s rule: rev_induct) (auto simp: digits_val_snoc digit_val_def is_digit_def digits_val_def [of "[]"])

lemma fraction_scale_pos: "0 < scale \<Longrightarrow> 0 < fst (snd (foldl fraction_digit (x, scale, ov) fp))"
  by (induction fp arbitrary: x scale ov) simp_all

lemma part_value_nonneg:
  assumes "part_value ip fp d = Some v" and "list_all is_digit ip" and "0 < d"
  shows "0 \<le> v" "v \<le> 2 ^ 63"
proof -
  obtain f scale ov where f: "foldl fraction_digit (0, 1, False) fp = (f, scale, ov)" by (metis surj_pair)
  have sc: "0 < scale" using fraction_scale_pos [of 1 0 False fp] f by simp
  have "0 \<le> float_of_int f" if "0 < f"
    using that round_even_nonneg [of f] by (simp add: float_of_int_def Let_def)
  then have "0 \<le> (if 0 < f then \<lfloor>round_float (of_int (float_of_int f) * round_float (of_int d / of_int scale))\<rfloor> else 0)"
    using assms(3) sc by (auto intro!: round_float_nonneg mult_nonneg_nonneg)
  then show "0 \<le> v" "v \<le> 2 ^ 63"
    using assms digits_val_nonneg [OF assms(2)] f
    by (auto simp: part_value_def Let_def split: if_splits intro!: add_nonneg_nonneg mult_nonneg_nonneg)
qed

lemma duration_part_bounds:
  assumes "duration_part s = Some (v, r)" shows "0 \<le> v"
proof -
  obtain fp s2 where f: "fraction_part (dropWhile is_digit s) = (fp, s2)" by (metis surj_pair)
  obtain d where "duration_unit (takeWhile unit_char s2) = Some d" "part_value (takeWhile is_digit s) fp d = Some v"
    using assms f by (auto simp: duration_part_def Let_def split: if_splits bind_splits)
  then show ?thesis
    using part_value_nonneg(1) duration_unit_pos by (metis list_all_iff set_takeWhileD)
qed

lemma duration_parts_bounds:
  "duration_parts d s = Some r \<Longrightarrow> 0 \<le> d \<Longrightarrow> d \<le> 2 ^ 63 \<Longrightarrow> 0 \<le> r \<and> r \<le> 2 ^ 63"
proof (induction d s rule: duration_parts.induct)
  case (1 d s)
  show ?case
  proof (cases "s = []")
    case False
    then obtain v t where p: "duration_part s = Some (v, t)" "\<not> 2 ^ 63 < d + v" "duration_parts (d + v) t = Some r"
      using "1.prems"(1) by (subst (asm) duration_parts.simps) (auto split: option.splits if_splits)
    with duration_part_bounds [OF p(1)] "1.prems"(2) show ?thesis
      by (intro "1.IH" [OF False p(1) refl]) simp_all
  qed (use "1.prems" in \<open>simp add: duration_parts.simps\<close>)
qed

lemma ParseDuration_range: "ParseDuration s = Some d \<Longrightarrow> in64 d"
  using duration_parts_bounds [of 0]
  by (fastforce simp: ParseDuration_def Let_def in64_def min64_def max64_def split: if_splits option.splits)

text \<open>
  Every duration that the configuration accepts fits a time.Duration: getDuration returns a
  64-bit value, whatever text the environment holds, if the default does.
\<close>

theorem getDuration_in64:
  assumes "in64 fallback"
  shows "in64 (getDuration Getenv key fallback)"
  using assms ParseDuration_range by (auto simp: getDuration_def Let_def split: option.splits)

theorem getDuration_in64_witness: "in64 (getDuration (\<lambda>k. ''9223372036854775808ns'') ''AUTH_DEDUP_TTL'' (60 * Second))"
  by (rule getDuration_in64) (simp add: in64_def min64_def max64_def Second_def)

lemma duration_unit_chars: "duration_unit u = Some d \<Longrightarrow> u \<noteq> [] \<and> list_all unit_char u"
  by (auto simp: duration_unit_def unit_char_def is_digit_def split: if_splits)

text \<open>
  A count of one unit parses to what it says: the decimal text of n followed by a unit of d
  nanoseconds is the duration n * d, for every n that keeps it within 63 bits.
\<close>

theorem ParseDuration_integer:
  assumes "0 \<le> n" and "duration_unit u = Some d" and "n * d < 2 ^ 63"
  shows "ParseDuration (FormatInt n @ u) = Some (n * d)"
proof -
  have u: "u \<noteq> []" "list_all unit_char u" and d: "0 < d"
    using assms(2) duration_unit_chars duration_unit_pos by blast+
  then have hd: "\<not> is_digit (hd u)" "hd u \<noteq> CHR ''.''" by (cases u; simp add: unit_char_def)+
  define t where "t = nat_text (nat n)"
  have t: "FormatInt n = t" "list_all is_digit t" "t \<noteq> []" "digits_val t = n"
    using assms(1) nat_text_digits by (simp_all add: t_def FormatInt_def)
  have tw: "takeWhile is_digit (t @ u) = t" "dropWhile is_digit (t @ u) = u"
    using takeWhile_digits [OF t(2), of u] hd(1) by simp_all
  have fr: "fraction_part u = ([], u)" using u(1) hd(2) by (cases u) (simp_all add: fraction_part_def)
  have uw: "takeWhile unit_char u = u" "dropWhile unit_char u = []"
    using u(2) by (simp_all add: list_all_iff takeWhile_eq_all_conv dropWhile_eq_Nil_conv)
  have n: "n \<le> n * d" using assms(1) d by (simp add: mult_le_cancel_left1)
  have nd: "\<not> 2 ^ 63 div d < n"
    using zdiv_mono1 [of "n * d" "2 ^ 63" d] assms(3) d by simp
  have v: "part_value t [] d = Some (n * d)"
    using n nd assms(3) by (simp add: part_value_def t(4))
  have p: "duration_part (t @ u) = Some (n * d, [])"
    using u(1) assms(2) v by (simp add: duration_part_def tw fr uw t(3))
  have "duration_parts (n * d) [] = Some (n * d)" by (subst duration_parts.simps) simp
  then have "duration_parts 0 (t @ u) = Some (n * d)"
    using p u(1) assms(3) by (subst duration_parts.simps) simp
  moreover have "t @ u \<noteq> ''0''" "t @ u \<noteq> []"
    using t(3) hd(1) u(1) by (cases t; cases "tl t"; cases u; simp add: is_digit_def)+
  moreover have "\<not> HasPrefix (t @ u) ''-''" "\<not> HasPrefix (t @ u) ''+''"
    using t(2,3) digit_not_sign by (cases t; fastforce simp: HasPrefix_def)+
  ultimately show ?thesis
    using assms(3) by (simp add: ParseDuration_def t(1) max64_def)
qed

theorem ParseDuration_integer_witness: "ParseDuration ''30s'' = Some 30000000000"
  using ParseDuration_integer [of 30 "''s''" Second]
  by (simp add: FormatInt_def nat_text.simps digit_char_def char_of_def bit_0 duration_unit_def Second_def)

subsection \<open>Required variables\<close>

definition required_vars :: "string list" where
  "required_vars = [''POSTGRES_DSN'', ''SIGNAL_HMAC_SECRET'', ''JWT_SECRET'', ''ADMIN_USERNAME'', ''ADMIN_PASSWORD_HASH'']"

text \<open>
  Load panics exactly when a required variable is not set, and names the first such
  variable; the secrets and the admin credentials of a loaded configuration are therefore never
  empty.
\<close>

theorem Load_required:
  "(case filter (\<lambda>v. g v = []) required_vars of
      v # _ \<Rightarrow> Load g = Inl v
    | [] \<Rightarrow> (\<exists>c. Load g = Inr c \<and> SignalHMACSecret (Auth c) \<noteq> [] \<and> JWTSecret (Auth c) \<noteq> []
        \<and> AdminUsername (Auth c) \<noteq> [] \<and> AdminPasswordHash (Auth c) \<noteq> [] \<and> DSN (Postgres c) \<noteq> []))"
  by (simp add: required_vars_def Load_def mustEnv_def)

end
