(* ===== verification/Signature.thy ===== *)
theory Signature
  imports GoTime Crypto
begin

text \<open>
  The hashing of API keys and the signature of signals in \<open>internal/auth/auth.go\<close>. The main
  results say which signatures are accepted, at the edges of the 64-bit clock too, and that the
  signed text determines the fields that were signed.
\<close>

subsection \<open>Keys\<close>

definition HashKey :: "string \<Rightarrow> string" where
  "HashKey plaintext = hex_encode (Sum256 (bytes_of plaintext))"

subsection \<open>Signal signatures\<close>

definition signal_message :: "string \<Rightarrow> string \<Rightarrow> string \<Rightarrow> string \<Rightarrow> string" where
  "signal_message ticketID signalType symbol timestamp =
     ticketID @ '':'' @ signalType @ '':'' @ symbol @ '':'' @ timestamp"

definition GenerateSignalHMAC :: "string \<Rightarrow> string \<Rightarrow> string \<Rightarrow> string \<Rightarrow> string \<Rightarrow> string" where
  "GenerateSignalHMAC secret ticketID signalType symbol timestamp =
     hex_encode (HmacSHA256 (bytes_of secret) (bytes_of (signal_message ticketID signalType symbol timestamp)))"

text \<open>\<open>now\<close> is the time of \<open>time.Since\<close>; negation of a duration wraps.\<close>

definition VerifySignalHMACWithTTL :: "int \<Rightarrow> string \<Rightarrow> string \<Rightarrow> string \<Rightarrow> string \<Rightarrow> string
    \<Rightarrow> string \<Rightarrow> int \<Rightarrow> unit result" where
  "VerifySignalHMACWithTTL now secret ticketID signalType symbol timestamp signature ttl =
     (case ParseRFC3339 timestamp of
        None \<Rightarrow> Inl (EMsg ''invalid timestamp format'')
      | Some ts \<Rightarrow>
          let age0 = Sub now ts; age = (if age0 < 0 then wrap64 (- age0) else age0) in
          if age > ttl then Inl (ETooOld age)
          else (let expected = hex_encode (HmacSHA256 (bytes_of secret)
                      (bytes_of (signal_message ticketID signalType symbol timestamp)))
            in if bytes_of expected \<noteq> bytes_of signature then Inl (EMsg ''invalid signal signature'')
               else Inr ()))"

lemma char_byte: "unat (of_nat (of_char c) :: byte) = of_char c"
  using nat_of_char_less_256 [of c] by (simp add: unsigned_of_nat take_bit_nat_eq_self)

lemma bytes_of_inj [simp]: "bytes_of s = bytes_of t \<longleftrightarrow> s = t"
proof
  assume "bytes_of s = bytes_of t"
  then show "s = t" unfolding bytes_of_def
    by (rule map_injective) (rule injI, metis char_byte of_char_eq_iff)
qed simp

subsection \<open>What is accepted\<close>

text \<open>The age as the code computes it.\<close>

definition age_of :: "int \<Rightarrow> int \<Rightarrow> int" where
  "age_of now ts = (let a = Sub now ts in if a < 0 then wrap64 (- a) else a)"

lemma age_of_near: "\<bar>now - ts\<bar> \<le> max64 \<Longrightarrow> age_of now ts = \<bar>now - ts\<bar>"
proof -
  assume a: "\<bar>now - ts\<bar> \<le> max64"
  then have "Sub now ts = now - ts" "in64 (- (now - ts))"
    by (auto simp: Sub_def sat64_def in64_def max64_def min64_def)
  then show ?thesis by (simp add: age_of_def wrap64_id Let_def)
qed

lemma age_of_past: "max64 \<le> now - ts \<Longrightarrow> age_of now ts = max64"
  by (auto simp: age_of_def Sub_def sat64_def max64_def min64_def Let_def)

lemma age_of_future: "now - ts \<le> min64 \<Longrightarrow> age_of now ts = min64"
proof -
  assume "now - ts \<le> min64"
  then have "Sub now ts = min64" by (auto simp: Sub_def sat64_def max64_def min64_def)
  then show ?thesis by (simp add: age_of_def)
qed

lemma age_of_le_iff:
  assumes "0 \<le> ttl" and "ttl < max64"
  shows "age_of now ts \<le> ttl \<longleftrightarrow> \<bar>now - ts\<bar> \<le> ttl \<or> now - ts \<le> min64"
proof -
  consider "\<bar>now - ts\<bar> \<le> max64" | "max64 < now - ts" | "now - ts \<le> min64"
    by (simp add: max64_def min64_def) linarith
  then show ?thesis
    using assms age_of_near [of now ts] age_of_past [of now ts] age_of_future [of now ts]
    by cases (auto simp: max64_def min64_def)
qed

lemma Verify_iff:
  "VerifySignalHMACWithTTL now secret tid ty smb ts sg ttl = Inr () \<longleftrightarrow>
     (\<exists>t. ParseRFC3339 ts = Some t \<and> age_of now t \<le> ttl) \<and> sg = GenerateSignalHMAC secret tid ty smb ts"
  by (auto simp: VerifySignalHMACWithTTL_def age_of_def GenerateSignalHMAC_def Let_def split: option.splits)

text \<open>
  C11: A signal's signature is accepted exactly when it is the HMAC of the message under the shared
  secret and the timestamp parses to an instant at most the TTL away from now, or at least 2^63
  nanoseconds (292 years) ahead of it: there the difference saturates, its negation wraps to a
  negative age, and the freshness check passes.
\<close>

theorem VerifySignalHMAC_accepts:
  assumes "0 \<le> ttl" and "ttl < max64"
  shows "VerifySignalHMACWithTTL now secret tid ty smb ts sg ttl = Inr () \<longleftrightarrow>
    sg = GenerateSignalHMAC secret tid ty smb ts \<and>
    (\<exists>t. ParseRFC3339 ts = Some t \<and> (\<bar>now - t\<bar> \<le> ttl \<or> t - now \<ge> 2 ^ 63))"
  using age_of_le_iff [OF assms] unfolding Verify_iff by (fastforce simp: min64_def)
 
theorem VerifySignalHMAC_accepts_witness:
  "VerifySignalHMACWithTTL (1767225600 * 10 ^ 9) ''s'' ''1'' ''OPEN'' ''EURUSD'' ''9999-01-01T00:00:00Z''
     (GenerateSignalHMAC ''s'' ''1'' ''OPEN'' ''EURUSD'' ''9999-01-01T00:00:00Z'') (30 * Second) = Inr ()"
proof -
  have "ParseRFC3339 ''9999-01-01T00:00:00Z'' = Some (253370764800 * 10 ^ 9)"
    by code_simp
  then show ?thesis
    by (subst VerifySignalHMAC_accepts) (simp_all add: Second_def max64_def)
qed

subsection \<open>The signed text\<close>

text \<open>The shape of a text that parses as RFC 3339, from its first colon on.\<close>

lemma take_num_SomeD: "take_num k s = Some (n, r) \<Longrightarrow> \<exists>p. s = p @ r \<and> length p = k \<and> list_all is_digit p"
  unfolding take_num_def by (rule exI [of _ "take k s"]) (auto split: if_splits)

lemma lit_SomeD: "lit c s = Some r \<Longrightarrow> s = c # r"
  by (cases s) (auto split: if_splits)

lemma hour_num_SomeD: "hour_num b s = Some (n, r) \<Longrightarrow> \<exists>p. s = p @ r \<and> list_all is_digit p"
  unfolding hour_num_def by (auto split: option.splits if_splits dest!: take_num_SomeD)

lemma frac_num_shape:
  "frac_num b s = (n, r) \<Longrightarrow> \<exists>q. s = q @ r \<and> CHR '':'' \<notin> set q \<and> (q \<noteq> [] \<longrightarrow> \<not> is_digit (hd q))"
proof -
  assume f: "frac_num b s = (n, r)"
  show ?thesis
  proof (cases "r = s")
    case False
    then obtain p t where s: "s = p # t" "p = CHR ''.'' \<or> p = CHR '',''" "r = dropWhile is_digit t"
      using f by (auto simp: frac_num_def split: list.splits if_splits)
    have "CHR '':'' \<notin> set (takeWhile is_digit t)"
      by (auto simp: is_digit_def dest: set_takeWhileD)
    with s show ?thesis
      by (intro exI [of _ "p # takeWhile is_digit t"]) (auto simp: is_digit_def)
  qed simp
qed

lemma zone_num_shape:
  "zone_num b s = Some z \<Longrightarrow> s \<noteq> [] \<and> \<not> is_digit (hd s) \<and>
     (\<forall>x r. s = x @ CHR '':'' # r \<longrightarrow> length r = 2)"
proof -
  assume z: "zone_num b s = Some z"
  show ?thesis
  proof (cases "s = ''Z''")
    case True
    then show ?thesis by (auto simp: is_digit_def append_eq_Cons_conv Cons_eq_append_conv)
  next
    case False
    then obtain c h m where s: "s = c # h @ CHR '':'' # m" "length h = 2" "length m = 2" "c = CHR ''+'' \<or> c = CHR ''-''"
      "list_all is_digit h" "list_all is_digit m"
      using z by (auto simp: zone_num_def split: list.splits bind_splits prod.splits if_splits
          dest!: take_num_SomeD lit_SomeD)
    obtain a b d e where "h = [a, b]" "m = [d, e]"
      using s(2,3) by (auto simp: length_Suc_conv numeral_2_eq_2)
    then show ?thesis using s(4-6) unfolding s(1)
      by (auto simp: append_eq_Cons_conv Cons_eq_append_conv is_digit_def)
  qed
qed

definition no_date :: "string \<Rightarrow> bool" where
  "no_date r \<longleftrightarrow> \<not> (3 \<le> length r \<and> is_digit (r ! 2))"

definition colon_tails :: "string \<Rightarrow> bool" where
  "colon_tails s \<longleftrightarrow> (\<forall>x r. s = x @ CHR '':'' # r \<longrightarrow> no_date r)"

lemma colon_tails_Cons:
  "colon_tails (c # s) \<longleftrightarrow> (c = CHR '':'' \<longrightarrow> no_date s) \<and> colon_tails s"
proof
  assume a: "colon_tails (c # s)"
  have "no_date r" if "s = x @ CHR '':'' # r" for x r
    using a that unfolding colon_tails_def by (metis append_Cons)
  moreover have "c = CHR '':'' \<longrightarrow> no_date s"
    using a unfolding colon_tails_def by (metis append_Nil)
  ultimately show "(c = CHR '':'' \<longrightarrow> no_date s) \<and> colon_tails s"
    by (simp add: colon_tails_def)
qed (auto simp: colon_tails_def Cons_eq_append_conv)

lemma colon_tails_append: "CHR '':'' \<notin> set p \<Longrightarrow> colon_tails (p @ s) = colon_tails s"
  by (induction p) (auto simp: colon_tails_Cons)

lemma no_colon_digits: "list_all is_digit p \<Longrightarrow> CHR '':'' \<notin> set p"
  by (auto simp: list_all_iff is_digit_def)

lemma parse_colon_tails:
  assumes "parse_rfc3339 b s = Some t"
  shows "colon_tails s"
proof -
  obtain y m d h mi se u n z where s0: "s = y @ CHR ''-'' # m @ CHR ''-'' # d @ CHR ''T'' # h @ CHR '':'' # mi @ CHR '':'' # se @ u"
    and dg: "list_all is_digit y" "list_all is_digit m" "list_all is_digit d" "list_all is_digit h"
      "list_all is_digit mi" "list_all is_digit se" "length mi = 2" "length se = 2"
    and u: "frac_num b u = (n, z)" and z: "\<exists>off. zone_num b z = Some off"
    using assms unfolding parse_rfc3339_def
    by (auto split: bind_splits prod.splits if_splits dest!: take_num_SomeD lit_SomeD hour_num_SomeD)
  obtain q where q: "u = q @ z" "CHR '':'' \<notin> set q" "q \<noteq> [] \<longrightarrow> \<not> is_digit (hd q)"
    using frac_num_shape [OF u] by blast
  note s = s0 [unfolded q(1)]
  have z: "z \<noteq> []" "\<not> is_digit (hd z)" "colon_tails z"
    using z zone_num_shape by (force simp: colon_tails_def no_date_def)+
  have "no_date (se @ q @ z)"
    using dg(8) q(3) z(1,2) by (cases q; cases z) (auto simp: no_date_def nth_append)
  moreover have "no_date (mi @ CHR '':'' # u)" for u
    using dg(7) by (simp add: no_date_def nth_append is_digit_def)
  ultimately show ?thesis
    using dg q(2) z(3) unfolding s
    by (simp add: colon_tails_append no_colon_digits colon_tails_Cons)
qed

lemma parse_date_start: "parse_rfc3339 b s = Some t \<Longrightarrow> \<not> no_date s"
  unfolding parse_rfc3339_def
  by (auto simp: no_date_def nth_append list_all_length split: bind_splits dest!: take_num_SomeD)

lemma colon_split_unique:
  assumes "a @ CHR '':'' # s = b @ CHR '':'' # t" and "colon_tails s" "colon_tails t" "\<not> no_date s" "\<not> no_date t"
  shows "a = b \<and> s = t"
proof -
  have no: "a = b @ CHR '':'' # x \<Longrightarrow> False" for x
    using assms(1,3,4) by (auto simp: colon_tails_def)
  have no': "b = a @ CHR '':'' # x \<Longrightarrow> False" for x
    using assms(1,2,5) by (auto simp: colon_tails_def)
  from assms(1) obtain us where "a = b @ us \<and> us @ CHR '':'' # s = CHR '':'' # t \<or> a @ us = b \<and> CHR '':'' # s = us @ CHR '':'' # t"
    unfolding append_eq_append_conv2 by blast
  then show ?thesis
  proof
    assume u: "a = b @ us \<and> us @ CHR '':'' # s = CHR '':'' # t"
    show ?thesis
    proof (cases us)
      case (Cons c v)
      with u have "a = b @ CHR '':'' # v" by simp
      with no show ?thesis by blast
    qed (use u in simp)
  next
    assume u: "a @ us = b \<and> CHR '':'' # s = us @ CHR '':'' # t"
    show ?thesis
    proof (cases us)
      case (Cons c v)
      with u have "b = a @ CHR '':'' # v" by simp
      with no' show ?thesis by blast
    qed (use u in simp)
  qed
qed

lemma message_fields:
  assumes "signal_message (FormatInt i) ty sm ts = signal_message (FormatInt j) ty' sm' ts'"
    and "CHR '':'' \<notin> set ty" "CHR '':'' \<notin> set ty'"
    and "ParseRFC3339 ts \<noteq> None" "ParseRFC3339 ts' \<noteq> None"
  shows "i = j \<and> ty = ty' \<and> sm = sm' \<and> ts = ts'"
proof -
  have e: "FormatInt i @ CHR '':'' # (ty @ CHR '':'' # (sm @ CHR '':'' # ts))
      = FormatInt j @ CHR '':'' # (ty' @ CHR '':'' # (sm' @ CHR '':'' # ts'))"
    using assms(1) by (simp add: signal_message_def)
  from append_sep_inj [OF e FormatInt_no_colon FormatInt_no_colon]
  have 1: "FormatInt i = FormatInt j"
    and f: "ty @ CHR '':'' # (sm @ CHR '':'' # ts) = ty' @ CHR '':'' # (sm' @ CHR '':'' # ts')" by simp_all
  from append_sep_inj [OF f assms(2,3)] have "ty = ty'" "sm @ CHR '':'' # ts = sm' @ CHR '':'' # ts'" by simp_all
  moreover obtain t t' where "parse_rfc3339 False ts = Some t" "parse_rfc3339 False ts' = Some t'"
    using assms(4,5) by (auto simp: ParseRFC3339_def)
  ultimately show ?thesis
    using colon_split_unique parse_colon_tails parse_date_start FormatInt_inj [OF 1] by blast
qed

text \<open>
  The signed text determines what was signed: two messages whose signal types have no colon
  and whose timestamps parse are the same text only if ticket, type, symbol and timestamp are the
  same, whatever colons the symbols contain.
\<close>

theorem signed_message_determines:
  assumes "CHR '':'' \<notin> set ty" and "CHR '':'' \<notin> set ty'"
    and "ParseRFC3339 ts \<noteq> None" and "ParseRFC3339 ts' \<noteq> None"
  shows "signal_message (FormatInt i) ty sm ts = signal_message (FormatInt j) ty' sm' ts' \<longleftrightarrow>
    i = j \<and> ty = ty' \<and> sm = sm' \<and> ts = ts'"
  using message_fields assms by blast

theorem signed_message_determines_witness:
  "signal_message (FormatInt 1) ''OPEN'' ''EURUSD'' ''2026-01-01T00:00:00Z''
    \<noteq> signal_message (FormatInt 1) ''OPEN'' ''EURUSD:2026-01-01T00'' ''2026-01-01T00:00:00Z''"
proof -
  have "ParseRFC3339 ''2026-01-01T00:00:00Z'' \<noteq> None" by code_simp
  then show ?thesis by (subst signed_message_determines) simp_all
qed

end
