(* ===== verification/Auth.thy ===== *)
theory Auth
  imports CacheLayer Store Config Signature
begin

text \<open>
  \<open>internal/auth/auth.go\<close>: key generation, the validation of an API key, the binding of
  keys to machines, the JSON web tokens of the administrator and the two middlewares. A
  middleware takes the handler it guards as an argument; what the code puts in the request's
  context is an argument of that handler.
\<close>

subsection \<open>Key generation\<close>

definition ScopeCopyReceive :: string where "ScopeCopyReceive = ''copy:receive''"
definition ScopeSignalsRead :: string where "ScopeSignalsRead = ''signals:read''"
definition ScopeWebhookRegister :: string where "ScopeWebhookRegister = ''webhook:register''"

definition GenerateKey :: "('r, 'l, 'd) env \<Rightarrow> ('r, 'l, 'd, (string \<times> string) result) io" where
  "GenerateKey E = do {
     b \<leftarrow> rand_Read E;
     ret (case b of
       Inl e \<Rightarrow> Inl (EWrap ''generate key'' e)
     | Inr bs \<Rightarrow> let plaintext = hex_encode bs in Inr (plaintext, HashKey plaintext)) }"

subsection \<open>Validation of an API key\<close>

text \<open>A non-empty cached text that is read as an active key decides; otherwise the database does.\<close>

definition key_of_row :: "('r, 'l, 'd) env \<Rightarrow> APIKey \<Rightarrow> CachedKey" where
  "key_of_row E key = \<lparr>ck_ID = uuid_str E (ID key), ck_Owner = Owner key, ck_Scopes = Scopes key,
     ck_Status = Status key\<rparr>"

definition ValidateKeyDB ::
    "('r, 'l, 'd) env \<Rightarrow> AuthConfig \<Rightarrow> string \<Rightarrow> ('r, 'l, 'd, CachedKey option result) io" where
  "ValidateKeyDB E cfg hash = do {
     x \<leftarrow> GetAPIKeyByHash E hash;
     now \<leftarrow> time_now;
     (case x of
       Inl e \<Rightarrow> ret (Inl (EWrap ''get api key'' e))
     | Inr None \<Rightarrow> ret (Inr None)
     | Inr (Some key) \<Rightarrow>
         if Status key \<noteq> APIKeyActive then ret (Inr None)
         else if (case RotateAt key of None \<Rightarrow> False | Some t \<Rightarrow> t < now) then ret (Inr None)
         else do {
           let ck = key_of_row E key;
           _ \<leftarrow> (case Marshal (json_text E) (Struct (Marshal_key ck)) of
              Inl _ \<Rightarrow> ret (Inr ())
            | Inr b \<Rightarrow> SetAPIKeyCache E hash (Bytes b) (KeyCacheTTL cfg));
           _ \<leftarrow> spawn (AsyncTouchKey (ID key));
           ret (Inr (Some ck)) }) }"

definition ValidateKey ::
    "('r, 'l, 'd) env \<Rightarrow> AuthConfig \<Rightarrow> string \<Rightarrow> ('r, 'l, 'd, CachedKey option result) io" where
  "ValidateKey E cfg plaintext = do {
     let hash = HashKey plaintext;
     cached \<leftarrow> GetAPIKeyCache E hash;
     (case cached of
        Inr (Some d) \<Rightarrow>
          (case Unmarshal_key d of
             Some ck \<Rightarrow> ret (Inr (if ck_Status ck = APIKeyActive then Some ck else None))
           | None \<Rightarrow> ValidateKeyDB E cfg hash)
      | _ \<Rightarrow> ValidateKeyDB E cfg hash) }"

fun has_scope :: "string list \<Rightarrow> string \<Rightarrow> bool" where
  "has_scope [] scope = False"
| "has_scope (sc # scs) scope = (sc = scope \<or> has_scope scs scope)"

definition HasScope :: "CachedKey \<Rightarrow> string \<Rightarrow> bool" where
  "HasScope key scope = has_scope (ck_Scopes key) scope"

subsection \<open>Machine binding\<close>

definition machine_denied :: "string \<Rightarrow> goerr" where
  "machine_denied a = EMsg (''machine not authorised: account '' @ a @ '' is not registered on this key'')"

definition machine_limit :: "int \<Rightarrow> goerr" where
  "machine_limit n = EMsg (''machine limit reached: this key allows '' @ FormatInt n
     @ '' machine(s), all slots taken'')"

text \<open>The part after a miss in the cache.\<close>

definition CheckMachineDB ::
    "('r, 'l, 'd) env \<Rightarrow> CachedKey \<Rightarrow> uuid \<Rightarrow> string \<Rightarrow> ('r, 'l, 'd, unit result) io" where
  "CheckMachineDB E ck keyID a = do {
     x \<leftarrow> IsMachineRegistered E keyID a;
     case x of
       Inl _ \<Rightarrow> ret (Inr ())
     | Inr True \<Rightarrow> do {
         _ \<leftarrow> SetMachineAllowed E (ck_ID ck) a True MachineCacheTTL;
         _ \<leftarrow> spawn (AsyncTouchMachine keyID a);
         ret (Inr ()) }
     | Inr False \<Rightarrow> do {
         m \<leftarrow> GetMaxMachines E keyID;
         let maxMachines = (case m of Inl _ \<Rightarrow> None | Inr mx \<Rightarrow> mx);
         r \<leftarrow> RegisterMachine E keyID a maxMachines;
         case r of
           Inl EMachineLimit \<Rightarrow> do {
             _ \<leftarrow> SetMachineAllowed E (ck_ID ck) a False MachineCacheTTL;
             ret (Inl (machine_limit (case maxMachines of None \<Rightarrow> 0 | Some mx \<Rightarrow> mx))) }
         | Inl _ \<Rightarrow> ret (Inr ())
         | Inr _ \<Rightarrow> do {
             _ \<leftarrow> SetMachineAllowed E (ck_ID ck) a True MachineCacheTTL;
             ret (Inr ()) } } }"

definition CheckMachineBinding ::
    "('r, 'l, 'd) env \<Rightarrow> CachedKey \<Rightarrow> string \<Rightarrow> ('r, 'l, 'd, unit result) io" where
  "CheckMachineBinding E ck accountNumber =
     (case uuid_prs E (ck_ID ck) of
        None \<Rightarrow> ret (Inl (EMsg ''invalid key id''))
      | Some keyID \<Rightarrow>
          if accountNumber = [] then do {
            c \<leftarrow> CountMachines E keyID;
            ret (case c of
              Inl _ \<Rightarrow> Inr ()
            | Inr cnt \<Rightarrow> if cnt > 0 then Inl (EMsg ''X-MT4-Account header required for this key'')
                else Inr ()) }
          else do {
            g \<leftarrow> GetMachineAllowed E (ck_ID ck) accountNumber;
            case g of
              Inr (True, True) \<Rightarrow> do { _ \<leftarrow> spawn (AsyncTouchMachine keyID accountNumber); ret (Inr ()) }
            | Inr (False, True) \<Rightarrow> ret (Inl (machine_denied accountNumber))
            | _ \<Rightarrow> CheckMachineDB E ck keyID accountNumber })"

subsection \<open>Administrator tokens\<close>

text \<open>\<open>jwt.NewNumericDate\<close> cuts a time to whole seconds.\<close>

definition NewNumericDate :: "int \<Rightarrow> int" where
  "NewNumericDate t = t div Second * Second"

definition svc_result :: "string + 'a \<Rightarrow> 'a result" where
  "svc_result x = (case x of Inl e \<Rightarrow> Inl (ESvc e) | Inr y \<Rightarrow> Inr y)"

definition makeToken ::
    "('r, 'l, 'd) env \<Rightarrow> AuthConfig \<Rightarrow> string \<Rightarrow> int \<Rightarrow> string \<Rightarrow> ('r, 'l, 'd, string result) io" where
  "makeToken E cfg username ttl tokenType = do {
     u \<leftarrow> uuid_New E;
     now \<leftarrow> time_now;
     let claims = \<lparr>Username = username, JTI = uuid_str E u, Subject = username,
       IssuedAt = Some (NewNumericDate now), ExpiresAt = Some (NewNumericDate (now + ttl)),
       Issuer = ''mt4signal'', Audience = [''mt4signal-admin-'' @ tokenType]\<rparr>;
     ret (svc_result (jwt_sign E claims (JWTSecret cfg))) }"

definition AdminLogin ::
    "('r, 'l, 'd) env \<Rightarrow> AuthConfig \<Rightarrow> string \<Rightarrow> string \<Rightarrow> ('r, 'l, 'd, (string \<times> string) result) io" where
  "AdminLogin E cfg username password =
     (if username \<noteq> AdminUsername cfg then ret (Inl (EMsg ''invalid credentials''))
      else if \<not> bcrypt_ok E (AdminPasswordHash cfg) password then ret (Inl (EMsg ''invalid credentials''))
      else do {
        a \<leftarrow> makeToken E cfg username (JWTAccessTokenTTL cfg) ''access'';
        case a of
          Inl e \<Rightarrow> ret (Inl e)
        | Inr access \<Rightarrow> do {
            b \<leftarrow> makeToken E cfg username (JWTRefreshTokenTTL cfg) ''refresh'';
            ret (case b of Inl e \<Rightarrow> Inl e | Inr refresh \<Rightarrow> Inr (access, refresh)) } })"

definition admin_keyfunc :: "AuthConfig \<Rightarrow> keyfunc" where
  "admin_keyfunc cfg m = (if m \<noteq> MethodHMAC then Inl (EMsg ''unexpected signing method'')
     else Inr (JWTSecret cfg))"

definition ValidateAdminToken ::
    "('r, 'l, 'd) env \<Rightarrow> AuthConfig \<Rightarrow> string \<Rightarrow> ('r, 'l, 'd, AdminClaims result) io" where
  "ValidateAdminToken E cfg tokenStr = do {
     now \<leftarrow> time_now;
     case jwt_parse E (admin_keyfunc cfg) now tokenStr of
       Inl e \<Rightarrow> ret (Inl (EWrap ''invalid token'' (ESvc e)))
     | Inr (claims, tok_valid) \<Rightarrow>
         if \<not> tok_valid then ret (Inl (EMsg ''invalid token claims''))
         else do {
           b \<leftarrow> IsJWTBlocked E (JTI claims);
           ret (case b of
             Inr True \<Rightarrow> Inl (EMsg ''token revoked'')
           | _ \<Rightarrow> Inr claims) } }"

text \<open>A token without an expiry makes \<open>claims.ExpiresAt.Time\<close> a nil dereference.\<close>

definition RefreshAdminToken ::
    "('r, 'l, 'd) env \<Rightarrow> AuthConfig \<Rightarrow> string \<Rightarrow> ('r, 'l, 'd, string result) io" where
  "RefreshAdminToken E cfg refreshTokenStr = do {
     v \<leftarrow> ValidateAdminToken E cfg refreshTokenStr;
     case v of
       Inl e \<Rightarrow> ret (Inl e)
     | Inr claims \<Rightarrow>
         (case ExpiresAt claims of
            None \<Rightarrow> ret (Inl EPanic)
          | Some e \<Rightarrow> do {
              now \<leftarrow> time_now;
              let remaining = Sub e now;
              _ \<leftarrow> (if remaining > 0 then BlockJWT E (JTI claims) remaining else ret (Inr ()));
              makeToken E cfg (Username claims) (JWTAccessTokenTTL cfg) ''access'' }) }"

definition RevokeAdminToken ::
    "('r, 'l, 'd) env \<Rightarrow> AuthConfig \<Rightarrow> string \<Rightarrow> ('r, 'l, 'd, unit result) io" where
  "RevokeAdminToken E cfg tokenStr = do {
     v \<leftarrow> ValidateAdminToken E cfg tokenStr;
     case v of
       Inl e \<Rightarrow> ret (Inl e)
     | Inr claims \<Rightarrow>
         (case ExpiresAt claims of
            None \<Rightarrow> ret (Inl EPanic)
          | Some e \<Rightarrow> do {
              now \<leftarrow> time_now;
              let remaining = Sub e now;
              if remaining > 0 then BlockJWT E (JTI claims) remaining else ret (Inr ()) }) }"

subsection \<open>Middleware\<close>

definition extractBearer :: "request \<Rightarrow> string" where
  "extractBearer r = (let h = rq_header r ''Authorization'' in
     if HasPrefix h ''Bearer '' then drop 7 h else [])"

definition realIP :: "request \<Rightarrow> string" where
  "realIP r = (let fwd = rq_header r ''X-Forwarded-For''; rip = rq_header r ''X-Real-IP''; addr = rq_remote r in
     if fwd \<noteq> [] then TrimSpace (hd (Split fwd CHR '',''))
     else if rip \<noteq> [] then rip
     else (case LastIndexByte addr CHR '':'' of Some i \<Rightarrow> take i addr | None \<Rightarrow> addr))"

definition writeJSONError :: "goerr \<Rightarrow> nat \<Rightarrow> response" where
  "writeJSONError err code = \<lparr>status = code, headers = json_type, rbody = Quoted err\<rparr>"

definition recordFailure :: "('r, 'l, 'd) env \<Rightarrow> AuthConfig \<Rightarrow> string \<Rightarrow> ('r, 'l, 'd, unit) io" where
  "recordFailure E cfg ip = do { _ \<leftarrow> IncrAuthFailure E ip (RateLimitWindow cfg); ret () }"

definition APIKeyMiddleware :: "('r, 'l, 'd) env \<Rightarrow> AuthConfig \<Rightarrow> string
    \<Rightarrow> (CachedKey \<Rightarrow> request \<Rightarrow> ('r, 'l, 'd, response) io) \<Rightarrow> request \<Rightarrow> ('r, 'l, 'd, response) io" where
  "APIKeyMiddleware E cfg requiredScope nxt r = do {
     let ip = realIP r;
     f \<leftarrow> GetAuthFailures E ip;
     if (case f of Inl _ \<Rightarrow> 0 | Inr n \<Rightarrow> n) \<ge> RateLimitMaxFail cfg
     then ret (writeJSONError (EMsg ''too many auth failures, try later'') 429)
     else (let apiKey = rq_header r ''X-API-Key'' in
       if apiKey = [] then do {
         _ \<leftarrow> recordFailure E cfg ip;
         ret (writeJSONError (EMsg ''missing X-API-Key header'') 401) }
       else do {
         v \<leftarrow> ValidateKey E cfg apiKey;
         case v of
           Inl _ \<Rightarrow> ret (writeJSONError (EMsg ''internal error'') 500)
         | Inr None \<Rightarrow> do {
             _ \<leftarrow> recordFailure E cfg ip;
             ret (writeJSONError (EMsg ''invalid or revoked api key'') 401) }
         | Inr (Some ck) \<Rightarrow>
             if requiredScope \<noteq> [] \<and> \<not> HasScope ck requiredScope
             then ret (writeJSONError (EMsg ''insufficient scope'') 403)
             else do {
               b \<leftarrow> CheckMachineBinding E ck (TrimSpace (rq_header r ''X-Account-ID''));
               case b of
                 Inl e \<Rightarrow> ret (writeJSONError e 403)
               | Inr _ \<Rightarrow> nxt ck r } }) }"

definition JWTMiddleware :: "('r, 'l, 'd) env \<Rightarrow> AuthConfig
    \<Rightarrow> (AdminClaims \<Rightarrow> request \<Rightarrow> ('r, 'l, 'd, response) io) \<Rightarrow> request \<Rightarrow> ('r, 'l, 'd, response) io" where
  "JWTMiddleware E cfg nxt r = (let tokenStr = extractBearer r in
     if tokenStr = [] then ret (writeJSONError (EMsg ''missing Authorization header'') 401)
     else do {
       v \<leftarrow> ValidateAdminToken E cfg tokenStr;
       case v of
         Inl _ \<Rightarrow> ret (writeJSONError (EMsg ''invalid or expired token'') 401)
       | Inr claims \<Rightarrow> nxt claims r })"

text \<open>The goroutines that the handlers start, run at some later time.\<close>

fun run_async :: "('r, 'l, 'd) env \<Rightarrow> async \<Rightarrow> ('r, 'l, 'd, unit) io" where
  "run_async E (AsyncTouchKey i) = TouchAPIKeyLastUsed E i"
| "run_async E (AsyncTouchMachine k a) = TouchMachineLastSeen E k a"
| "run_async E (AsyncTouchMachineId i) = do { _ \<leftarrow> DB E (Auto (TouchMachineId i)); ret () }"

subsection \<open>Frames\<close>

lemma keeps_pair [hoare]:
  "(\<And>a b. x = (a, b) \<Longrightarrow> keeps f (g a b)) \<Longrightarrow> keeps f (case_prod g x)"
  by (cases x) simp

lemma keeps_bool [hoare]:
  "(x \<Longrightarrow> keeps f m) \<Longrightarrow> (\<not> x \<Longrightarrow> keeps f n) \<Longrightarrow> keeps f (case x of True \<Rightarrow> m | False \<Rightarrow> n)"
  by (cases x) simp_all

lemma keeps_goerr [hoare]:
  "(\<And>a. keeps f (g1 a)) \<Longrightarrow> (\<And>a b. keeps f (g2 a b)) \<Longrightarrow> (\<And>a. keeps f (g3 a)) \<Longrightarrow> (\<And>a. keeps f (g4 a))
    \<Longrightarrow> (\<And>a b. keeps f (g5 a b)) \<Longrightarrow> keeps f g6 \<Longrightarrow> keeps f g7
    \<Longrightarrow> keeps f (case_goerr g1 g2 g3 g4 g5 g6 g7 x)"
  by (cases x) simp_all

lemmas auth_defs = ValidateKeyDB_def ValidateKey_def CheckMachineDB_def CheckMachineBinding_def
  makeToken_def AdminLogin_def ValidateAdminToken_def RefreshAdminToken_def RevokeAdminToken_def
  recordFailure_def

text \<open>Authentication never touches the critical server.\<close>

lemma auth_keeps_crit [hoare]:
  "keeps crit (ValidateKeyDB E cfg h)" "keeps crit (ValidateKey E cfg p)"
  "keeps crit (CheckMachineDB E ck k a)" "keeps crit (CheckMachineBinding E ck a)"
  "keeps crit (makeToken E cfg u ttl ty)" "keeps crit (AdminLogin E cfg u p)"
  "keeps crit (ValidateAdminToken E cfg tk)" "keeps crit (RefreshAdminToken E cfg tk)"
  "keeps crit (RevokeAdminToken E cfg tk)" "keeps crit (recordFailure E cfg ip)"
  unfolding auth_defs Let_def by (intro hoare off_pg_proj time_now_keeps)+

lemma auth_keeps_clock [hoare]:
  "keeps clock (ValidateKeyDB E cfg h)" "keeps clock (ValidateKey E cfg p)"
  "keeps clock (CheckMachineDB E ck k a)" "keeps clock (CheckMachineBinding E ck a)"
  "keeps clock (makeToken E cfg u ttl ty)" "keeps clock (AdminLogin E cfg u p)"
  "keeps clock (ValidateAdminToken E cfg tk)" "keeps clock (RefreshAdminToken E cfg tk)"
  "keeps clock (RevokeAdminToken E cfg tk)" "keeps clock (recordFailure E cfg ip)"
  unfolding auth_defs Let_def by (intro hoare off_pg_proj time_now_keeps)+

text \<open>The operations on tokens, and the counters, never touch the database.\<close>

lemma auth_keeps_pg [hoare]:
  "keeps pg (makeToken E cfg u ttl ty)" "keeps pg (AdminLogin E cfg u p)"
  "keeps pg (ValidateAdminToken E cfg tk)" "keeps pg (RefreshAdminToken E cfg tk)"
  "keeps pg (RevokeAdminToken E cfg tk)" "keeps pg (recordFailure E cfg ip)"
  unfolding auth_defs Let_def by (intro hoare off_pg_proj time_now_keeps)+

subsection \<open>The API key cache is never read\<close>

text \<open>
  \<open>ValidateKey\<close> hands \<open>SetAPIKeyCache\<close> the marshalled key as a byte slice, which is marshalled
  again: the cached text is a JSON string, and reading it as a key fails. No entry of the API
  key cache can ever be read back.
\<close>

definition key_cache_unreadable :: "rview \<Rightarrow> bool" where
  "key_cache_unreadable v \<longleftrightarrow>
     (\<forall>h x e. rstr v (apiKeyCacheKey h) = Some (x, e) \<longrightarrow> Unmarshal_key x = None)"

definition key_cache_safe :: "rcmd \<Rightarrow> bool" where
  "key_cache_safe c \<longleftrightarrow> (\<forall>h. apiKeyCacheKey h \<in> writes c \<longrightarrow>
     (\<exists>x ttl. c = SET (apiKeyCacheKey h) x ttl \<and> Unmarshal_key x = None))"

lemma key_cache_fewer:
  assumes "\<And>k. k \<in> range apiKeyCacheKey \<Longrightarrow> rstr v' k = rstr v k \<or> rstr v' k = None"
    and "key_cache_unreadable v"
  shows "key_cache_unreadable v'"
  unfolding key_cache_unreadable_def
proof (intro allI impI)
  fix h x e
  assume x: "rstr v' (apiKeyCacheKey h) = Some (x, e)"
  then have "rstr v (apiKeyCacheKey h) = Some (x, e)" using assms(1) [of "apiKeyCacheKey h"] by auto
  with assms(2) show "Unmarshal_key x = None" unfolding key_cache_unreadable_def by blast
qed

lemma key_cache_evict: "evict v v' \<Longrightarrow> key_cache_unreadable v \<Longrightarrow> key_cache_unreadable v'"
  by (rule key_cache_fewer) (simp_all add: evict_def)

lemma key_cache_lru_ok:
  assumes "lru_ok now c v x v'" and "key_cache_safe c" and "key_cache_unreadable v"
  shows "key_cache_unreadable v'"
proof (cases "\<exists>h y ttl. c = SET (apiKeyCacheKey h) y ttl \<and> Unmarshal_key y = None")
  case True
  then obtain h y ttl where c: "c = SET (apiKeyCacheKey h) y ttl" "Unmarshal_key y = None" by blast
  obtain u where u: "evict v u" "evict (snd (redis_step now c u)) v'"
    using lru_okE [OF assms(1)] c(1) by auto
  have "key_cache_unreadable u" using key_cache_evict [OF u(1) assms(3)] .
  then have "key_cache_unreadable (snd (redis_step now c u))"
    using c by (simp add: key_cache_unreadable_def)
  then show ?thesis by (rule key_cache_evict [OF u(2)])
next
  case False
  then have n: "apiKeyCacheKey h \<notin> writes c" for h
    using assms(2) unfolding key_cache_safe_def by blast
  show ?thesis
  proof (rule key_cache_fewer [OF _ assms(3)])
    fix k assume "k \<in> range apiKeyCacheKey"
    with n have "k \<notin> writes c" by blast
    then show "rstr v' k = rstr v k \<or> rstr v' k = None" by (rule lru_ok_rstr [OF assms(1)])
  qed
qed

lemma key_cache_safe_simps [simp]:
  "key_cache_safe (GET k)" "key_cache_safe (DEL ks)" "key_cache_safe (EXISTS k)" "key_cache_safe PING"
  "key_cache_safe (SCAN n p)" "key_cache_safe (INCR (rateLimitKey ip))" "key_cache_safe (EXPIRE (rateLimitKey ip) d)"
  "key_cache_safe (SET (jwtBlockKey j) x d)" "key_cache_safe (SET (machineCacheKey k' a) x d)"
  "key_cache_safe (SET (apiKeyCacheKey h) (JStr s) d)"
  by (auto simp: key_cache_safe_def apiKeyCacheKey_def rateLimitKey_def jwtBlockKey_def machineCacheKey_def)

lemma keeps_comp: "keeps f m \<Longrightarrow> keeps (\<lambda>w. h (f w)) m"
  by (simp add: keeps_def)

lemma keeps_preserves: "keeps f m \<Longrightarrow> preserves (\<lambda>w. P (f w)) m"
  by (simp add: keeps_def preserves_def)

definition cache_inv :: "('l \<Rightarrow> rview) \<Rightarrow> ('r, 'l, 'd) world \<Rightarrow> bool" where
  "cache_inv al w \<longleftrightarrow> key_cache_unreadable (al (lru w))"

lemma cache_inv_off: "keeps lru m \<Longrightarrow> preserves (cache_inv al) m"
  by (simp add: keeps_def preserves_def cache_inv_def)

context deployment
begin

lemma cache_inv_cmd [hoare]: "key_cache_safe c \<Longrightarrow> preserves (cache_inv al) (Cache E c)"
  unfolding cache_inv_def by (rule preservesI) (metis Cache_err key_cache_lru_ok)

end

text \<open>Every operation keeps the API key cache unreadable.\<close>

lemma store_keeps_lru: "off_pg (\<lambda>w. lru w)"
  by (simp add: off_pg_def)

context deployment
begin

lemma cache_inv_pipe2 [hoare]:
  "key_cache_safe a \<Longrightarrow> key_cache_safe b \<Longrightarrow> preserves (cache_inv al) (pipe2 E Cache a b)"
  unfolding pipe2_def by (intro hoare)

lemma cache_inv_ops [hoare]:
  "preserves (cache_inv al) (SetAPIKeyCache E h (Bytes d) ttl)"
  "preserves (cache_inv al) (GetAPIKeyCache E h)" "preserves (cache_inv al) (DeleteAPIKeyCache E h)"
  "preserves (cache_inv al) (IncrAuthFailure E ip wd)" "preserves (cache_inv al) (GetAuthFailures E ip)"
  "preserves (cache_inv al) (BlockJWT E j ttl)" "preserves (cache_inv al) (IsJWTBlocked E j)"
  "preserves (cache_inv al) (GetMachineAllowed E i a)" "preserves (cache_inv al) (SetMachineAllowed E i a b ttl)"
  unfolding lru_defs by (auto intro!: hoare simp del: preserves_return)

lemmas cache_inv_frame = cache_inv_off

lemma GetAPIKeyCache_entry:
  assumes "run_state (GetAPIKeyCache E h) w = (Inr (Some d), w')"
  shows "\<exists>e. rstr (al (lru w)) (apiKeyCacheKey h) = Some (d, e)"
proof -
  obtain x where x: "run_state (Cache E (GET (apiKeyCacheKey h))) w = (Inr x, w')" and d: "x = RBulk d"
    using assms by (auto simp: GetAPIKeyCache_def bytes_or_nil_def split: prod.splits sum.splits rreply.splits)
  obtain u where u: "evict (al (lru w)) u" "x = fst (redis_step (clock w) (GET (apiKeyCacheKey h)) u)"
    using lru_okE [OF Cache_ok [OF x]] by auto
  then have "\<exists>e. rstr u (apiKeyCacheKey h) = Some (d, e)"
    using d by (auto simp: live_def split: option.splits if_splits)
  with u(1) show ?thesis unfolding evict_def by (metis option.distinct(1))
qed

end

subsection \<open>Which keys are valid\<close>

text \<open>The decision of \<open>ValidateKey\<close> on the tables alone.\<close>

definition key_decision :: "('r, 'l, 'd) env \<Rightarrow> int \<Rightarrow> string \<Rightarrow> tables \<Rightarrow> CachedKey option" where
  "key_decision E now plaintext t = (case key_by_hash (HashKey plaintext) t of
     None \<Rightarrow> None
   | Some key \<Rightarrow> if Status key = APIKeyActive \<and> (case RotateAt key of None \<Rightarrow> True | Some r \<Rightarrow> now \<le> r)
       then Some (key_of_row E key) else None)"

context deployment
begin

lemma Marshal_key_Some [simp]: "\<exists>b. Marshal_key ck = Some b"
  by (simp add: Marshal_key_def)

lemma ValidateKeyDB_decides:
  assumes "run_state (ValidateKeyDB E cfg (HashKey p)) w = (Inr r, w')"
  shows "r = key_decision E (clock w) p (ad (pg w))"
proof -
  obtain x w1 where x: "run_state (GetAPIKeyByHash E (HashKey p)) w = (x, w1)" by (metis surj_pair)
  have c: "clock w1 = clock w" by (rule keepsD [OF store_query_keeps(1) [OF off_pg_proj(3)] x])
  show ?thesis
  proof (cases x)
    case (Inl e)
    then show ?thesis using assms x by (simp add: ValidateKeyDB_def)
  next
    case (Inr k)
    then have k: "k = key_by_hash (HashKey p) (ad (pg w))" using GetAPIKeyByHash_value x by blast
    show ?thesis
      using assms x Inr c
      by (auto simp: ValidateKeyDB_def key_decision_def k [symmetric] not_less Let_def
          split: option.splits if_splits prod.splits sum.splits)
  qed
qed

lemma ValidateKey_decides:
  assumes "cache_inv al w" and "run_state (ValidateKey E cfg p) w = (Inr r, w')"
  shows "r = key_decision E (clock w) p (ad (pg w))"
proof -
  obtain x w1 where x: "run_state (GetAPIKeyCache E (HashKey p)) w = (x, w1)" by (metis surj_pair)
  have w1: "clock w1 = clock w" "pg w1 = pg w"
    using keepsD [OF lru_keeps_clock(2) x] keepsD [OF lru_keeps(2) x] by simp_all
  have "run_state (ValidateKeyDB E cfg (HashKey p)) w1 = (Inr r, w')"
  proof (cases "\<exists>d. x = Inr (Some d)")
    case True
    then obtain d where d: "x = Inr (Some d)" by blast
    then obtain e where "rstr (al (lru w)) (apiKeyCacheKey (HashKey p)) = Some (d, e)"
      using GetAPIKeyCache_entry x by blast
    then have "Unmarshal_key d = None"
      using assms(1) unfolding cache_inv_def key_cache_unreadable_def by blast
    then show ?thesis using assms(2) x d by (simp add: ValidateKey_def Let_def)
  next
    case False
    then show ?thesis using assms(2) x
      by (auto simp: ValidateKey_def Let_def split: sum.splits option.splits)
  qed
  from ValidateKeyDB_decides [OF this] show ?thesis by (simp add: w1)
qed

end

context deployment
begin

lemma RegisterCheck_pure [hoare]: "keeps (\<lambda>w. ad (pg w)) (RegisterCheck E k a mx)"
  unfolding RegisterCheck_def
  by (intro keeps_option keeps_return keeps_bind keeps_sum keeps_pgreply pure_queries keeps_list pg_frames)+

lemma InsertNewMachine_error:
  assumes "run_state (InsertNewMachine E k a) w = (Inl e, w')"
  shows "e \<noteq> EMachineLimit"
proof -
  obtain x v where "run_state (DB E (Auto (InsertMachine (new_uuid E (seed w)) k a))) (w\<lparr>seed := Suc (seed w)\<rparr>) = (x, v)"
    by (metis surj_pair)
  then show ?thesis using assms
    by (cases x) (auto simp: InsertNewMachine_def split: if_splits)
qed

lemma RegisterMachine_refused:
  assumes "run_state (RegisterMachine E k a mx) w = (Inl EMachineLimit, w')"
  shows "ad (pg w') = ad (pg w)"
proof -
  obtain c w1 where c: "run_state (RegisterCheck E k a mx) w = (c, w1)" by (metis surj_pair)
  have "w' = w1"
  proof (cases c)
    case (Inr u)
    then have "run_state (InsertNewMachine E k a) w1 = (Inl EMachineLimit, w')"
      using assms c by (simp add: RegisterMachine_phases)
    then show ?thesis using InsertNewMachine_error by blast
  qed (use assms c in \<open>simp add: RegisterMachine_phases\<close>)
  then show ?thesis using keepsD [OF RegisterCheck_pure c] by simp
qed

lemma auth_pure [hoare]:
  "keeps (\<lambda>w. ad (pg w)) (GetMachineAllowed E i a)" "keeps (\<lambda>w. ad (pg w)) (SetMachineAllowed E i a b ttl)"
  "keeps (\<lambda>w. ad (pg w)) (GetAPIKeyCache E h)" "keeps (\<lambda>w. ad (pg w)) (SetAPIKeyCache E h pl ttl)"
  "keeps (\<lambda>w. ad (pg w)) (GetAuthFailures E ip)" "keeps (\<lambda>w. ad (pg w)) (recordFailure E cfg ip)"
  "keeps (\<lambda>w. ad (pg w)) (ValidateAdminToken E cfg tk)" "keeps (\<lambda>w. ad (pg w)) time_now"
  by (rule keeps_comp [where f = pg], (rule lru_keeps auth_keeps_pg time_now_keeps))+

lemma ValidateKey_pure [hoare]: "keeps (\<lambda>w. ad (pg w)) (ValidateKey E cfg p)"
  unfolding ValidateKey_def ValidateKeyDB_def Let_def by (intro hoare)

lemma CheckMachineBinding_denied:
  assumes "run_state (CheckMachineBinding E ck a) w = (Inl e, w')"
  shows "ad (pg w') = ad (pg w)"
proof (cases "uuid_prs E (ck_ID ck)")
  case None
  then show ?thesis using assms by (simp add: CheckMachineBinding_def)
next
  case (Some k)
  show ?thesis
  proof (cases "a = []")
    case True
    obtain x w1 where x: "run_state (CountMachines E k) w = (x, w1)" by (metis surj_pair)
    then have "w' = w1" using assms Some True by (simp add: CheckMachineBinding_def)
    then show ?thesis using keepsD [OF store_queries_pure(5) x] by simp
  next
    case False
    obtain g w1 where g: "run_state (GetMachineAllowed E (ck_ID ck) a) w = (g, w1)" by (metis surj_pair)
    have p1: "ad (pg w1) = ad (pg w)" by (rule keepsD [OF auth_pure(1) g])
    consider "w' = w1" | "run_state (CheckMachineDB E ck k a) w1 = (Inl e, w')"
      using assms Some False g
      by (auto simp: CheckMachineBinding_def split: sum.splits prod.splits bool.splits)
    then show ?thesis
    proof cases
      case 2
      obtain b w2 m w3 r w4 where b: "run_state (IsMachineRegistered E k a) w1 = (b, w2)"
        and m: "run_state (GetMaxMachines E k) w2 = (m, w3)"
        and r: "run_state (RegisterMachine E k a (case m of Inl _ \<Rightarrow> None | Inr mx \<Rightarrow> mx)) w3 = (r, w4)"
        by (metis surj_pair)
      have rl: "r = Inl EMachineLimit \<and> (\<exists>x. run_state (SetMachineAllowed E (ck_ID ck) a False MachineCacheTTL) w4 = (x, w'))"
        using 2 b m r
        by (auto simp: CheckMachineDB_def Let_def split: sum.splits prod.splits bool.splits goerr.splits)
      then obtain x where x: "run_state (SetMachineAllowed E (ck_ID ck) a False MachineCacheTTL) w4 = (x, w')" by blast
      have "ad (pg w4) = ad (pg w3)" using RegisterMachine_refused r rl by blast
      then show ?thesis
        using p1 keepsD [OF store_queries_pure(6) b] keepsD [OF store_queries_pure(7) m] keepsD [OF auth_pure(2) x]
        by simp
    qed (simp add: p1)
  qed
qed

lemma APIKeyMiddleware_cases:
  assumes "cache_inv al w" and "run_state (APIKeyMiddleware E cfg scope nxt r) w = (resp, w')"
  shows "(\<exists>ck w1. key_decision E (clock w) (rq_header r ''X-API-Key'') (ad (pg w)) = Some ck
            \<and> (scope \<noteq> [] \<longrightarrow> HasScope ck scope) \<and> run_state (nxt ck r) w1 = (resp, w'))
       \<or> (status resp \<in> {401, 403, 429, 500} \<and> ad (pg w') = ad (pg w) \<and> crit w' = crit w)"
proof -
  let ?rej = "status resp \<in> {401, 403, 429, 500} \<and> ad (pg w') = ad (pg w) \<and> crit w' = crit w"
  obtain f w1 where f: "run_state (GetAuthFailures E (realIP r)) w = (f, w1)" by (metis surj_pair)
  have 1: "ad (pg w1) = ad (pg w)" "crit w1 = crit w" "clock w1 = clock w"
    using keepsD [OF auth_pure(5) f] keepsD [OF lru_keeps_crit(5) f] keepsD [OF lru_keeps_clock(5) f] by simp_all
  have inv1: "cache_inv al w1" using preservesD [OF cache_inv_ops(5) f assms(1)] .
  have rej: "ad (pg v') = ad (pg v) \<and> crit v' = crit v" if "run_state (recordFailure E cfg ip) v = (u, v')" for ip u v v'
    using keepsD [OF auth_pure(6) that] keepsD [OF auth_keeps_crit(10) that] by simp
  show ?thesis
  proof (cases "(case f of Inl _ \<Rightarrow> 0 | Inr n \<Rightarrow> n) \<ge> RateLimitMaxFail cfg \<or> rq_header r ''X-API-Key'' = []")
    case True
    then have ?rej using assms(2) f 1 rej
      by (auto simp: APIKeyMiddleware_def Let_def writeJSONError_def split: prod.splits if_splits sum.splits)
    then show ?thesis ..
  next
    case False
    obtain v w2 where v: "run_state (ValidateKey E cfg (rq_header r ''X-API-Key'')) w1 = (v, w2)" by (metis surj_pair)
    have 2: "ad (pg w2) = ad (pg w)" "crit w2 = crit w"
      using keepsD [OF ValidateKey_pure v] keepsD [OF auth_keeps_crit(2) v] 1 by simp_all
    have m: "run_state (case v of Inl _ \<Rightarrow> ret (writeJSONError (EMsg ''internal error'') 500)
         | Inr None \<Rightarrow> do {
             _ \<leftarrow> recordFailure E cfg (realIP r);
             ret (writeJSONError (EMsg ''invalid or revoked api key'') 401) }
         | Inr (Some ck) \<Rightarrow>
             if scope \<noteq> [] \<and> \<not> HasScope ck scope
             then ret (writeJSONError (EMsg ''insufficient scope'') 403)
             else do {
               b \<leftarrow> CheckMachineBinding E ck (TrimSpace (rq_header r ''X-Account-ID''));
               case b of
                 Inl e \<Rightarrow> ret (writeJSONError e 403)
               | Inr _ \<Rightarrow> nxt ck r }) w2 = (resp, w')"
      using assms(2) f False v by (simp add: APIKeyMiddleware_def Let_def split: sum.splits)
    show ?thesis
    proof (cases "\<exists>ck. v = Inr (Some ck) \<and> (scope \<noteq> [] \<longrightarrow> HasScope ck scope)")
      case True
      then obtain ck where ck: "v = Inr (Some ck)" "scope \<noteq> [] \<longrightarrow> HasScope ck scope" by blast
      have d: "key_decision E (clock w) (rq_header r ''X-API-Key'') (ad (pg w)) = Some ck"
        using ValidateKey_decides [OF inv1 v [unfolded ck(1)]] 1 by simp
      obtain b w3 where b: "run_state (CheckMachineBinding E ck (TrimSpace (rq_header r ''X-Account-ID''))) w2 = (b, w3)"
        by (metis surj_pair)
      show ?thesis
      proof (cases b)
        case (Inl e)
        then have "resp = writeJSONError e 403" "w' = w3" using m ck b by auto
        then show ?thesis
          using CheckMachineBinding_denied [OF b [unfolded Inl]] keepsD [OF auth_keeps_crit(4) b] 2
          by (simp add: writeJSONError_def)
      next
        case (Inr u)
        then have "run_state (nxt ck r) w3 = (resp, w')" using m ck b by auto
        with d ck(2) show ?thesis by blast
      qed
    next
      case no: False
      then have ?rej using m 2 rej
        by (auto simp: writeJSONError_def split: sum.splits option.splits if_splits prod.splits)
      then show ?thesis ..
    qed
  qed
qed

end

end
