(* ===== verification/AuthFacts.thy ===== *)
theory AuthFacts
  imports Auth
begin

text \<open>
  What authentication guarantees: which API keys are valid and when a revocation takes effect,
  what reaches a guarded handler, how failures are counted, and what becomes of a token.
\<close>

subsection \<open>A configuration and a key for concrete instances\<close>

definition demo_cfg :: AuthConfig where
  "demo_cfg = \<lparr>SignalHMACSecret = ''hmac'', SignalTimestampTTL = 30 * Second, KeyCacheTTL = 5 * Minute,
     RateLimitWindow = 15 * Minute, RateLimitMaxFail = 10, DeduplicateTTL = 60 * Second,
     JWTSecret = ''jwt'', JWTAccessTokenTTL = 15 * Minute, JWTRefreshTokenTTL = 7 * 24 * Hour,
     AdminUsername = ''root'', AdminPasswordHash = ''pw''\<rparr>"

definition demo_ck :: CachedKey where
  "demo_ck = \<lparr>ck_ID = uuid_string 7, ck_Owner = ''desk'', ck_Scopes = [''copy:receive''], ck_Status = ''active''\<rparr>"

lemma demo_key_of_row: "key_of_row calm_env (scan_key_row (demo_key 7 h ''active'' mx)) = demo_ck"
  by (simp add: key_of_row_def scan_key_row_def demo_key_def demo_ck_def parsePostgresArray_def Trim_def TrimSpace_def is_space_def)

lemma demo_validate:
  "\<exists>w'. run_state (ValidateKey calm_env demo_cfg ''k'') (calm_world (demo_tables (HashKey ''k'') ''active'' None) 0)
     = (Inr (Some demo_ck), w')"
  using demo_key_of_row [of "HashKey ''k''" None]
  by (simp add: ValidateKey_def ValidateKeyDB_def GetAPIKeyCache_def GetAPIKeyByHash_def SetAPIKeyCache_def
      bytes_or_nil_def first_key_def demo_key_def Marshal_key_def APIKeyActive_def scan_key_row_def Let_def)

subsection \<open>Which keys are valid\<close>

lemma cache_inv_empty [simp]: "cache_inv id (calm_world t now)"
  by (simp add: cache_inv_def key_cache_unreadable_def calm_world_def)

lemma upd_row: "r \<in> set (upd P f rs) \<Longrightarrow> \<exists>q. r = (if P q then f q else q)"
  by (simp add: upd_def image_iff) blast

context deployment
begin

lemma cache_inv_ValidateKey [hoare]: "preserves (cache_inv al) (ValidateKey E cfg p)"
proof -
  have off: "preserves (cache_inv al) (GetAPIKeyByHash E h)" "preserves (cache_inv al) time_now"
    "preserves (cache_inv al) (spawn a)" for h a
    by (rule cache_inv_off, (rule store_query_keeps off_pg_proj time_now_keeps spawn_keeps)+)+
  show ?thesis
    unfolding ValidateKey_def ValidateKeyDB_def Let_def
    by (intro preserves_bind preserves_sum preserves_option preserves_if preserves_return cache_inv_ops off)+
qed

lemma DB_no_error: "run_state (DB E c) w \<noteq> (Inr (PErr m), w')"
  by (auto simp: DB_def split: prod.splits elim!: pg_result.elims)

lemma SetAPIKeyStatus_ok:
  assumes "run_state (SetAPIKeyStatus E i st) w = (Inr (), w')" and "r \<in> set (api_keys (ad (pg w')))" and "kr_id r = i"
  shows "kr_status r = st"
proof -
  obtain x where x: "run_state (DB E (Auto (UpdateKeyStatus st i))) w = (x, w')" "exec_result x = Inr ()"
    using assms(1) by (auto simp: SetAPIKeyStatus_def split: prod.splits)
  have v: "x \<noteq> Inl e" for e using x(2) by (auto simp: exec_result_def)
  then obtain y where y: "x = Inr y" by (cases x) auto
  have n: "\<not> (has_key i (ad (pg w)) \<and> st \<notin> set key_statuses)"
  proof
    assume "has_key i (ad (pg w)) \<and> st \<notin> set key_statuses"
    then have "y = check_violation" using query_answer(1) [of "UpdateKeyStatus st i" w y w'] x(1) y by simp
    then show False using x(1) y DB_no_error by (simp add: check_violation_def)
  qed
  have e: "api_keys (ad (pg w')) = upd (\<lambda>r. kr_id r = i) (\<lambda>r. r\<lparr>kr_status := st\<rparr>) (api_keys (ad (pg w)))"
    using update_ok [OF x] unfolding sql_step.simps if_not_P [OF n] by simp
  obtain q where "r = (if kr_id q = i then q\<lparr>kr_status := st\<rparr> else q)"
    using upd_row [OF assms(2) [unfolded e]] by (elim exE)
  then show ?thesis using assms(3) by (cases "kr_id q = i") simp_all
qed

end

lemma first_key_Some: "first_key rs = Some key \<Longrightarrow> \<exists>r \<in> set rs. key = scan_key_row r"
  by (cases rs) (auto simp: first_key_def)

lemma key_decision_Some:
  assumes "key_decision E now p t = Some ck"
  shows "\<exists>r \<in> set (api_keys t). kr_hash r = HashKey p \<and> kr_status r = APIKeyActive
    \<and> (case kr_rotate_at r of None \<Rightarrow> True | Some d \<Rightarrow> now \<le> d) \<and> ck = key_of_row E (scan_key_row r)"
proof -
  obtain key where k: "key_by_hash (HashKey p) t = Some key" "Status key = APIKeyActive"
    "case RotateAt key of None \<Rightarrow> True | Some d \<Rightarrow> now \<le> d" "ck = key_of_row E key"
    using assms unfolding key_decision_def by (auto split: option.splits if_splits)
  obtain r where "r \<in> set (filter (\<lambda>r. kr_hash r = HashKey p) (api_keys t))" "key = scan_key_row r"
    using first_key_Some k(1) unfolding key_by_hash_def by blast
  with k(2-4) show ?thesis by (intro bexI [of _ r]) (auto simp: scan_key_row_def)
qed

text \<open>
  The API key cache never decides. Whatever the cache server does, a ValidateKey that returns
  returns what the tables say at that moment: the key with the hash of the text, if it is active
  and its rotation time has not passed. (The cached text is a JSON string of base64, which no
  lookup reads back as a key; ValidateKey keeps it so.)
\<close>

theorem ValidateKey_tables_decide:
  assumes "deployment E ac al ad D" and "cache_inv al w"
    and "run_state (ValidateKey E cfg plaintext) w = (Inr r, w')"
  shows "r = key_decision E (clock w) plaintext (ad (pg w)) \<and> cache_inv al w'"
  using deployment.ValidateKey_decides [OF assms] preservesD [OF deployment.cache_inv_ValidateKey [OF assms(1)] assms(3,2)]
  by blast

theorem ValidateKey_tables_decide_witness:
  "key_decision calm_env 0 ''k'' (demo_tables (HashKey ''k'') ''active'' None) = Some demo_ck"
proof -
  obtain w' where "run_state (ValidateKey calm_env demo_cfg ''k'') (calm_world (demo_tables (HashKey ''k'') ''active'' None) 0)
     = (Inr (Some demo_ck), w')"
    using demo_validate by blast
  from ValidateKey_tables_decide [OF calm_deployment cache_inv_empty this] show ?thesis by simp
qed

text \<open>
  C18: A revocation takes effect at once: after SetAPIKeyStatus has set a key to any status but
  active, no text validates as that key, although the cache may still hold it.
\<close>

theorem revocation_immediate:
  assumes "deployment E ac al ad D" and "cache_inv al w" and "st \<noteq> APIKeyActive"
    and "run_state (SetAPIKeyStatus E i st) w = (Inr (), w1)"
    and "run_state (ValidateKey E cfg plaintext) w1 = (Inr (Some ck), w2)"
  shows "ck_ID ck \<noteq> uuid_str E i"
proof
  assume i: "ck_ID ck = uuid_str E i"
  have inv: "cache_inv al w1"
    using preservesD [OF cache_inv_off [OF store_update_keeps(2) [OF off_pg_proj(2)]] assms(4,2)] .
  have "key_decision E (clock w1) plaintext (ad (pg w1)) = Some ck"
    using deployment.ValidateKey_decides [OF assms(1) inv assms(5)] by simp
  then obtain r where r: "r \<in> set (api_keys (ad (pg w1)))" "kr_status r = APIKeyActive" "uuid_str E (kr_id r) = ck_ID ck"
    using key_decision_Some by (fastforce simp: key_of_row_def scan_key_row_def)
  have "kr_id r = i"
    using r(3) i uuid_text.str_inj deployment.axioms(4) [OF assms(1)] by metis
  from deployment.SetAPIKeyStatus_ok [OF assms(1,4) r(1) this] r(2) assms(3) show False by simp
qed

definition two_keys :: tables where
  "two_keys = empty_tables\<lparr>api_keys := [demo_key 8 (HashKey ''k'') ''active'' None, demo_key 7 [] ''active'' None]\<rparr>"

theorem revocation_immediate_witness:
  "\<exists>w1 ck w2. run_state (SetAPIKeyStatus calm_env 7 ''revoked'') (calm_world two_keys 0) = (Inr (), w1)
    \<and> run_state (ValidateKey calm_env demo_cfg ''k'') w1 = (Inr (Some ck), w2) \<and> ck_ID ck \<noteq> uuid_string 7"
proof -
  obtain w1 where w1: "run_state (SetAPIKeyStatus calm_env 7 ''revoked'') (calm_world two_keys 0) = (Inr (), w1)"
    and t: "api_keys (pg w1) = [demo_key 8 (HashKey ''k'') ''active'' None, demo_key 7 [] ''revoked'' None]"
    and l: "lru w1 = empty_rview"
    by (simp add: SetAPIKeyStatus_def two_keys_def exec_result_def hits_def upd_def demo_key_def key_statuses_def)
  obtain ck w2 where v: "run_state (ValidateKey calm_env demo_cfg ''k'') w1 = (Inr (Some ck), w2)"
    by (simp add: ValidateKey_def ValidateKeyDB_def GetAPIKeyCache_def GetAPIKeyByHash_def SetAPIKeyCache_def
      bytes_or_nil_def first_key_def demo_key_def Marshal_key_def APIKeyActive_def scan_key_row_def Let_def t l)
  have "''revoked'' \<noteq> APIKeyActive" by (simp add: APIKeyActive_def)
  from revocation_immediate [OF calm_deployment cache_inv_empty this w1 v] w1 v show ?thesis by auto
qed

subsection \<open>What reaches a guarded handler\<close>

text \<open>
  C15: The API key middleware guards its handler: whatever the servers do, a request reaches it
  only with a key that the tables hold as active and not rotated out, and that has the required
  scope; every other request is answered 401, 403, 429 or 500 and leaves the tables and the
  critical server as they were.
\<close>

theorem APIKeyMiddleware_guards:
  assumes "deployment E ac al ad D" and "cache_inv al w"
    and "run_state (APIKeyMiddleware E cfg scope nxt r) w = (resp, w')"
  shows "(\<exists>ck w1. key_decision E (clock w) (rq_header r ''X-API-Key'') (ad (pg w)) = Some ck
            \<and> (scope \<noteq> [] \<longrightarrow> HasScope ck scope) \<and> run_state (nxt ck r) w1 = (resp, w'))
       \<or> (status resp \<in> {401, 403, 429, 500} \<and> ad (pg w') = ad (pg w) \<and> crit w' = crit w)"
  using assms by (rule deployment.APIKeyMiddleware_cases)

definition bare_request :: "(string \<times> string) list \<Rightarrow> request" where
  "bare_request hs = \<lparr>rq_method = ''GET'', rq_path = ''/pending/EURUSD'',
     rq_header = (\<lambda>k. case map_of hs k of Some v \<Rightarrow> v | None \<Rightarrow> []), rq_value = (\<lambda>k. []), rq_query = (\<lambda>k. []),
     rq_body = None, rq_remote = ''10.0.0.9:4711''\<rparr>"

theorem APIKeyMiddleware_guards_witness:
  "\<exists>resp w'. run_state (APIKeyMiddleware calm_env demo_cfg ScopeSignalsRead (\<lambda>ck r. ret \<lparr>status = 200, headers = [], rbody = NoBody\<rparr>)
       (bare_request [(''X-API-Key'', ''k'')])) (calm_world (demo_tables (HashKey ''k'') ''active'' None) 0) = (resp, w')
     \<and> status resp \<in> {401, 403, 429, 500}"
proof -
  let ?w = "calm_world (demo_tables (HashKey ''k'') ''active'' None) 0"
  let ?m = "APIKeyMiddleware calm_env demo_cfg ScopeSignalsRead (\<lambda>ck r. ret \<lparr>status = 200, headers = [], rbody = NoBody\<rparr>)
       (bare_request [(''X-API-Key'', ''k'')])"
  obtain resp w' where r: "run_state ?m ?w = (resp, w')" by (metis surj_pair)
  have "\<not> HasScope demo_ck ScopeSignalsRead"
    by (simp add: HasScope_def demo_ck_def ScopeSignalsRead_def)
  moreover obtain v where "run_state (ValidateKey calm_env demo_cfg ''k'') ?w = (Inr (Some demo_ck), v)"
    using demo_validate by blast
  then have "key_decision calm_env 0 ''k'' (demo_tables (HashKey ''k'') ''active'' None) = Some demo_ck"
    using calm.ValidateKey_decides [of ?w demo_cfg "''k''" "Some demo_ck" v] by simp
  moreover have "ScopeSignalsRead \<noteq> []" by (simp add: ScopeSignalsRead_def)
  ultimately have "status resp \<in> {401, 403, 429, 500}"
    using APIKeyMiddleware_guards [OF calm_deployment cache_inv_empty r] by (auto simp: bare_request_def)
  with r show ?thesis by blast
qed

subsection \<open>Counting failures\<close>

text \<open>A cache server that answers every call; together with \<open>critical_redis\<close>, one that evicts nothing.\<close>

definition reliable_cache :: "('r, 'l, 'd) env \<Rightarrow> bool" where
  "reliable_cache E \<longleftrightarrow> (\<forall>now c s. \<exists>x s'. lru_srv E now c s = (Inr x, s'))"

lemma reliable_cache_calm [simp]: "reliable_cache calm_env"
  by (simp add: reliable_cache_def faultless_def split: prod.splits)

lemma calm_lru_keeps: "critical_redis (lru_srv calm_env) id"
  using calm.crit.critical_redis_axioms by simp

text \<open>Two states of the cache that agree from now on.\<close>

definition lives_as :: "int \<Rightarrow> rview \<Rightarrow> rview \<Rightarrow> bool" where
  "lives_as now v v' \<longleftrightarrow> (\<forall>t \<ge> now. \<forall>k. live t v k = live t v' k)"

lemma lives_asD: "lives_as now v v' \<Longrightarrow> now \<le> t \<Longrightarrow> live t v k = live t v' k"
  by (simp add: lives_as_def)

text \<open>The failures counted for an address at time \<open>t\<close>.\<close>

definition failures_are :: "string \<Rightarrow> int \<Rightarrow> rview \<Rightarrow> int \<Rightarrow> bool" where
  "failures_are ip t v n \<longleftrightarrow> live t v (rateLimitKey ip) = (if n = 0 then None else Some (JInt n))"

fun bad_requests :: "('r, 'l, 'd) env \<Rightarrow> AuthConfig \<Rightarrow> string
    \<Rightarrow> (CachedKey \<Rightarrow> request \<Rightarrow> ('r, 'l, 'd, response) io) \<Rightarrow> request \<Rightarrow> int list \<Rightarrow> ('r, 'l, 'd, nat list) io" where
  "bad_requests E cfg scope nxt r [] = ret []"
| "bad_requests E cfg scope nxt r (d # ds) = do {
     resp \<leftarrow> APIKeyMiddleware E cfg scope nxt r;
     _ \<leftarrow> sleep d;
     ss \<leftarrow> bad_requests E cfg scope nxt r ds;
     ret (status resp # ss) }"

context deployment
begin

lemma reliable_Cache:
  assumes "reliable_cache E" and "critical_redis (lru_srv E) al" and "\<not> is_scan c"
  shows "\<exists>w'. run_state (Cache E c) w = (redis_result (Inr (fst (redis_step (clock w) c (al (lru w))))), w')
    \<and> lives_as (clock w) (al (lru w')) (snd (redis_step (clock w) c (al (lru w)))) \<and> clock w' = clock w"
proof -
  obtain x s where x: "lru_srv E (clock w) c (lru w) = (Inr x, s)"
    using assms(1) unfolding reliable_cache_def by blast
  have "redis_ok (clock w) c (al (lru w)) x (al s)"
    using service.answer [OF critical_redis.axioms [OF assms(2)] x] .
  from redis_okD [OF this assms(3)] x show ?thesis
    by (simp add: Cache_def lives_as_def)
qed

lemma GetAuthFailures_spec:
  assumes "reliable_cache E" and "critical_redis (lru_srv E) al"
    and "failures_are ip (clock w) (al (lru w)) n" and "in64 n"
  shows "\<exists>w'. run_state (GetAuthFailures E ip) w = (Inr n, w')
    \<and> lives_as (clock w) (al (lru w')) (al (lru w)) \<and> clock w' = clock w"
  using reliable_Cache [OF assms(1,2), of "GET (rateLimitKey ip)" w] assms(3,4)
  by (auto simp: GetAuthFailures_def bytes_or_nil_def failures_are_def split: if_splits)

lemma recordFailure_spec:
  assumes "reliable_cache E" and "critical_redis (lru_srv E) al"
    and "failures_are ip (clock w) (al (lru w)) n" and "0 \<le> n" and "0 < RateLimitWindow cfg"
  shows "\<exists>w'. run_state (recordFailure E cfg ip) w = ((), w') \<and> clock w' = clock w
    \<and> (\<forall>t. clock w \<le> t \<longrightarrow> t < clock w + RateLimitWindow cfg \<longrightarrow> failures_are ip t (al (lru w')) (n + 1))"
proof -
  let ?k = "rateLimitKey ip" and ?d = "RateLimitWindow cfg"
  obtain w1 where w1: "run_state (Cache E (INCR ?k)) w = (Inr (RInt (n + 1)), w1)" "clock w1 = clock w"
    "live (clock w) (al (lru w1)) ?k = Some (JInt (n + 1))"
    using reliable_Cache [OF assms(1,2), of "INCR ?k" w] assms(3)
    by (auto simp: failures_are_def live_def dest!: lives_asD [where t = "clock w" and k = ?k]
        split: if_splits option.splits)
  obtain w2 where w2: "run_state (Cache E (EXPIRE ?k ?d)) w1 = (Inr (RInt 1), w2)" "clock w2 = clock w"
    and l: "lives_as (clock w) (al (lru w2)) (put ?k (JInt (n + 1)) (At (clock w + ?d)) (al (lru w1)))"
    using reliable_Cache [OF assms(1,2), of "EXPIRE ?k ?d" w1] w1(2,3) by auto
  have "failures_are ip t (al (lru w2)) (n + 1)" if "clock w \<le> t" "t < clock w + ?d" for t
    using lives_asD [OF l that(1)] that(2) assms(4) by (simp add: failures_are_def)
  with w1(1) w2 show ?thesis
    by (simp add: recordFailure_def IncrAuthFailure_def pipe2_def)
qed

lemma bad_request_step:
  assumes "reliable_cache E" and "critical_redis (lru_srv E) al"
    and "rq_header r ''X-API-Key'' = []" and "failures_are (realIP r) (clock w) (al (lru w)) n"
    and "0 \<le> n" and "in64 n" and "0 < RateLimitWindow cfg"
  shows "\<exists>resp w'. run_state (APIKeyMiddleware E cfg scope nxt r) w = (resp, w') \<and> clock w' = clock w
    \<and> (RateLimitMaxFail cfg \<le> n \<longrightarrow> status resp = 429)
    \<and> (n < RateLimitMaxFail cfg \<longrightarrow> status resp = 401 \<and> (\<forall>t. clock w \<le> t \<longrightarrow>
         t < clock w + RateLimitWindow cfg \<longrightarrow> failures_are (realIP r) t (al (lru w')) (n + 1)))"
proof -
  obtain w1 where w1: "run_state (GetAuthFailures E (realIP r)) w = (Inr n, w1)"
    "lives_as (clock w) (al (lru w1)) (al (lru w))" "clock w1 = clock w"
    using GetAuthFailures_spec [OF assms(1,2,4,6)] by blast
  show ?thesis
  proof (cases "RateLimitMaxFail cfg \<le> n")
    case True
    then show ?thesis using w1 by (simp add: APIKeyMiddleware_def Let_def writeJSONError_def)
  next
    case False
    have "failures_are (realIP r) (clock w1) (al (lru w1)) n"
      using assms(4) lives_asD [OF w1(2)] w1(3) by (simp add: failures_are_def)
    from recordFailure_spec [OF assms(1,2) this assms(5,7)] False w1 assms(3) show ?thesis
      by (auto simp: APIKeyMiddleware_def Let_def writeJSONError_def)
  qed
qed

lemma bad_requests_locked:
  assumes "reliable_cache E" and "critical_redis (lru_srv E) al" and "rq_header r ''X-API-Key'' = []"
    and "0 < RateLimitWindow cfg" and "in64 (RateLimitMaxFail cfg)"
    and "\<forall>d \<in> set ds. d < RateLimitWindow cfg"
    and "0 \<le> n" and "n \<le> RateLimitMaxFail cfg" and "length ds = Suc (nat (RateLimitMaxFail cfg - n))"
    and "failures_are (realIP r) (clock w) (al (lru w)) n"
  shows "fst (run_state (bad_requests E cfg scope nxt r ds) w) = replicate (nat (RateLimitMaxFail cfg - n)) 401 @ [429]"
  using assms(6-)
proof (induction ds arbitrary: n w)
  case (Cons d ds)
  have in64: "in64 n" using Cons.prems(2,3) assms(5) by (auto simp: in64_def min64_def)
  obtain resp w1 where s: "run_state (APIKeyMiddleware E cfg scope nxt r) w = (resp, w1)" "clock w1 = clock w"
    and locked: "RateLimitMaxFail cfg \<le> n \<longrightarrow> status resp = 429"
    and counted: "n < RateLimitMaxFail cfg \<longrightarrow> status resp = 401 \<and> (\<forall>t. clock w \<le> t \<longrightarrow>
         t < clock w + RateLimitWindow cfg \<longrightarrow> failures_are (realIP r) t (al (lru w1)) (n + 1))"
    using bad_request_step [OF assms(1-3) Cons.prems(5,2) in64 assms(4)] by blast
  show ?case
  proof (cases "n = RateLimitMaxFail cfg")
    case True
    then have "ds = []" using Cons.prems(4) by simp
    then show ?thesis using s locked True by simp
  next
    case False
    then have lt: "n < RateLimitMaxFail cfg" using Cons.prems(3) by simp
    define w2 where "w2 = w1\<lparr>clock := clock w1 + max 0 d\<rparr>"
    have "failures_are (realIP r) (clock w2) (al (lru w2)) (n + 1)"
      using counted lt Cons.prems(1) assms(4) s(2) by (simp add: w2_def)
    moreover have "length ds = Suc (nat (RateLimitMaxFail cfg - (n + 1)))"
      using Cons.prems(4) lt by simp
    ultimately have "fst (run_state (bad_requests E cfg scope nxt r ds) w2)
        = replicate (nat (RateLimitMaxFail cfg - (n + 1))) 401 @ [429]"
      using Cons.prems(1,2) lt by (intro Cons.IH) simp_all
    moreover have "nat (RateLimitMaxFail cfg - n) = Suc (nat (RateLimitMaxFail cfg - (n + 1)))"
      using lt by simp
    moreover obtain ss w3 where "run_state (bad_requests E cfg scope nxt r ds) w2 = (ss, w3)" by (metis surj_pair)
    ultimately show ?thesis
      using s counted lt by (simp add: w2_def)
  qed
qed simp

end



text \<open>
  The limit counts what the client claims to be: a request with the header X-Forwarded-For is
  counted under the first entry of that header, whatever its connection; a client that changes
  the header is never locked out, however many failures its own address has.
\<close>

theorem forwarded_header_chooses_counter:
  assumes "deployment E ac al ad D" and "reliable_cache E" and "critical_redis (lru_srv E) al"
    and "rq_header r ''X-Forwarded-For'' = claimed" and "claimed \<noteq> []" and "CHR '','' \<notin> set claimed"
    and "live (clock w) (al (lru w)) (rateLimitKey (TrimSpace claimed)) = None"
    and "rq_header r ''X-API-Key'' = []" and "0 < RateLimitMaxFail cfg" and "0 < RateLimitWindow cfg"
  shows "\<exists>resp w'. run_state (APIKeyMiddleware E cfg scope nxt r) w = (resp, w') \<and> status resp = 401"
proof -
  have ip: "realIP r = TrimSpace claimed"
    using assms(4-6) by (simp add: realIP_def Let_def Split_no_sep)
  have "in64 0" by (simp add: in64_def min64_def max64_def)
  moreover have "failures_are (realIP r) (clock w) (al (lru w)) 0"
    using assms(7) by (simp add: failures_are_def ip)
  ultimately show ?thesis
    using deployment.bad_request_step [OF assms(1-3,8), of w 0 cfg scope nxt] assms(9,10) by auto
qed

theorem forwarded_header_chooses_counter_witness:
  "\<exists>resp w'. run_state (APIKeyMiddleware calm_env demo_cfg ScopeCopyReceive (\<lambda>ck r. ret \<lparr>status = 200, headers = [], rbody = NoBody\<rparr>)
      (bare_request [(''X-Forwarded-For'', ''1.2.3.4'')]))
      ((calm_world empty_tables 0)\<lparr>lru := put (rateLimitKey ''10.0.0.9'') (JInt 500) Never empty_rview\<rparr>) = (resp, w')
    \<and> status resp = 401"
  using forwarded_header_chooses_counter [OF calm_deployment reliable_cache_calm calm_lru_keeps,
      of "bare_request [(''X-Forwarded-For'', ''1.2.3.4'')]" "''1.2.3.4''"
        "(calm_world empty_tables 0)\<lparr>lru := put (rateLimitKey ''10.0.0.9'') (JInt 500) Never empty_rview\<rparr>"
        demo_cfg ScopeCopyReceive "\<lambda>ck r. ret \<lparr>status = 200, headers = [], rbody = NoBody\<rparr>"]
  by (simp add: bare_request_def demo_cfg_def duration_units TrimSpace_def is_space_def)

subsection \<open>Administrator tokens\<close>

lemma numeric_date_seconds [simp]: "NewNumericDate t mod Second = 0"
  by (simp add: NewNumericDate_def)

lemma numeric_date_le: "NewNumericDate t \<le> t"
  unfolding NewNumericDate_def
  using div_mult_mod_eq [of t Second] pos_mod_sign [of Second t] by (simp add: Second_def)

text \<open>The claims of a token that \<open>makeToken\<close> signs.\<close>

definition token_claims :: "('r, 'l, 'd) env \<Rightarrow> ('r, 'l, 'd) world \<Rightarrow> string \<Rightarrow> int \<Rightarrow> string \<Rightarrow> AdminClaims" where
  "token_claims E w username ttl kind = \<lparr>Username = username, JTI = uuid_str E (new_uuid E (seed w)),
     Subject = username, IssuedAt = Some (NewNumericDate (clock w)),
     ExpiresAt = Some (NewNumericDate (clock w + ttl)), Issuer = ''mt4signal'',
     Audience = [''mt4signal-admin-'' @ kind]\<rparr>"

lemma makeToken_run:
  "run_state (makeToken E cfg u ttl kind) w = (svc_result (jwt_sign E (token_claims E w u ttl kind) (JWTSecret cfg)),
     w\<lparr>seed := Suc (seed w)\<rparr>)"
  by (simp add: makeToken_def token_claims_def Let_def)

definition jwt_blocked :: "int \<Rightarrow> rview \<Rightarrow> string \<Rightarrow> bool" where
  "jwt_blocked t v j \<longleftrightarrow> live t v (jwtBlockKey j) \<noteq> None"

context deployment
begin

lemma not_blocked:
  assumes "\<not> jwt_blocked (clock w) (al (lru w)) j" and "run_state (IsJWTBlocked E j) w = (b, w')"
  shows "b \<noteq> Inr True"
proof -
  obtain x where x: "run_state (Cache E (EXISTS (jwtBlockKey j))) w = (x, w')"
    and b: "b = (case int_reply x of Inl e \<Rightarrow> Inl e | Inr n \<Rightarrow> Inr (0 < n))"
    using assms(2) by (auto simp: IsJWTBlocked_def split: prod.splits)
  show ?thesis
  proof (cases x)
    case (Inr y)
    obtain u where u: "evict (al (lru w)) u" "y = fst (redis_step (clock w) (EXISTS (jwtBlockKey j)) u)"
      using lru_okE [OF Cache_ok [OF x [unfolded Inr]]] by auto
    have "live (clock w) u (jwtBlockKey j) = None"
      using evict_live [OF u(1), of "clock w" "jwtBlockKey j"] assms(1) by (auto simp: jwt_blocked_def)
    with u(2) show ?thesis by (simp add: b Inr int_reply_def)
  qed (simp add: b int_reply_def)
qed

lemma token_accepted:
  assumes "jwt_sign E (token_claims E w u ttl kind) (JWTSecret cfg) = Inr tk"
    and "clock w2 < NewNumericDate (clock w + ttl)"
    and "\<not> jwt_blocked (clock w2) (al (lru w2)) (JTI (token_claims E w u ttl kind))"
  shows "\<exists>w3. run_state (ValidateAdminToken E cfg tk) w2 = (Inr (token_claims E w u ttl kind), w3)"
proof -
  have "jwt_parse E (admin_keyfunc cfg) (clock w2) tk = Inr (token_claims E w u ttl kind, True)"
    by (rule tok.parse_signed [OF assms(1)])
       (use assms(2) in \<open>simp_all add: admin_keyfunc_def whole_seconds_def token_claims_def\<close>)
  moreover obtain b w3 where b: "run_state (IsJWTBlocked E (JTI (token_claims E w u ttl kind))) w2 = (b, w3)"
    by (metis surj_pair)
  moreover have "b \<noteq> Inr True" using not_blocked [OF assms(3) b] .
  ultimately show ?thesis
    by (cases b) (auto simp: ValidateAdminToken_def split: bool.splits)
qed

lemma refresh_token_opens:
  assumes "run_state (AdminLogin E cfg u pw) w = (Inr (access, refresh), w')" and "refresh \<noteq> []"
    and "clock w2 < NewNumericDate (clock w + JWTRefreshTokenTTL cfg)"
    and "\<forall>j. \<not> jwt_blocked (clock w2) (al (lru w2)) j"
    and "rq_header r ''Authorization'' = ''Bearer '' @ refresh"
  shows "\<exists>claims w3. Username claims = AdminUsername cfg \<and> Audience claims = [''mt4signal-admin-refresh'']
    \<and> run_state (JWTMiddleware E cfg nxt r) w2 = run_state (nxt claims r) w3"
proof -
  define v where "v = w\<lparr>seed := Suc (seed w)\<rparr>"
  have u: "u = AdminUsername cfg"
    and s: "jwt_sign E (token_claims E v u (JWTRefreshTokenTTL cfg) ''refresh'') (JWTSecret cfg) = Inr refresh"
    using assms(1) by (auto simp: AdminLogin_def makeToken_run v_def svc_result_def split: if_splits sum.splits)
  obtain w3 where "run_state (ValidateAdminToken E cfg refresh) w2
      = (Inr (token_claims E v u (JWTRefreshTokenTTL cfg) ''refresh''), w3)"
    using token_accepted [OF s] assms(3,4) by (auto simp: v_def)
  moreover have "extractBearer r = refresh"
    using assms(5) by (simp add: extractBearer_def HasPrefix_def)
  ultimately have "run_state (JWTMiddleware E cfg nxt r) w2
      = run_state (nxt (token_claims E v u (JWTRefreshTokenTTL cfg) ''refresh'') r) w3"
    using assms(2) by (simp add: JWTMiddleware_def)
  then show ?thesis
    by (intro exI [of _ "token_claims E v u (JWTRefreshTokenTTL cfg) ''refresh''"] exI [of _ w3])
       (simp add: token_claims_def u)
qed

lemma ValidateAdminToken_claims:
  assumes "run_state (ValidateAdminToken E cfg tk) w = (Inr c, w')"
  shows "\<exists>v. jwt_parse E (admin_keyfunc cfg) (clock w) tk = Inr (c, v)" and "clock w' = clock w"
  using assms keepsD [OF auth_keeps_clock(7) assms]
  by (auto simp: ValidateAdminToken_def split: sum.splits prod.splits if_splits bool.splits)

lemma BlockJWT_blocks:
  assumes "critical_redis (lru_srv E) al" and "run_state (BlockJWT E j ttl) w = (Inr (), w')"
    and "clock w \<le> t" and "t < clock w + ttl"
  shows "jwt_blocked t (al (lru w')) j"
proof -
  obtain x where x: "run_state (Cache E (SET (jwtBlockKey j) (JInt 1) ttl)) w = (Inr x, w')"
    using assms(2) by (auto simp: BlockJWT_def only_err_def split: prod.splits sum.splits)
  then have "redis_ok (clock w) (SET (jwtBlockKey j) (JInt 1) ttl) (al (lru w)) x (al (lru w'))"
    using service.answer [OF critical_redis.axioms [OF assms(1)]]
    by (auto simp: Cache_def split: prod.splits elim!: redis_result.elims)
  from redis_okD(3) [OF this _ assms(3), of "jwtBlockKey j"] assms(4) show ?thesis
    by (simp add: jwt_blocked_def)
qed

lemma revoked_token_refused:
  assumes "critical_redis (lru_srv E) al" and "reliable_cache E"
    and r: "run_state (RevokeAdminToken E cfg tk) w = (Inr (), w1)"
    and later: "clock w \<le> clock w2" "clock w2 - clock w < max64"
    and kept: "\<forall>j. jwt_blocked (clock w2) (al (lru w1)) j \<longrightarrow> jwt_blocked (clock w2) (al (lru w2)) j"
  shows "fst (run_state (ValidateAdminToken E cfg tk) w2) \<noteq> Inr c"
proof
  assume "fst (run_state (ValidateAdminToken E cfg tk) w2) = Inr c"
  then obtain w3 where c: "run_state (ValidateAdminToken E cfg tk) w2 = (Inr c, w3)" by (metis prod.collapse)
  obtain v where v: "jwt_parse E (admin_keyfunc cfg) (clock w2) tk = Inr (c, v)"
    using ValidateAdminToken_claims(1) [OF c] by blast
  obtain c0 wa where c0: "run_state (ValidateAdminToken E cfg tk) w = (Inr c0, wa)"
    using r by (auto simp: RevokeAdminToken_def split: prod.splits sum.splits)
  obtain v0 where v0: "jwt_parse E (admin_keyfunc cfg) (clock w) tk = Inr (c0, v0)" and wa: "clock wa = clock w"
    using ValidateAdminToken_claims [OF c0] by blast
  have same: "c = c0" using tok.parse_stable [OF v0 v] .
  obtain e where e: "ExpiresAt c0 = Some e"
    using r c0 by (auto simp: RevokeAdminToken_def split: option.splits)
  have lt: "clock w < e" "clock w2 < e"
    using tok.parse_unexpired [OF v0 e] tok.parse_unexpired [OF v] e same by simp_all
  then have pos: "0 < Sub e (clock w)" by (auto simp: Sub_def sat64_def min64_def max64_def)
  have "run_state (BlockJWT E (JTI c0) (Sub e (clock w))) wa = (Inr (), w1)"
    using r c0 e pos wa by (simp add: RevokeAdminToken_def Let_def)
  moreover have "clock w2 < clock wa + Sub e (clock w)"
    using lt later(2) wa by (auto simp: Sub_def sat64_def min64_def max64_def)
  ultimately have "jwt_blocked (clock w2) (al (lru w1)) (JTI c)"
    using BlockJWT_blocks [OF assms(1)] later(1) wa same by simp
  with kept have b: "jwt_blocked (clock w2) (al (lru w2)) (JTI c)" by blast
  obtain w4 where "run_state (IsJWTBlocked E (JTI c)) w2 = (Inr True, w4)"
    using reliable_Cache [OF assms(2,1), of "EXISTS (jwtBlockKey (JTI c))" w2] b
    by (auto simp: IsJWTBlocked_def jwt_blocked_def int_reply_def)
  with c v show False by (auto simp: ValidateAdminToken_def split: if_splits)
qed

end

text \<open>
  C36: The kind of a token is never checked: the refresh token of a login opens every handler
  behind the JWT middleware, with the administrator's claims, until it expires, if it is not on
  the blocklist.
\<close>

theorem refresh_token_is_access_token:
  assumes "deployment E ac al ad D" and "run_state (AdminLogin E cfg u pw) w = (Inr (access, refresh), w')"
    and "refresh \<noteq> []" and "clock w2 < NewNumericDate (clock w + JWTRefreshTokenTTL cfg)"
    and "\<forall>j. \<not> jwt_blocked (clock w2) (al (lru w2)) j"
    and "rq_header r ''Authorization'' = ''Bearer '' @ refresh"
  shows "\<exists>claims w3. Username claims = AdminUsername cfg \<and> Audience claims = [''mt4signal-admin-refresh'']
    \<and> run_state (JWTMiddleware E cfg nxt r) w2 = run_state (nxt claims r) w3"
  using assms by (rule deployment.refresh_token_opens)

theorem refresh_token_is_access_token_witness:
  "\<exists>refresh (claims :: AdminClaims) w3. Audience claims = [''mt4signal-admin-refresh'']
    \<and> run_state (JWTMiddleware calm_env demo_cfg (\<lambda>c r. ret \<lparr>status = 200, headers = [], rbody = NoBody\<rparr>)
        (bare_request [(''Authorization'', ''Bearer '' @ refresh)])) (calm_world empty_tables Hour)
      = run_state (ret \<lparr>status = 200, headers = [], rbody = NoBody\<rparr>) w3"
proof -
  obtain access refresh w' where l: "run_state (AdminLogin calm_env demo_cfg ''root'' ''pw'') (calm_world empty_tables 0)
      = (Inr (access, refresh), w')" and n: "refresh \<noteq> []"
    by (simp add: AdminLogin_def makeToken_run demo_cfg_def svc_result_def mem_jwt_sign_def)
  have h1: "clock (calm_world empty_tables Hour) < NewNumericDate (clock (calm_world empty_tables 0) + JWTRefreshTokenTTL demo_cfg)"
    by (simp add: demo_cfg_def duration_units NewNumericDate_def)
  have h2: "\<forall>j. \<not> jwt_blocked (clock (calm_world empty_tables Hour)) (id (lru (calm_world empty_tables Hour))) j"
    by (simp add: jwt_blocked_def)
  have h3: "rq_header (bare_request [(''Authorization'', ''Bearer '' @ refresh)]) ''Authorization'' = ''Bearer '' @ refresh"
    by (simp add: bare_request_def)
  from refresh_token_is_access_token [OF calm_deployment l n h1 h2 h3,
      where nxt = "\<lambda>c r. ret \<lparr>status = 200, headers = [], rbody = NoBody\<rparr>"]
  obtain claims :: AdminClaims and w3 where "Audience claims = [''mt4signal-admin-refresh'']"
    "run_state (JWTMiddleware calm_env demo_cfg (\<lambda>c r. ret \<lparr>status = 200, headers = [], rbody = NoBody\<rparr>)
        (bare_request [(''Authorization'', ''Bearer '' @ refresh)])) (calm_world empty_tables Hour)
      = run_state (ret \<lparr>status = 200, headers = [], rbody = NoBody\<rparr>) w3"
    by blast
  then show ?thesis by (intro exI [of _ refresh] exI [of _ claims] exI [of _ w3] conjI)
qed

text \<open>
  Logout works while the blocklist is kept: after a RevokeAdminToken that succeeds, on a
  cache server that answers and evicts nothing, the token is refused at every later time (within
  292 years) at which the entries of the blocklist that were alive still are.
\<close>

theorem revoked_token_stays_refused:
  assumes "deployment E ac al ad D" and "critical_redis (lru_srv E) al" and "reliable_cache E"
    and "run_state (RevokeAdminToken E cfg tk) w = (Inr (), w1)"
    and "clock w \<le> clock w2" and "clock w2 - clock w < max64"
    and "\<forall>j. jwt_blocked (clock w2) (al (lru w1)) j \<longrightarrow> jwt_blocked (clock w2) (al (lru w2)) j"
  shows "fst (run_state (ValidateAdminToken E cfg tk) w2) \<noteq> Inr c"
  using assms by (rule deployment.revoked_token_refused)

definition demo_claims :: AdminClaims where
  "demo_claims = \<lparr>Username = ''root'', JTI = uuid_string 1, Subject = ''root'', IssuedAt = Some 0,
     ExpiresAt = Some Hour, Issuer = ''mt4signal'', Audience = [''mt4signal-admin-access'']\<rparr>"

theorem revoked_token_stays_refused_witness:
  "\<exists>tk w1. run_state (RevokeAdminToken calm_env demo_cfg tk) (calm_world empty_tables 0) = (Inr (), w1)
    \<and> fst (run_state (ValidateAdminToken calm_env demo_cfg tk) w1) \<noteq> Inr demo_claims"
proof -
  let ?w = "calm_world empty_tables 0"
  obtain tk where tk: "jwt_sign calm_env (token_claims calm_env ?w ''root'' Hour ''access'') (JWTSecret demo_cfg) = Inr tk"
    by (simp add: mem_jwt_sign_def)
  obtain wa where v: "run_state (ValidateAdminToken calm_env demo_cfg tk) ?w
      = (Inr (token_claims calm_env ?w ''root'' Hour ''access''), wa)"
    using calm.token_accepted [OF tk, of ?w] by (auto simp: duration_units NewNumericDate_def jwt_blocked_def)
  have "clock wa = 0" using keepsD [OF auth_keeps_clock(7) v] by simp
  then obtain w1 where r: "run_state (RevokeAdminToken calm_env demo_cfg tk) ?w = (Inr (), w1)"
    using v by (cases "0 < Sub (NewNumericDate Hour) 0")
      (simp_all add: RevokeAdminToken_def token_claims_def BlockJWT_def only_err_def Let_def)
  have "clock w1 = 0" using keepsD [OF auth_keeps_clock(9) r] by simp
  then have "fst (run_state (ValidateAdminToken calm_env demo_cfg tk) w1) \<noteq> Inr demo_claims"
    using revoked_token_stays_refused [OF calm_deployment calm_lru_keeps reliable_cache_calm r, of w1 demo_claims]
    by (simp add: max64_def)
  with r show ?thesis by blast
qed

subsection \<open>Machines\<close>

context deployment
begin

lemma RemoveMachine_ok:
  assumes "run_state (RemoveMachine E k a) w = (Inr (), w')"
  shows "\<not> bound k a (ad (pg w'))" and "lru w' = lru w" and "clock w' = clock w"
proof -
  obtain x where x: "run_state (DB E (Auto (DeleteMachine k a))) w = (Inr x, w')"
    using assms by (auto simp: RemoveMachine_def split: prod.splits sum.splits)
  from query_answer(2) [OF x] show "\<not> bound k a (ad (pg w'))"
    by (auto simp: bound_def)
  show "lru w' = lru w" "clock w' = clock w"
    using keepsD [OF DB_keeps(2) x] keepsD [OF DB_keeps(3) x] by simp_all
qed

lemma cached_machine_allowed:
  assumes "reliable_cache E" and "critical_redis (lru_srv E) al"
    and "uuid_prs E (ck_ID ck) = Some k" and "a \<noteq> []"
    and "live (clock w) (al (lru w)) (machineCacheKey (ck_ID ck) a) = Some (JInt 1)"
  shows "\<exists>w'. run_state (CheckMachineBinding E ck a) w = (Inr (), w') \<and> ad (pg w') = ad (pg w)"
proof -
  obtain w1 where w1: "run_state (GetMachineAllowed E (ck_ID ck) a) w = (Inr (True, True), w1)"
    using reliable_Cache [OF assms(1,2), of "GET (machineCacheKey (ck_ID ck) a)" w] assms(5)
    by (auto simp: GetMachineAllowed_def bytes_or_nil_def)
  have "ad (pg w1) = ad (pg w)" by (rule keepsD [OF auth_pure(1) w1])
  with w1 assms(3,4) show ?thesis by (simp add: CheckMachineBinding_def)
qed

end

text \<open>
  Removing a machine does not take it out of the cache: while the cache still holds the flag
  that CheckMachineBinding wrote, the account passes the check although its registration, and
  with it the slot, is gone.
\<close>

theorem removed_machine_still_allowed:
  assumes "deployment E ac al ad D" and "reliable_cache E" and "critical_redis (lru_srv E) al"
    and "uuid_prs E (ck_ID ck) = Some k" and "a \<noteq> []"
    and "live (clock w) (al (lru w)) (machineCacheKey (ck_ID ck) a) = Some (JInt 1)"
    and "run_state (RemoveMachine E k a) w = (Inr (), w1)"
  shows "\<not> bound k a (ad (pg w1)) \<and>
    (\<exists>w2. run_state (CheckMachineBinding E ck a) w1 = (Inr (), w2) \<and> \<not> bound k a (ad (pg w2)))"
  using deployment.RemoveMachine_ok [OF assms(1,7)]
    deployment.cached_machine_allowed [OF assms(1-5), of w1] assms(6) by auto

theorem removed_machine_still_allowed_witness:
  "\<exists>w w1 w2. run_state (CheckMachineBinding calm_env demo_ck ''1001'') (calm_world (demo_tables [] ''active'' (Some 1)) 0) = (Inr (), w)
    \<and> run_state (RemoveMachine calm_env 7 ''1001'') w = (Inr (), w1)
    \<and> run_state (CheckMachineBinding calm_env demo_ck ''1001'') w1 = (Inr (), w2) \<and> \<not> bound 7 ''1001'' (pg w2)"
proof -
  have i: "uuid_prs calm_env (ck_ID demo_ck) = Some 7"
    by (simp add: demo_ck_def uuid_parse_string)
  obtain w where w: "run_state (CheckMachineBinding calm_env demo_ck ''1001'') (calm_world (demo_tables [] ''active'' (Some 1)) 0) = (Inr (), w)"
    and l: "live (clock w) (id (lru w)) (machineCacheKey (ck_ID demo_ck) ''1001'') = Some (JInt 1)"
    and t: "key_machines (pg w) = [\<lparr>mr_id = 1, mr_key = 7, mr_account = ''1001'', mr_registered = 0, mr_seen = 0\<rparr>]"
    using i by (simp add: CheckMachineBinding_def CheckMachineDB_def GetMachineAllowed_def IsMachineRegistered_def
        GetMaxMachines_def RegisterMachine_def InsertNewMachine_def SetMachineAllowed_def bytes_or_nil_def
        count_or_zero_def demo_key_def MachineCacheTTL_def duration_units Let_def only_err_def)
  obtain w1 where r: "run_state (RemoveMachine calm_env 7 ''1001'') w = (Inr (), w1)"
    using t by (simp add: RemoveMachine_def hits_def rows_affected_def)
  from removed_machine_still_allowed [OF calm_deployment reliable_cache_calm calm_lru_keeps i _ l r] w r
  show ?thesis by auto
qed

end
