(* ===== verification/SignalHandler.thy ===== *)
theory SignalHandler
  imports AuthFacts
begin

text \<open>
  \<open>internal/signal/handler.go\<close>: the endpoint that takes signals from the monitor EA (\<open>Receive\<close>)
  and the one the receiver EAs poll (\<open>GetPending\<close>), with what a request must bring to change
  anything, what an accepted signal leaves in the services, and what becomes of a repetition.
\<close>

subsection \<open>Checks on the payload\<close>

definition normalizeSymbol :: "string \<Rightarrow> string" where
  "normalizeSymbol s0 = (let s = ToUpper (TrimSpace s0) in
     case IndexByte s CHR ''.'' of Some idx \<Rightarrow> take idx s | None \<Rightarrow> s)"

definition validate :: "InboundSignal \<Rightarrow> unit result" where
  "validate sg =
     (if TicketID sg \<le> 0 then Inl (EMsg ''ticket_id required'')
      else if SignalType sg \<notin> set [SignalOpen, SignalModify, SignalClose, SignalPartial]
      then Inl (EMsg (''invalid signal_type: '' @ SignalType sg))
      else if Symbol sg = [] then Inl (EMsg ''symbol required'')
      else if Direction sg \<notin> set [''BUY'', ''SELL''] then Inl (EMsg ''direction must be BUY or SELL'')
      else if Price sg \<le> 0 then Inl (EMsg ''price must be > 0'')
      else if Lot sg \<le> 0 then Inl (EMsg ''lot must be > 0'')
      else Inr ())"

definition writeError :: "goerr \<Rightarrow> nat \<Rightarrow> response" where
  "writeError msg code = \<lparr>status = code, headers = json_type, rbody = Quoted msg\<rparr>"

subsection \<open>Taking a signal\<close>

definition store_signal :: "InboundSignal \<Rightarrow> StoreSignal" where
  "store_signal sg = \<lparr>st_TicketID = TicketID sg, st_SignalType = SignalType sg, st_Symbol = Symbol sg,
     st_Direction = Direction sg, st_Price = Price sg, st_SL = SL sg, st_TP = TP sg, st_Lot = Lot sg,
     st_SourceKeyID = None\<rparr>"

definition duplicate_response :: response where
  "duplicate_response = \<lparr>status = 200, headers = json_type, rbody = Doc (JObj [(''status'', JStr ''duplicate'')])\<rparr>"

text \<open>The keys of a Go map are encoded in sorted order.\<close>

definition accepted_response :: "('r, 'l, 'd) env \<Rightarrow> uuid \<Rightarrow> response" where
  "accepted_response E signalID = \<lparr>status = 200, headers = json_type,
     rbody = Doc (JObj [(''signal_id'', JStr (uuid_str E signalID)), (''status'', JStr ''accepted'')])\<rparr>"

text \<open>The second half of \<open>Receive\<close>, after the signature: deduplicate, store, publish, enqueue.\<close>

definition AcceptSignal ::
    "('r, 'l, 'd) env \<Rightarrow> AuthConfig \<Rightarrow> InboundSignal \<Rightarrow> ('r, 'l, 'd, response) io" where
  "AcceptSignal E cfg sg = do {
     d \<leftarrow> SetDedup E (TicketID sg) (SignalType sg) (DeduplicateTTL cfg);
     let isNew = (case d of Inl _ \<Rightarrow> False | Inr b \<Rightarrow> b);
     if \<not> isNew then ret duplicate_response
     else do {
       (signalID, ins) \<leftarrow> InsertSignal E (store_signal sg);
       case ins of
         Inl _ \<Rightarrow> ret (writeError (EMsg ''storage error'') 500)
       | Inr _ \<Rightarrow> do {
           _ \<leftarrow> SetLatestSignal E (Symbol sg) (Struct (Marshal_signal sg));
           jid \<leftarrow> uuid_New E;
           now \<leftarrow> time_now;
           let job = \<lparr>JobID = uuid_str E jid, SignalID = signalID, Signal = sg, Attempts = 0,
             EnqueuedAt = \<lparr>inst = now, zone = 0\<rparr>\<rparr>;
           _ \<leftarrow> EnqueueJob E (Symbol sg) (Struct (Marshal_job (uuid_str E) job));
           ret (accepted_response E signalID) } } }"

definition Receive ::
    "('r, 'l, 'd) env \<Rightarrow> AuthConfig \<Rightarrow> request \<Rightarrow> ('r, 'l, 'd, response) io" where
  "Receive E cfg r = (let signature = rq_header r ''X-Signal-Signature'';
       timestamp = rq_header r ''X-Signal-Timestamp'' in
     if signature = [] \<or> timestamp = [] then ret (writeError (EMsg ''missing signature headers'') 401)
     else (case Option.bind (rq_body r) Unmarshal_signal of
       None \<Rightarrow> ret (writeError (EMsg ''invalid payload'') 400)
     | Some sg0 \<Rightarrow>
         (case validate sg0 of
            Inl e \<Rightarrow> ret (writeError e 400)
          | Inr _ \<Rightarrow> do {
              let sg = sg0\<lparr>Symbol := normalizeSymbol (Symbol sg0)\<rparr>;
              now \<leftarrow> time_now;
              case VerifySignalHMACWithTTL now (SignalHMACSecret cfg) (FormatInt (TicketID sg))
                  (SignalType sg) (Symbol sg) timestamp signature (SignalTimestampTTL cfg) of
                Inl e \<Rightarrow> ret (writeError (EWrap ''unauthorized'' e) 401)
              | Inr _ \<Rightarrow> AcceptSignal E cfg sg })))"

subsection \<open>Polling\<close>

definition GetPending :: "('r, 'l, 'd) env \<Rightarrow> request \<Rightarrow> ('r, 'l, 'd, response) io" where
  "GetPending E r = (let symbol = ToUpper (rq_value r ''symbol'') in
     if symbol = [] then ret (writeError (EMsg ''symbol required'') 400)
     else do {
       x \<leftarrow> GetLatestSignal E symbol;
       ret (case x of
         Inl _ \<Rightarrow> writeError (EMsg ''cache error'') 500
       | Inr None \<Rightarrow> \<lparr>status = 204, headers = json_type, rbody = NoBody\<rparr>
       | Inr (Some d) \<Rightarrow> \<lparr>status = 200, headers = json_type, rbody = Doc d\<rparr>) })"

subsection \<open>Symbols\<close>

lemma IndexByte_take: "IndexByte s c = Some i \<Longrightarrow> c \<notin> set (take i s) \<and> i < length s \<and> s ! i = c"
  by (induction s arbitrary: i) (auto split: if_splits)

lemma normalizeSymbol_prefix: "\<exists>t. ToUpper (TrimSpace s) = normalizeSymbol s @ t \<and> (t = [] \<or> hd t = CHR ''.'')"
proof (cases "IndexByte (ToUpper (TrimSpace s)) CHR ''.''")
  case (Some i)
  then have "normalizeSymbol s = take i (ToUpper (TrimSpace s))" "hd (drop i (ToUpper (TrimSpace s))) = CHR ''.''"
    using IndexByte_take [OF Some] by (simp_all add: normalizeSymbol_def Let_def hd_drop_conv_nth)
  then show ?thesis by (metis append_take_drop_id)
qed (simp add: normalizeSymbol_def)

lemma normalizeSymbol_no_dot: "CHR ''.'' \<notin> set (normalizeSymbol s)"
  using IndexByte_take [of "ToUpper (TrimSpace s)" "CHR ''.''"]
  by (auto simp: normalizeSymbol_def Let_def IndexByte_None split: option.splits)

lemma ToUpper_normalizeSymbol [simp]: "ToUpper (normalizeSymbol s) = normalizeSymbol s"
  by (simp add: normalizeSymbol_def Let_def ToUpper_def take_map split: option.splits)

lemma normalizeSymbol_start: "normalizeSymbol s \<noteq> [] \<Longrightarrow> \<not> is_space (hd (normalizeSymbol s))"
proof -
  assume n: "normalizeSymbol s \<noteq> []"
  obtain t where t: "ToUpper (TrimSpace s) = normalizeSymbol s @ t" using normalizeSymbol_prefix by blast
  with n have "hd (normalizeSymbol s) = upper_char (hd (TrimSpace s))" "TrimSpace s \<noteq> []"
    by (cases "TrimSpace s"; cases "normalizeSymbol s"; simp add: ToUpper_def)+
  then show ?thesis using TrimSpace_ends [of s] by simp
qed

lemma normalizeSymbol_empty:
  "normalizeSymbol s = [] \<longleftrightarrow> TrimSpace s = [] \<or> hd (TrimSpace s) = CHR ''.''"
proof -
  have d: "upper_char c = CHR ''.'' \<longleftrightarrow> c = CHR ''.''" for c
  proof
    assume u: "upper_char c = CHR ''.''"
    have "of_char (upper_char c) = (46 :: nat)" unfolding u by simp
    then have "of_char c = (46 :: nat)" unfolding upper_char_code by (auto split: if_splits)
    then have "of_char c = (of_char CHR ''.'' :: nat)" by simp
    then show "c = CHR ''.''" by (metis char_of_char)
  qed (simp add: upper_char_def)
  show ?thesis
  proof (cases "TrimSpace s")
    case (Cons c cs)
    then show ?thesis by (auto simp: normalizeSymbol_def ToUpper_def d Let_def split: option.splits)
  qed (simp add: normalizeSymbol_def)
qed

text \<open>
  What normalizeSymbol makes of a symbol: no dot, no lower-case letter and no white space at
  the start; the empty text exactly for a symbol that is blank or begins with a dot (both pass the
  check "symbol required", which comes before); and it is not idempotent: applied again it changes
  exactly the symbols that ended in white space before their dot.
\<close>

theorem normalizeSymbol_form:
  "CHR ''.'' \<notin> set (normalizeSymbol s) \<and> ToUpper (normalizeSymbol s) = normalizeSymbol s
   \<and> (normalizeSymbol s = [] \<longleftrightarrow> TrimSpace s = [] \<or> hd (TrimSpace s) = CHR ''.'')
   \<and> (normalizeSymbol (normalizeSymbol s) \<noteq> normalizeSymbol s
       \<longleftrightarrow> normalizeSymbol s \<noteq> [] \<and> is_space (hd (rev (normalizeSymbol s))))"
proof -
  let ?n = "normalizeSymbol s"
  have "normalizeSymbol ?n = ToUpper (TrimSpace ?n)"
  proof -
    have "CHR ''.'' \<notin> set (TrimSpace ?n)"
      using normalizeSymbol_no_dot [of s] unfolding TrimSpace_def
      by (metis set_dropWhileD set_rev)
    then have "CHR ''.'' \<notin> set (ToUpper (TrimSpace ?n))"
      using ToUpper_normalizeSymbol [of s] normalizeSymbol_no_dot [of s]
      by (metis TrimSpace_ToUpper)
    then show ?thesis by (simp add: normalizeSymbol_def [of ?n] IndexByte_None [THEN iffD2])
  qed
  also have "\<dots> = TrimSpace ?n" by (simp add: TrimSpace_ToUpper [symmetric])
  finally have "normalizeSymbol ?n = TrimSpace ?n" .
  moreover have "TrimSpace ?n = ?n \<longleftrightarrow> ?n = [] \<or> \<not> is_space (hd (rev ?n))"
    using TrimSpace_ends [of ?n] TrimSpace_id [of ?n] normalizeSymbol_start [of s] by (auto simp: hd_rev)
  ultimately show ?thesis
    using normalizeSymbol_no_dot normalizeSymbol_empty by auto
qed

subsection \<open>What a request must bring\<close>

text \<open>The signal of a request that passes every check: decoded, valid, normalised, signed, fresh.\<close>

definition admissible :: "AuthConfig \<Rightarrow> int \<Rightarrow> request \<Rightarrow> InboundSignal \<Rightarrow> bool" where
  "admissible cfg now r sg \<longleftrightarrow> (\<exists>sg0. Option.bind (rq_body r) Unmarshal_signal = Some sg0 \<and> validate sg0 = Inr ()
     \<and> sg = sg0\<lparr>Symbol := normalizeSymbol (Symbol sg0)\<rparr>
     \<and> VerifySignalHMACWithTTL now (SignalHMACSecret cfg) (FormatInt (TicketID sg)) (SignalType sg) (Symbol sg)
         (rq_header r ''X-Signal-Timestamp'') (rq_header r ''X-Signal-Signature'') (SignalTimestampTTL cfg) = Inr ())"

lemma validate_ok:
  "validate sg = Inr () \<longleftrightarrow> 0 < TicketID sg \<and> SignalType sg \<in> {SignalOpen, SignalModify, SignalClose, SignalPartial}
     \<and> Symbol sg \<noteq> [] \<and> Direction sg \<in> {''BUY'', ''SELL''} \<and> 0 < Price sg \<and> 0 < Lot sg"
  by (auto simp: validate_def)

lemma Verify_headers:
  assumes "VerifySignalHMACWithTTL now secret tid ty smb ts sgt ttl = Inr ()"
  shows "ts \<noteq> []" and "sgt \<noteq> []"
proof -
  have v: "(\<exists>t. ParseRFC3339 ts = Some t) \<and> sgt = GenerateSignalHMAC secret tid ty smb ts"
    using assms unfolding Verify_iff by blast
  then show "ts \<noteq> []" by (auto simp: ParseRFC3339_def parse_rfc3339_def take_num_def)
  have "length sgt = 64" using v by (simp add: GenerateSignalHMAC_def)
  then show "sgt \<noteq> []" by auto
qed

lemma Receive_admissible:
  "admissible cfg (clock w) r sg \<Longrightarrow> run_state (Receive E cfg r) w = run_state (AcceptSignal E cfg sg) w"
  unfolding admissible_def by (elim exE conjE) (simp add: Receive_def Let_def Verify_headers)

lemma Receive_refused:
  assumes "run_state (Receive E cfg r) w = (resp, w')" and "\<nexists>sg. admissible cfg (clock w) r sg"
  shows "w' = w \<and> status resp \<in> {400, 401}"
  using assms by (auto simp: Receive_def admissible_def writeError_def Let_def split: if_splits option.splits sum.splits)

text \<open>
  C10: Only a signed and valid signal gets in: a request either leaves the world untouched and is
  answered 400 or 401, or its body decodes to a signal with a positive ticket, price and lot, one
  of the four types and one of the two directions, its signature is the HMAC of ticket, type,
  normalised symbol and timestamp under the shared secret, and what happens is AcceptSignal.
\<close>

theorem Receive_guards:
  assumes "run_state (Receive E cfg r) w = (resp, w')"
  shows "(w' = w \<and> status resp \<in> {400, 401}) \<or>
    (\<exists>sg0 sg. Option.bind (rq_body r) Unmarshal_signal = Some sg0 \<and> sg = sg0\<lparr>Symbol := normalizeSymbol (Symbol sg0)\<rparr>
      \<and> 0 < TicketID sg \<and> SignalType sg \<in> {SignalOpen, SignalModify, SignalClose, SignalPartial}
      \<and> Direction sg \<in> {''BUY'', ''SELL''} \<and> 0 < Price sg \<and> 0 < Lot sg
      \<and> rq_header r ''X-Signal-Signature'' = GenerateSignalHMAC (SignalHMACSecret cfg) (FormatInt (TicketID sg))
          (SignalType sg) (Symbol sg) (rq_header r ''X-Signal-Timestamp'')
      \<and> run_state (AcceptSignal E cfg sg) w = (resp, w'))"
proof (cases "\<exists>sg. admissible cfg (clock w) r sg")
  case True
  then obtain sg where sg: "admissible cfg (clock w) r sg" by blast
  have "run_state (AcceptSignal E cfg sg) w = (resp, w')" using Receive_admissible [OF sg] assms by metis
  then show ?thesis using sg unfolding admissible_def validate_ok Verify_iff by auto
next
  case False
  then show ?thesis using Receive_refused [OF assms] by blast
qed

definition demo_body :: "string \<Rightarrow> rat \<Rightarrow> json" where
  "demo_body ty price = JObj [(''ticket_id'', JInt 7001), (''signal_type'', JStr ty), (''symbol'', JStr '' eurusd.m''),
     (''direction'', JStr ''BUY''), (''price'', JNum price), (''lot'', JNum (1 / 10))]"

definition demo_signal :: "string \<Rightarrow> rat \<Rightarrow> InboundSignal" where
  "demo_signal ty price = \<lparr>TicketID = 7001, SignalType = ty, Symbol = ''EURUSD'', Direction = ''BUY'', Price = price,
     SL = None, TP = None, Lot = 1 / 10, Timestamp = zero_time\<rparr>"

text \<open>A request signed at a given time, at most the TTL away from the clock.\<close>

definition demo_post :: "string \<Rightarrow> string \<Rightarrow> rat \<Rightarrow> request" where
  "demo_post ts ty price = (bare_request [(''X-Signal-Timestamp'', ts),
     (''X-Signal-Signature'', GenerateSignalHMAC ''hmac'' (FormatInt 7001) ty ''EURUSD'' ts)])
     \<lparr>rq_body := Some (demo_body ty price)\<rparr>"

definition demo_time :: int where
  "demo_time = 1767225600 * 10 ^ 9"

lemma demo_parse: "ParseRFC3339 ''2026-01-01T00:00:00Z'' = Some demo_time"
  by code_simp

lemma demo_decode:
  "Unmarshal_signal (demo_body ty price) = Some ((demo_signal ty price)\<lparr>Symbol := '' eurusd.m''\<rparr>)"
  by (simp add: Unmarshal_signal_def dec_signal_def signal_fields_def demo_body_def demo_signal_def field_def
      key_match_def zero_signal_def in64_def min64_def max64_def)

lemma demo_normal: "normalizeSymbol '' eurusd.m'' = ''EURUSD''"
  by code_simp

lemma demo_admissible:
  assumes "\<bar>now - demo_time\<bar> \<le> 30 * Second" and "ty \<in> {SignalOpen, SignalModify, SignalClose, SignalPartial}" and "0 < price"
  shows "admissible demo_cfg now (demo_post ''2026-01-01T00:00:00Z'' ty price) (demo_signal ty price)"
proof -
  have "VerifySignalHMACWithTTL now ''hmac'' (FormatInt 7001) ty ''EURUSD'' ''2026-01-01T00:00:00Z''
      (GenerateSignalHMAC ''hmac'' (FormatInt 7001) ty ''EURUSD'' ''2026-01-01T00:00:00Z'') (30 * Second) = Inr ()"
    using assms(1) age_of_near [of now demo_time] unfolding Verify_iff
    by (simp add: demo_parse Second_def max64_def)
  with assms(2,3) show ?thesis
    unfolding admissible_def validate_ok
    by (auto simp: demo_post_def demo_decode bare_request_def demo_cfg_def demo_signal_def demo_normal)
qed

theorem Receive_guards_witness:
  "\<exists>resp w'. run_state (Receive calm_env demo_cfg (demo_post ''2026-01-01T00:00:00Z'' ''OPEN'' 0)) (calm_world empty_tables demo_time) = (resp, w')
    \<and> status resp \<in> {400, 401} \<and> w' = calm_world empty_tables demo_time"
proof -
  let ?r = "demo_post ''2026-01-01T00:00:00Z'' ''OPEN'' 0" and ?w = "calm_world empty_tables demo_time"
  obtain resp w' where r: "run_state (Receive calm_env demo_cfg ?r) ?w = (resp, w')" by (metis surj_pair)
  have b: "Option.bind (rq_body ?r) Unmarshal_signal = Some ((demo_signal ''OPEN'' 0)\<lparr>Symbol := '' eurusd.m''\<rparr>)"
    by (simp add: demo_post_def demo_decode)
  from Receive_guards [OF r] r show ?thesis unfolding b by (auto simp: demo_signal_def)
qed

subsection \<open>What an accepted signal leaves\<close>

text \<open>A critical server that answers every call.\<close>

definition reliable_crit :: "('r, 'l, 'd) env \<Rightarrow> bool" where
  "reliable_crit E \<longleftrightarrow> (\<forall>now c s. \<exists>x s'. crit_srv E now c s = (Inr x, s'))"

lemma reliable_crit_calm [simp]: "reliable_crit calm_env"
  by (simp add: reliable_crit_def faultless_def split: prod.splits)

text \<open>Two states of the critical server that agree from a time on.\<close>

definition agrees :: "int \<Rightarrow> rview \<Rightarrow> rview \<Rightarrow> bool" where
  "agrees now v v' \<longleftrightarrow> rlst v = rlst v' \<and> lives_as now v v'"

lemma agreesD: "agrees now v v' \<Longrightarrow> rlst v = rlst v'" "agrees now v v' \<Longrightarrow> now \<le> t \<Longrightarrow> live t v k = live t v' k"
  unfolding agrees_def by (blast, metis lives_asD)

text \<open>What stays when only one service is called.\<close>

definition same_but_crit :: "('r, 'l, 'd) world \<Rightarrow> ('r, 'l, 'd) world \<Rightarrow> bool" where
  "same_but_crit w w' \<longleftrightarrow> pg w' = pg w \<and> lru w' = lru w \<and> clock w' = clock w \<and> seed w' = seed w \<and> outbox w' = outbox w"

context deployment
begin

lemma reliable_Critical:
  assumes "reliable_crit E" and "\<not> is_scan c"
  shows "\<exists>w'. run_state (Critical E c) w = (redis_result (Inr (fst (redis_step (clock w) c (ac (crit w))))), w')
    \<and> agrees (clock w) (ac (crit w')) (snd (redis_step (clock w) c (ac (crit w)))) \<and> same_but_crit w w'"
proof -
  obtain x s where x: "crit_srv E (clock w) c (crit w) = (Inr x, s)"
    using assms(1) unfolding reliable_crit_def by blast
  have "redis_ok (clock w) c (ac (crit w)) x (ac s)" by (rule crit.answer [OF x])
  from redis_okD [OF this assms(2)] x show ?thesis
    by (simp add: Critical_def agrees_def lives_as_def same_but_crit_def)
qed

lemma SetDedup_new:
  assumes "reliable_crit E" and "0 \<le> ttl" and "live (clock w) (ac (crit w)) (dedupKey i ty) = None"
  shows "\<exists>w'. run_state (SetDedup E i ty ttl) w = (Inr True, w') \<and> same_but_crit w w'
    \<and> agrees (clock w) (ac (crit w')) (put (dedupKey i ty) (JInt 1) (expires (clock w) ttl) (ac (crit w)))"
  using reliable_Critical [OF assms(1), of "SETNX (dedupKey i ty) (JInt 1) ttl" w] assms(2,3)
  by (auto simp: SetDedup_def)

lemma SetDedup_seen:
  assumes "reliable_crit E" and "0 \<le> ttl" and "live (clock w) (ac (crit w)) (dedupKey i ty) \<noteq> None"
  shows "\<exists>w'. run_state (SetDedup E i ty ttl) w = (Inr False, w') \<and> same_but_crit w w'
    \<and> agrees (clock w) (ac (crit w')) (ac (crit w))"
  using reliable_Critical [OF assms(1), of "SETNX (dedupKey i ty) (JInt 1) ttl" w] assms(2,3)
  by (auto simp: SetDedup_def)

lemma SetLatestSignal_ok:
  assumes "reliable_crit E"
  shows "\<exists>w'. run_state (SetLatestSignal E sy (Struct (Some d))) w = (Inr (), w') \<and> same_but_crit w w'
    \<and> agrees (clock w) (ac (crit w')) (put (signalKey sy) d Never (ac (crit w)))"
  using reliable_Critical [OF assms, of "SET (signalKey sy) d 0" w]
  by (auto simp: SetLatestSignal_def only_err_def expires_def)

lemma EnqueueJob_ok:
  assumes "reliable_crit E"
  shows "\<exists>w'. run_state (EnqueueJob E sy (Struct (Some d))) w = (Inr (), w') \<and> same_but_crit w w'
    \<and> agrees (clock w) (ac (crit w')) (put_list (QueueKey sy) (d # rlst (ac (crit w)) (QueueKey sy)) (ac (crit w)))"
  using reliable_Critical [OF assms, of "LPUSH (QueueKey sy) d" w]
  by (auto simp: EnqueueJob_def only_err_def)

end

text \<open>The row a signal is stored as, and when the table takes it.\<close>

definition signal_row_of :: "uuid \<Rightarrow> int \<Rightarrow> InboundSignal \<Rightarrow> signal_row" where
  "signal_row_of i now sg = \<lparr>sr_id = i, sr_ticket = TicketID sg, sr_type = SignalType sg, sr_symbol = Symbol sg,
     sr_direction = Direction sg, sr_price = numeric_round 8 (Price sg), sr_sl = map_option (numeric_round 8) (SL sg),
     sr_tp = map_option (numeric_round 8) (TP sg), sr_lot = numeric_round 4 (Lot sg), sr_source = None, sr_received = now\<rparr>"

definition row_fits :: "uuid \<Rightarrow> int \<Rightarrow> InboundSignal \<Rightarrow> tables \<Rightarrow> bool" where
  "row_fits i now sg t \<longleftrightarrow> numeric_ok 8 (Price sg) \<and> numeric_opt_ok 8 (SL sg) \<and> numeric_opt_ok 8 (TP sg)
     \<and> numeric_ok 4 (Lot sg) \<and> partition_start \<le> now \<and> now < partition_end \<and> i \<notin> sr_id ` set (signals t)"

context deployment
begin

lemma InsertSignal_ok:
  assumes "reliable_db E" and "row_fits (new_uuid E (seed w)) (clock w) sg (ad (pg w))"
    and "SignalType sg \<in> {SignalOpen, SignalModify, SignalClose, SignalPartial}" and "Direction sg \<in> {''BUY'', ''SELL''}"
  shows "\<exists>w'. run_state (InsertSignal E (store_signal sg)) w = ((new_uuid E (seed w), Inr ()), w')
    \<and> ad (pg w') = (ad (pg w))\<lparr>signals := signals (ad (pg w)) @ [signal_row_of (new_uuid E (seed w)) (clock w) sg]\<rparr>
    \<and> crit w' = crit w \<and> clock w' = clock w \<and> seed w' = Suc (seed w)"
proof -
  let ?i = "new_uuid E (seed w)" and ?w = "w\<lparr>seed := Suc (seed w)\<rparr>" and ?s = "store_signal sg"
  let ?c = "InsertSignalRow ?i (st_TicketID ?s) (st_SignalType ?s) (st_Symbol ?s) (st_Direction ?s) (st_Price ?s)
     (st_SL ?s) (st_TP ?s) (st_Lot ?s) (st_SourceKeyID ?s)"
  have s: "sql_step D (clock w) ?c (ad (pg w))
      = (PDone 1, (ad (pg w))\<lparr>signals := signals (ad (pg w)) @ [signal_row_of ?i (clock w) sg]\<rparr>)"
    using assms(2-4) by (auto simp: row_fits_def store_signal_def signal_row_of_def image_iff)
  obtain w' where w': "run_state (DB E (Auto ?c)) ?w = (Inr (PDone 1), w')"
    "ad (pg w') = (ad (pg w))\<lparr>signals := signals (ad (pg w)) @ [signal_row_of ?i (clock w) sg]\<rparr>"
    "clock w' = clock w" "seed w' = Suc (seed w)"
    using reliable_DB [OF assms(1), of ?c ?w] s by auto
  have "crit w' = crit w" using keepsD [OF DB_keeps(1) w'(1)] by simp
  with w' show ?thesis by (simp add: InsertSignal_def exec_result_def)
qed

end

definition first_job :: "('r, 'l, 'd) env \<Rightarrow> ('r, 'l, 'd) world \<Rightarrow> InboundSignal \<Rightarrow> Job" where
  "first_job E w sg = \<lparr>JobID = uuid_str E (new_uuid E (Suc (seed w))), SignalID = new_uuid E (seed w), Signal = sg,
     Attempts = 0, EnqueuedAt = \<lparr>inst = clock w, zone = 0\<rparr>\<rparr>"

context deployment
begin

lemma AcceptSignal_new:
  assumes "reliable_crit E" and "reliable_db E" and "0 \<le> DeduplicateTTL cfg"
    and "live (clock w) (ac (crit w)) (dedupKey (TicketID sg) (SignalType sg)) = None"
    and "row_fits (new_uuid E (seed w)) (clock w) sg (ad (pg w))"
    and "SignalType sg \<in> {SignalOpen, SignalModify, SignalClose, SignalPartial}" and "Direction sg \<in> {''BUY'', ''SELL''}"
    and "Marshal_signal sg = Some d" and "Marshal_job (uuid_str E) (first_job E w sg) = Some j"
  shows "\<exists>w'. run_state (AcceptSignal E cfg sg) w = (accepted_response E (new_uuid E (seed w)), w')
    \<and> ad (pg w') = (ad (pg w))\<lparr>signals := signals (ad (pg w)) @ [signal_row_of (new_uuid E (seed w)) (clock w) sg]\<rparr>
    \<and> clock w' = clock w \<and> seed w' = Suc (Suc (seed w))
    \<and> agrees (clock w) (ac (crit w')) (put_list (QueueKey (Symbol sg)) (j # rlst (ac (crit w)) (QueueKey (Symbol sg)))
        (put (signalKey (Symbol sg)) d Never
          (put (dedupKey (TicketID sg) (SignalType sg)) (JInt 1) (expires (clock w) (DeduplicateTTL cfg)) (ac (crit w)))))"
proof -
  let ?i = "new_uuid E (seed w)"
  obtain w1 where w1: "run_state (SetDedup E (TicketID sg) (SignalType sg) (DeduplicateTTL cfg)) w = (Inr True, w1)"
    and s1: "same_but_crit w w1"
    and a1: "agrees (clock w) (ac (crit w1)) (put (dedupKey (TicketID sg) (SignalType sg)) (JInt 1)
       (expires (clock w) (DeduplicateTTL cfg)) (ac (crit w)))"
    using SetDedup_new [OF assms(1,3,4)] by blast
  have e1: "clock w1 = clock w" "seed w1 = seed w" "pg w1 = pg w" using s1 by (simp_all add: same_but_crit_def)
  obtain w2 where w2: "run_state (InsertSignal E (store_signal sg)) w1 = ((?i, Inr ()), w2)"
    and t2: "ad (pg w2) = (ad (pg w))\<lparr>signals := signals (ad (pg w)) @ [signal_row_of ?i (clock w) sg]\<rparr>"
    and e2: "crit w2 = crit w1" "clock w2 = clock w" "seed w2 = Suc (seed w)"
    using InsertSignal_ok [OF assms(2) _ assms(6,7), of w1] assms(5) e1 by auto
  obtain w3 where w3: "run_state (SetLatestSignal E (Symbol sg) (Struct (Some d))) w2 = (Inr (), w3)"
    and s3: "same_but_crit w2 w3"
    and a3: "agrees (clock w) (ac (crit w3)) (put (signalKey (Symbol sg)) d Never (ac (crit w1)))"
    using SetLatestSignal_ok [OF assms(1), of "Symbol sg" d w2] e2 by auto
  have e3: "clock w3 = clock w" "seed w3 = Suc (seed w)" "pg w3 = pg w2" using s3 e2 by (simp_all add: same_but_crit_def)
  let ?w4 = "w3\<lparr>seed := Suc (Suc (seed w))\<rparr>"
  obtain w5 where w5: "run_state (EnqueueJob E (Symbol sg) (Struct (Some j))) ?w4 = (Inr (), w5)"
    and s5: "same_but_crit ?w4 w5"
    and a5: "agrees (clock w) (ac (crit w5)) (put_list (QueueKey (Symbol sg)) (j # rlst (ac (crit w3)) (QueueKey (Symbol sg))) (ac (crit w3)))"
    using EnqueueJob_ok [OF assms(1), of "Symbol sg" j ?w4] e3 by auto
  have "run_state (AcceptSignal E cfg sg) w = (accepted_response E ?i, w5)"
    using w1 w2 w3 w5 e3 assms(8,9) by (simp add: AcceptSignal_def first_job_def Let_def)
  moreover have "ad (pg w5) = (ad (pg w))\<lparr>signals := signals (ad (pg w)) @ [signal_row_of ?i (clock w) sg]\<rparr>" "clock w5 = clock w"
      "seed w5 = Suc (Suc (seed w))"
    using s5 e3 t2 by (simp_all add: same_but_crit_def)
  moreover have "agrees (clock w) (ac (crit w5)) (put_list (QueueKey (Symbol sg)) (j # rlst (ac (crit w)) (QueueKey (Symbol sg)))
        (put (signalKey (Symbol sg)) d Never
          (put (dedupKey (TicketID sg) (SignalType sg)) (JInt 1) (expires (clock w) (DeduplicateTTL cfg)) (ac (crit w)))))"
    using a1 a3 a5 unfolding agrees_def lives_as_def by (auto simp: fun_eq_iff)
  ultimately show ?thesis by blast
qed

lemma AcceptSignal_seen:
  assumes "reliable_crit E" and "0 \<le> DeduplicateTTL cfg"
    and "live (clock w) (ac (crit w)) (dedupKey (TicketID sg) (SignalType sg)) \<noteq> None"
  shows "\<exists>w'. run_state (AcceptSignal E cfg sg) w = (duplicate_response, w') \<and> same_but_crit w w'
    \<and> agrees (clock w) (ac (crit w')) (ac (crit w))"
  using SetDedup_seen [OF assms] by (auto simp: AcceptSignal_def)

end

context deployment
begin

lemma Critical_live:
  assumes "\<not> is_scan c" and "k \<notin> writes c" and "\<And>ks. c \<noteq> DEL ks"
  shows "preserves (\<lambda>w. clock w \<le> t \<and> live t (ac (crit w)) k = Some x) (Critical E c)"
proof (rule preservesI, elim conjE, intro conjI)
  fix w r w' assume t: "clock w \<le> t" and l: "live t (ac (crit w)) k = Some x" and c: "run_state (Critical E c) w = (r, w')"
  show "clock w' \<le> t" using t keepsD [OF Critical_keeps(3) c] by simp
  have s: "live t (snd (redis_step (clock w) c (ac (crit w)))) k = Some x"
    using l assms(2,3) by (cases c) (auto simp: Let_def split: option.splits json.splits)
  from Critical_err [OF c] show "live t (ac (crit w')) k = Some x"
    using l s t redis_okD(3) [OF _ assms(1)] by metis
qed

lemma AcceptSignal_rest_live:
  assumes "k \<noteq> signalKey (Symbol sg)"
  shows "preserves (\<lambda>w. clock w \<le> t \<and> live t (ac (crit w)) k = Some x) (do {
       (signalID, ins) \<leftarrow> InsertSignal E (store_signal sg);
       case ins of
         Inl _ \<Rightarrow> ret (writeError (EMsg ''storage error'') 500)
       | Inr _ \<Rightarrow> do {
           _ \<leftarrow> SetLatestSignal E (Symbol sg) (Struct (Marshal_signal sg));
           jid \<leftarrow> uuid_New E;
           now \<leftarrow> time_now;
           let job = \<lparr>JobID = uuid_str E jid, SignalID = signalID, Signal = sg, Attempts = 0,
             EnqueuedAt = \<lparr>inst = now, zone = 0\<rparr>\<rparr>;
           _ \<leftarrow> EnqueueJob E (Symbol sg) (Struct (Marshal_job (uuid_str E) job));
           ret (accepted_response E signalID) } })" (is "preserves ?P _")
proof -
  have off: "off_pg (\<lambda>w. (clock w, crit w))" by (simp add: off_pg_def)
  have i: "preserves ?P (InsertSignal E (store_signal sg))"
    using keeps_preserves [OF store_update_keeps(13) [OF off], of "\<lambda>(c, v). c \<le> t \<and> live t (ac v) k = Some x"] by simp
  have u: "preserves ?P (uuid_New E)" by (simp add: preserves_def)
  have n: "preserves ?P time_now" by (simp add: preserves_def)
  have s: "preserves ?P (SetLatestSignal E (Symbol sg) p)" for p
    unfolding SetLatestSignal_def using assms by (intro hoare Critical_live) simp_all
  have q: "preserves ?P (EnqueueJob E sy p)" for sy p
    unfolding EnqueueJob_def by (intro hoare Critical_live) simp_all
  show ?thesis unfolding Let_def by (intro preserves_bind preserves_prod preserves_sum preserves_return i u n s q)
qed

lemma AcceptSignal_marks:
  assumes "reliable_crit E" and "0 \<le> DeduplicateTTL cfg" and "run_state (AcceptSignal E cfg sg) w = (resp, w')"
    and "live (clock w) (ac (crit w)) (dedupKey (TicketID sg) (SignalType sg)) = None"
    and "clock w \<le> t" and "t < clock w + DeduplicateTTL cfg"
  shows "live t (ac (crit w')) (dedupKey (TicketID sg) (SignalType sg)) = Some (JInt 1)"
proof -
  let ?k = "dedupKey (TicketID sg) (SignalType sg)"
  obtain w1 where w1: "run_state (SetDedup E (TicketID sg) (SignalType sg) (DeduplicateTTL cfg)) w = (Inr True, w1)"
    and s1: "same_but_crit w w1"
    and a1: "agrees (clock w) (ac (crit w1)) (put ?k (JInt 1) (expires (clock w) (DeduplicateTTL cfg)) (ac (crit w)))"
    using SetDedup_new [OF assms(1,2,4)] by blast
  have p: "clock w1 \<le> t" "live t (ac (crit w1)) ?k = Some (JInt 1)"
    using s1 agreesD(2) [OF a1 assms(5)] assms(5,6) by (simp_all add: same_but_crit_def)
  have k: "?k \<noteq> signalKey (Symbol sg)" using signal_key_names(1) by metis
  from preservesD [OF AcceptSignal_rest_live [OF k]] p assms(3) w1 show ?thesis
    by (auto simp: AcceptSignal_def)
qed

lemma storage_error_no_job:
  assumes "reliable_crit E" and "run_state (AcceptSignal E cfg sg) w = (resp, w')" and "status resp = 500"
  shows "rlst (ac (crit w')) = rlst (ac (crit w))"
proof -
  obtain x w1 where x: "run_state (SetDedup E (TicketID sg) (SignalType sg) (DeduplicateTTL cfg)) w = (x, w1)" by (metis surj_pair)
  then obtain y where y: "run_state (Critical E (SETNX (dedupKey (TicketID sg) (SignalType sg)) (JInt 1) (DeduplicateTTL cfg))) w = (y, w1)"
    by (auto simp: SetDedup_def split: prod.splits)
  have l1: "rlst (ac (crit w1)) = rlst (ac (crit w))"
    using Critical_err [OF y] redis_okD(2) by (fastforce split: if_splits)
  obtain i e w2 where i: "run_state (InsertSignal E (store_signal sg)) w1 = ((i, e), w2)" by (metis surj_pair)
  have "w' = w1 \<or> w' = w2"
    using assms(2,3) x i
    by (auto simp: AcceptSignal_def duplicate_response_def accepted_response_def Let_def split: sum.splits prod.splits if_splits)
  moreover have "crit w2 = crit w1" using keepsD [OF store_update_keeps(13) [OF off_pg_proj(1)] i] .
  ultimately show ?thesis using l1 by auto
qed

end

context deployment
begin

lemma accepted_effect:
  assumes "reliable_crit E" and "reliable_db E" and "0 \<le> DeduplicateTTL cfg"
    and "admissible cfg (clock w) r sg" and "live (clock w) (ac (crit w)) (dedupKey (TicketID sg) (SignalType sg)) = None"
    and "row_fits (new_uuid E (seed w)) (clock w) sg (ad (pg w))" and "job_ok (first_job E w sg)"
  shows "\<exists>w' j d. run_state (Receive E cfg r) w = (accepted_response E (new_uuid E (seed w)), w')
    \<and> ad (pg w') = (ad (pg w))\<lparr>signals := signals (ad (pg w)) @ [signal_row_of (new_uuid E (seed w)) (clock w) sg]\<rparr>
    \<and> rlst (ac (crit w')) = (rlst (ac (crit w)))(QueueKey (Symbol sg) := j # rlst (ac (crit w)) (QueueKey (Symbol sg)))
    \<and> Unmarshal_job (uuid_prs E) j = Some (first_job E w sg)
    \<and> (\<forall>t \<ge> clock w. live t (ac (crit w')) (signalKey (Symbol sg)) = Some d)
    \<and> Marshal_signal sg = Some d \<and> Unmarshal_signal d = Some sg"
proof -
  have ok: "signal_ok sg" using assms(7) by (simp add: job_ok_def first_job_def)
  then obtain d where d: "Marshal_signal sg = Some d" using Marshal_signal_Some by blast
  obtain j where j: "Marshal_job (uuid_str E) (first_job E w sg) = Some j" using Marshal_job_Some assms(7) by blast
  have v: "SignalType sg \<in> {SignalOpen, SignalModify, SignalClose, SignalPartial}" "Direction sg \<in> {''BUY'', ''SELL''}"
    using assms(4) unfolding admissible_def validate_ok by auto
  obtain w' where w': "run_state (AcceptSignal E cfg sg) w = (accepted_response E (new_uuid E (seed w)), w')"
    and t: "ad (pg w') = (ad (pg w))\<lparr>signals := signals (ad (pg w)) @ [signal_row_of (new_uuid E (seed w)) (clock w) sg]\<rparr>"
    and a: "agrees (clock w) (ac (crit w')) (put_list (QueueKey (Symbol sg)) (j # rlst (ac (crit w)) (QueueKey (Symbol sg)))
        (put (signalKey (Symbol sg)) d Never
          (put (dedupKey (TicketID sg) (SignalType sg)) (JInt 1) (expires (clock w) (DeduplicateTTL cfg)) (ac (crit w)))))"
    using AcceptSignal_new [OF assms(1-3,5,6) v d j] by blast
  have "Unmarshal_job (uuid_prs E) j = Some (first_job E w sg)"
    using ids.Unmarshal_Marshal_job [OF j assms(7)] .
  moreover have "\<forall>t \<ge> clock w. live t (ac (crit w')) (signalKey (Symbol sg)) = Some d"
    using agreesD(2) [OF a] by simp
  moreover have "rlst (ac (crit w')) = (rlst (ac (crit w)))(QueueKey (Symbol sg) := j # rlst (ac (crit w)) (QueueKey (Symbol sg)))"
    using agreesD(1) [OF a] by simp
  ultimately show ?thesis
    using w' t Receive_admissible [OF assms(4), of E] Unmarshal_Marshal_signal [OF d ok] d by (intro exI conjI) auto
qed

end

text \<open>
  C9: What acceptance means: on servers that answer, an admissible signal that was not seen
  before and that the table takes is answered "accepted" with its id; afterwards the table has
  exactly one row more, the stored signal; the symbol's queue has exactly one job more, which
  decodes to the job with that id, the signal and no attempts; no other queue has changed; and
  the latest signal of the symbol decodes to this one at every later time.
\<close>

theorem Receive_accepts:
  assumes "deployment E ac al ad D" and "reliable_crit E" and "reliable_db E" and "0 \<le> DeduplicateTTL cfg"
    and "admissible cfg (clock w) r sg" and "live (clock w) (ac (crit w)) (dedupKey (TicketID sg) (SignalType sg)) = None"
    and "row_fits (new_uuid E (seed w)) (clock w) sg (ad (pg w))" and "job_ok (first_job E w sg)"
  shows "\<exists>w' j d. run_state (Receive E cfg r) w = (accepted_response E (new_uuid E (seed w)), w')
    \<and> ad (pg w') = (ad (pg w))\<lparr>signals := signals (ad (pg w)) @ [signal_row_of (new_uuid E (seed w)) (clock w) sg]\<rparr>
    \<and> rlst (ac (crit w')) = (rlst (ac (crit w)))(QueueKey (Symbol sg) := j # rlst (ac (crit w)) (QueueKey (Symbol sg)))
    \<and> Unmarshal_job (uuid_prs E) j = Some (first_job E w sg)
    \<and> (\<forall>t \<ge> clock w. live t (ac (crit w')) (signalKey (Symbol sg)) = Some d) \<and> Unmarshal_signal d = Some sg"
  using deployment.accepted_effect [OF assms] by blast

lemma demo_row_fits: "row_fits i demo_time (demo_signal ''OPEN'' (27 / 20)) empty_tables"
proof -
  have n: "numeric_ok 8 (27 / 20)" "numeric_ok 4 (1 / 10)" by code_simp+
  have "partition_start \<le> demo_time" "demo_time < partition_end" by code_simp+
  with n show ?thesis by (simp add: row_fits_def demo_signal_def numeric_opt_ok_def empty_tables_def)
qed

lemma demo_job_ok: "job_ok (first_job calm_env (calm_world t demo_time) (demo_signal ''OPEN'' (27 / 20)))"
proof -
  have "time_ok zero_time" "time_ok \<lparr>inst = demo_time, zone = 0\<rparr>" by code_simp+
  moreover have "float_ok (27 / 20)" "float_ok (1 / 10)" by code_simp+
  ultimately show ?thesis
    by (simp add: job_ok_def signal_ok_def first_job_def demo_signal_def in64_def min64_def max64_def)
qed

theorem Receive_accepts_witness:
  "\<exists>w'. run_state (Receive calm_env demo_cfg (demo_post ''2026-01-01T00:00:00Z'' ''OPEN'' (27 / 20)))
       (calm_world empty_tables demo_time) = (accepted_response calm_env 1, w')
    \<and> length (signals (pg w')) = 1 \<and> length (rlst (crit w') (QueueKey ''EURUSD'')) = 1"
proof -
  have a: "admissible demo_cfg (clock (calm_world empty_tables demo_time))
      (demo_post ''2026-01-01T00:00:00Z'' ''OPEN'' (27 / 20)) (demo_signal ''OPEN'' (27 / 20))"
    using demo_admissible [of demo_time "''OPEN''" "27 / 20"] by (simp add: Second_def signal_types)
  have s: "Symbol (demo_signal ''OPEN'' (27 / 20)) = ''EURUSD''" by (simp add: demo_signal_def)
  have e: "signals empty_tables = []" by (simp add: empty_tables_def)
  have t: "0 \<le> DeduplicateTTL demo_cfg" by (simp add: demo_cfg_def Second_def)
  from Receive_accepts [OF calm_deployment reliable_crit_calm reliable_calm t a] demo_row_fits demo_job_ok
  show ?thesis by (auto simp: s e)
qed

text \<open>
  C21: A signal is seen once: after the first admissible request with a ticket and type, whatever
  became of it, every admissible request with that ticket and type within the deduplication time
  is answered "duplicate" and changes nothing, whatever its symbol, price or stops. If the first
  was answered 500 because the table refused it, no queue ever got a job for it: the retry that
  the answer asks for is dropped as a duplicate.
\<close>

theorem repeat_is_duplicate:
  assumes "deployment E ac al ad D" and "reliable_crit E" and "0 \<le> DeduplicateTTL cfg"
    and "admissible cfg (clock w) r1 sg1" and "live (clock w) (ac (crit w)) (dedupKey (TicketID sg1) (SignalType sg1)) = None"
    and "run_state (Receive E cfg r1) w = (resp1, w1)"
    and "clock w \<le> now" and "now < clock w + DeduplicateTTL cfg" and "admissible cfg now r2 sg2"
    and "TicketID sg2 = TicketID sg1" and "SignalType sg2 = SignalType sg1"
  shows "\<exists>w2. run_state (Receive E cfg r2) (w1\<lparr>clock := now\<rparr>) = (duplicate_response, w2)
    \<and> pg w2 = pg w1 \<and> rlst (ac (crit w2)) = rlst (ac (crit w1))
    \<and> (status resp1 = 500 \<longrightarrow> rlst (ac (crit w2)) = rlst (ac (crit w)))"
proof -
  have r1: "run_state (AcceptSignal E cfg sg1) w = (resp1, w1)"
    using Receive_admissible [OF assms(4)] assms(6) by metis
  have "live now (ac (crit w1)) (dedupKey (TicketID sg1) (SignalType sg1)) = Some (JInt 1)"
    by (rule deployment.AcceptSignal_marks [OF assms(1-3) r1 assms(5,7,8)])
  then obtain w2 where w2: "run_state (AcceptSignal E cfg sg2) (w1\<lparr>clock := now\<rparr>) = (duplicate_response, w2)"
    and s2: "same_but_crit (w1\<lparr>clock := now\<rparr>) w2" and a2: "agrees now (ac (crit w2)) (ac (crit w1))"
    using deployment.AcceptSignal_seen [OF assms(1-3), of "w1\<lparr>clock := now\<rparr>" sg2] assms(10,11) by auto
  have "run_state (Receive E cfg r2) (w1\<lparr>clock := now\<rparr>) = (duplicate_response, w2)"
    using Receive_admissible [of cfg "w1\<lparr>clock := now\<rparr>" r2 sg2 E] assms(9) w2 by simp
  moreover have "rlst (ac (crit w2)) = rlst (ac (crit w1))" by (rule agreesD(1) [OF a2])
  moreover have "rlst (ac (crit w1)) = rlst (ac (crit w))" if "status resp1 = 500"
    using deployment.storage_error_no_job [OF assms(1,2) r1 that] .
  ultimately show ?thesis using s2 by (auto simp: same_but_crit_def)
qed

text \<open>The table refuses a second row with the id, as it refuses every row from 2028 on.\<close>

definition full_tables :: tables where
  "full_tables = empty_tables\<lparr>signals := [signal_row_of 1 demo_time (demo_signal ''OPEN'' 1)]\<rparr>"

theorem repeat_is_duplicate_witness:
  "\<exists>resp1 w1 w2. run_state (Receive calm_env demo_cfg (demo_post ''2026-01-01T00:00:00Z'' ''OPEN'' (27 / 20)))
       (calm_world full_tables demo_time) = (resp1, w1) \<and> status resp1 = 500
    \<and> run_state (Receive calm_env demo_cfg (demo_post ''2026-01-01T00:00:00Z'' ''OPEN'' 9)) (w1\<lparr>clock := demo_time + 10\<rparr>)
        = (duplicate_response, w2)
    \<and> (\<forall>k. rlst (crit w2) k = [])"
proof -
  let ?r1 = "demo_post ''2026-01-01T00:00:00Z'' ''OPEN'' (27 / 20)" and ?w = "calm_world full_tables demo_time"
  let ?r2 = "demo_post ''2026-01-01T00:00:00Z'' ''OPEN'' 9"
  have a1: "admissible demo_cfg (clock ?w) ?r1 (demo_signal ''OPEN'' (27 / 20))"
    using demo_admissible [of demo_time "''OPEN''" "27 / 20"] by (simp add: Second_def signal_types)
  have a2: "admissible demo_cfg (demo_time + 10) ?r2 (demo_signal ''OPEN'' 9)"
    using demo_admissible [of "demo_time + 10" "''OPEN''" 9] by (simp add: Second_def signal_types)
  have "partition_start \<le> demo_time" "demo_time < partition_end" "numeric_ok 8 (27 / 20)" "numeric_ok 4 (1 / 10)"
    by code_simp+
  then obtain resp1 w1 where r1: "run_state (AcceptSignal calm_env demo_cfg (demo_signal ''OPEN'' (27 / 20))) ?w = (resp1, w1)"
    and s: "status resp1 = 500"
    by (simp add: AcceptSignal_def SetDedup_def InsertSignal_def store_signal_def demo_signal_def numeric_opt_ok_def
        full_tables_def empty_tables_def signal_row_of_def unique_violation_def exec_result_def writeError_def signal_types
        demo_cfg_def Second_def Let_def)
  then have r: "run_state (Receive calm_env demo_cfg ?r1) ?w = (resp1, w1)"
    using Receive_admissible [OF a1] by metis
  have t: "0 \<le> DeduplicateTTL demo_cfg" "demo_time + 10 < clock ?w + DeduplicateTTL demo_cfg"
    by (simp_all add: demo_cfg_def Second_def)
  have e: "rlst empty_rview = v \<Longrightarrow> v k = []" for v k by (metis empty_rview_simps(2))
  from repeat_is_duplicate [OF calm_deployment reliable_crit_calm t(1) a1 _ r _ t(2) a2] r s
  show ?thesis by (auto simp: demo_signal_def intro: e)
qed

context deployment
begin

lemma GetPending_live:
  assumes "reliable_crit E" and "live (clock w) (ac (crit w)) (signalKey s) = Some d"
    and "ToUpper (rq_value poll ''symbol'') = s" and "s \<noteq> []"
  shows "\<exists>w'. run_state (GetPending E poll) w = (\<lparr>status = 200, headers = json_type, rbody = Doc d\<rparr>, w')"
proof -
  obtain v where v: "run_state (Critical E (GET (signalKey s))) w = (Inr (RBulk d), v)"
    using reliable_Critical [OF assms(1), of "GET (signalKey s)" w] assms(2) by auto
  have p: "GetPending E poll = do {
       x \<leftarrow> GetLatestSignal E s;
       ret (case x of
         Inl _ \<Rightarrow> writeError (EMsg ''cache error'') 500
       | Inr None \<Rightarrow> \<lparr>status = 204, headers = json_type, rbody = NoBody\<rparr>
       | Inr (Some d) \<Rightarrow> \<lparr>status = 200, headers = json_type, rbody = Doc d\<rparr>) }"
    unfolding GetPending_def Let_def assms(3) using assms(4) by (subst if_not_P) simp_all
  show ?thesis unfolding p GetLatestSignal_def using v by (simp add: bytes_or_nil_def)
qed

end

text \<open>
  C31: Polling returns the latest signal: after a request was accepted, GET /pending/{symbol} with
  the normalised symbol, in whatever letter case, is answered 200 with a document that decodes to
  the signal, at every later time until another request is taken.
\<close>

theorem pending_returns_latest:
  assumes "deployment E ac al ad D" and "reliable_crit E" and "reliable_db E" and "0 \<le> DeduplicateTTL cfg"
    and "admissible cfg (clock w) r sg" and "live (clock w) (ac (crit w)) (dedupKey (TicketID sg) (SignalType sg)) = None"
    and "row_fits (new_uuid E (seed w)) (clock w) sg (ad (pg w))" and "job_ok (first_job E w sg)"
    and "run_state (Receive E cfg r) w = (resp, w')" and "clock w \<le> now"
    and "ToUpper (rq_value poll ''symbol'') = Symbol sg" and "Symbol sg \<noteq> []"
  shows "\<exists>d w''. run_state (GetPending E poll) (w'\<lparr>clock := now\<rparr>) = (\<lparr>status = 200, headers = json_type, rbody = Doc d\<rparr>, w'')
    \<and> Unmarshal_signal d = Some sg"
proof -
  obtain d where d: "\<forall>t \<ge> clock w. live t (ac (crit w')) (signalKey (Symbol sg)) = Some d" "Unmarshal_signal d = Some sg"
    using deployment.accepted_effect [OF assms(1-8)] assms(9) by auto
  show ?thesis
    using deployment.GetPending_live [OF assms(1,2), of "w'\<lparr>clock := now\<rparr>"] d assms(10-12) by fastforce
qed

theorem pending_returns_latest_witness:
  "\<exists>resp w' d w''. run_state (Receive calm_env demo_cfg (demo_post ''2026-01-01T00:00:00Z'' ''OPEN'' (27 / 20)))
       (calm_world empty_tables demo_time) = (resp, w')
    \<and> run_state (GetPending calm_env ((bare_request [])\<lparr>rq_value := (\<lambda>k. ''eurusd'')\<rparr>)) (w'\<lparr>clock := demo_time + Hour\<rparr>)
        = (\<lparr>status = 200, headers = json_type, rbody = Doc d\<rparr>, w'') \<and> Unmarshal_signal d = Some (demo_signal ''OPEN'' (27 / 20))"
proof -
  let ?w = "calm_world empty_tables demo_time"
  let ?poll = "(bare_request [])\<lparr>rq_value := (\<lambda>k. ''eurusd'')\<rparr>"
  have a: "admissible demo_cfg (clock ?w) (demo_post ''2026-01-01T00:00:00Z'' ''OPEN'' (27 / 20)) (demo_signal ''OPEN'' (27 / 20))"
    using demo_admissible [of demo_time "''OPEN''" "27 / 20"] by (simp add: Second_def signal_types)
  obtain resp w' where r: "run_state (Receive calm_env demo_cfg (demo_post ''2026-01-01T00:00:00Z'' ''OPEN'' (27 / 20))) ?w = (resp, w')"
    by (metis surj_pair)
  have t: "0 \<le> DeduplicateTTL demo_cfg" "clock ?w \<le> demo_time + Hour"
    by (simp_all add: demo_cfg_def duration_units)
  have "ToUpper ''eurusd'' = ''EURUSD''" by code_simp
  then have p: "ToUpper (rq_value ?poll ''symbol'') = Symbol (demo_signal ''OPEN'' (27 / 20))"
    "Symbol (demo_signal ''OPEN'' (27 / 20)) \<noteq> []"
    by (simp_all add: demo_signal_def)
  from pending_returns_latest [OF calm_deployment reliable_crit_calm reliable_calm t(1) a _ _ _ r t(2) p]
    demo_row_fits demo_job_ok r show ?thesis by auto
qed

end
