(* ===== verification/Queue.thy ===== *)
theory Queue
  imports SignalHandler
begin

text \<open>
  \<open>internal/queue/consumer.go\<close>: the consumer of the per-symbol job queues. \<open>consume_once\<close> is one
  round of the loop in \<open>consumeSymbol\<close>, \<open>processJob\<close> what is done with a job, \<open>reQueueStale\<close> the
  cleanup after a crash.
\<close>

subsection \<open>Contexts\<close>

text \<open>
  A context is given by the time at which it is cancelled, if ever. A \<open>select\<close> between
  \<open>ctx.Done()\<close> and \<open>time.After(d)\<close> takes the first that is ready; of two that are ready at once
  Go may take either, here the cancellation. Its result says whether the context ended it.
\<close>

type_synonym ctx = "int option"

definition ctx_done :: "ctx \<Rightarrow> int \<Rightarrow> bool" where
  "ctx_done ctx now = (case ctx of None \<Rightarrow> False | Some t \<Rightarrow> t \<le> now)"

definition wait_or_done :: "ctx \<Rightarrow> int \<Rightarrow> ('r, 'l, 'd, bool) io" where
  "wait_or_done ctx d = State (\<lambda>w. let fire = clock w + max 0 d in
     if ctx_done ctx fire then (True, w\<lparr>clock := max (clock w) (the ctx)\<rparr>) else (False, w\<lparr>clock := fire\<rparr>))"

subsection \<open>The consumer\<close>

type_synonym ('r, 'l, 'd) handler = "Job \<Rightarrow> ('r, 'l, 'd, unit result) io"

record ('r, 'l, 'd) Consumer =
  con_cfg :: WorkerConfig
  con_handlers :: "('r, 'l, 'd) handler list"
  con_symbols :: "string list"

definition NewConsumer :: "WorkerConfig \<Rightarrow> ('r, 'l, 'd) Consumer" where
  "NewConsumer c = \<lparr>con_cfg = c, con_handlers = [], con_symbols = []\<rparr>"

definition RegisterHandler :: "('r, 'l, 'd) handler \<Rightarrow> ('r, 'l, 'd) Consumer \<Rightarrow> ('r, 'l, 'd) Consumer" where
  "RegisterHandler h c = c\<lparr>con_handlers := con_handlers c @ [h]\<rparr>"

fun add_symbol :: "string \<Rightarrow> string list \<Rightarrow> string list" where
  "add_symbol sy [] = [sy]"
| "add_symbol sy (s # ss) = (if s = sy then s # ss else s # add_symbol sy ss)"

definition AddSymbol :: "string \<Rightarrow> ('r, 'l, 'd) Consumer \<Rightarrow> ('r, 'l, 'd) Consumer" where
  "AddSymbol sy c = c\<lparr>con_symbols := add_symbol sy (con_symbols c)\<rparr>"

definition Symbols :: "('r, 'l, 'd) Consumer \<Rightarrow> string list" where
  "Symbols c = con_symbols c"

text \<open>
  \<open>float64\<close> arithmetic: products with a power of two are exact, the sum is rounded. (Beyond an
  attempt of 1023 Go's \<open>math.Pow\<close> is infinite; like the exact power it is then out of range.)
\<close>

definition round_signed :: "rat \<Rightarrow> rat" where
  "round_signed q = (if q < 0 then - round_float (- q) else round_float q)"

definition backoff :: "('r, 'l, 'd) env \<Rightarrow> WorkerConfig \<Rightarrow> int \<Rightarrow> ('r, 'l, 'd, int) io" where
  "backoff E c attempt = do {
     n \<leftarrow> rand_Intn E 500;
     let base = (of_int (float_of_int (BaseBackoff c)) :: rat);
     let exp2 = 2 powi attempt;
     let jitter = of_nat n * of_int Millisecond;
     let d = float_int E (round_signed (base * exp2 + jitter));
     ret (if d > MaxBackoff c then MaxBackoff c else d) }"

subsection \<open>One job\<close>

text \<open>Every handler is called; the last error counts.\<close>

fun run_handlers :: "('r, 'l, 'd) handler list \<Rightarrow> Job \<Rightarrow> goerr option \<Rightarrow> ('r, 'l, 'd, goerr option) io" where
  "run_handlers [] job lastErr = ret lastErr"
| "run_handlers (h # hs) job lastErr = do {
     x \<leftarrow> h job;
     run_handlers hs job (case x of Inl e \<Rightarrow> Some e | Inr _ \<Rightarrow> lastErr) }"

text \<open>
  The retry: \<open>updated\<close> is the byte slice of the marshalled job (nil, that is \<open>null\<close>, if that
  fails), and \<open>EnqueueJob\<close> marshals its argument again.
\<close>

definition updated_payload :: "('r, 'l, 'd) env \<Rightarrow> Job \<Rightarrow> gopayload" where
  "updated_payload E job = (case Marshal (json_text E) (Struct (Marshal_job (uuid_str E) job)) of
     Inl _ \<Rightarrow> Struct (Some JNull) | Inr d \<Rightarrow> Bytes d)"

definition processJob :: "('r, 'l, 'd) env \<Rightarrow> ('r, 'l, 'd) Consumer \<Rightarrow> ctx \<Rightarrow> string \<Rightarrow> json \<Rightarrow> Job
    \<Rightarrow> ('r, 'l, 'd, unit) io" where
  "processJob E c ctx symbol raw job0 = do {
     lastErr \<leftarrow> run_handlers (con_handlers c) job0 None;
     case lastErr of
       None \<Rightarrow> do { _ \<leftarrow> AckJob E symbol raw; ret () }
     | Some err \<Rightarrow> do {
         let job = job0\<lparr>Attempts := wrap64 (Attempts job0 + 1)\<rparr>;
         if Attempts job \<ge> MaxRetries (con_cfg c) then do {
           _ \<leftarrow> MoveToDeadLetter E symbol raw;
           _ \<leftarrow> InsertDeadLetter E raw (Some (SignalID job)) err;
           ret () }
         else do {
           b \<leftarrow> backoff E (con_cfg c) (Attempts job);
           _ \<leftarrow> AckJob E symbol raw;
           stopped \<leftarrow> wait_or_done ctx b;
           if stopped then ret ()
           else do { _ \<leftarrow> EnqueueJob E symbol (updated_payload E job); ret () } } } }"

subsection \<open>The loop over one queue\<close>

text \<open>One round; the result says whether the loop returns.\<close>

definition consume_once :: "('r, 'l, 'd) env \<Rightarrow> ('r, 'l, 'd) Consumer \<Rightarrow> ctx \<Rightarrow> string
    \<Rightarrow> ('r, 'l, 'd, bool) io" where
  "consume_once E c ctx symbol = do {
     now \<leftarrow> time_now;
     if ctx_done ctx now then ret True
     else do {
       raw \<leftarrow> DequeueJob E symbol (2 * Second);
       case raw of
         Inl _ \<Rightarrow> do {
           now \<leftarrow> time_now;
           if ctx_done ctx now then ret True
           else do { _ \<leftarrow> sleep (500 * Millisecond); ret False } }
       | Inr None \<Rightarrow> ret False
       | Inr (Some d) \<Rightarrow>
           (case Unmarshal_job (uuid_prs E) d of
              None \<Rightarrow> do { _ \<leftarrow> AckJob E symbol d; ret False }
            | Some job \<Rightarrow> do { _ \<leftarrow> processJob E c ctx symbol d job; ret False }) } }"

partial_function (option) consumeSymbol :: "('r, 'l, 'd) env \<Rightarrow> ('r, 'l, 'd) Consumer \<Rightarrow> ctx \<Rightarrow> string
    \<Rightarrow> ('r, 'l, 'd) world \<Rightarrow> ('r, 'l, 'd) world option" where
  "consumeSymbol E c ctx symbol w = (case run_state (consume_once E c ctx symbol) w of
     (returns, w') \<Rightarrow> if returns then Some w' else consumeSymbol E c ctx symbol w')"

definition ConsumeOne :: "('r, 'l, 'd) env \<Rightarrow> ('r, 'l, 'd) Consumer \<Rightarrow> ctx \<Rightarrow> string
    \<Rightarrow> ('r, 'l, 'd) world \<Rightarrow> ('r, 'l, 'd) world option" where
  "ConsumeOne E c ctx symbol w = consumeSymbol E c ctx symbol w"

subsection \<open>Cleanup\<close>

fun requeue_jobs :: "('r, 'l, 'd) env \<Rightarrow> WorkerConfig \<Rightarrow> string \<Rightarrow> json list \<Rightarrow> ('r, 'l, 'd, unit) io" where
  "requeue_jobs E c symbol [] = ret ()"
| "requeue_jobs E c symbol (d # ds) = (case Unmarshal_job (uuid_prs E) d of
     None \<Rightarrow> requeue_jobs E c symbol ds
   | Some job \<Rightarrow> do {
       now \<leftarrow> time_now;
       _ \<leftarrow> (if Sub now (inst (EnqueuedAt job)) > StaleJobThreshold c then NackJob E symbol d else ret (Inr ()));
       requeue_jobs E c symbol ds })"

definition reQueueStale :: "('r, 'l, 'd) env \<Rightarrow> WorkerConfig \<Rightarrow> string \<Rightarrow> ('r, 'l, 'd, unit) io" where
  "reQueueStale E c symbol = do {
     x \<leftarrow> GetAllProcessingJobs E symbol;
     case x of Inl _ \<Rightarrow> ret () | Inr jobs \<Rightarrow> requeue_jobs E c symbol jobs }"

text \<open>
  One tick of \<open>runCleanup\<close>, which \<open>Start\<close> runs every \<open>CleanupInterval\<close> (a positive one:
  \<open>NewTicker\<close> panics on any other), on the symbols that the consumer has at that time.
\<close>

fun cleanup_tick :: "('r, 'l, 'd) env \<Rightarrow> WorkerConfig \<Rightarrow> string list \<Rightarrow> ('r, 'l, 'd, unit) io" where
  "cleanup_tick E c [] = ret ()"
| "cleanup_tick E c (sy # sys) = do { _ \<leftarrow> reQueueStale E c sy; cleanup_tick E c sys }"

partial_function (option) runCleanup :: "('r, 'l, 'd) env \<Rightarrow> WorkerConfig \<Rightarrow> (int \<Rightarrow> string list) \<Rightarrow> ctx
    \<Rightarrow> ('r, 'l, 'd) world \<Rightarrow> ('r, 'l, 'd) world option" where
  "runCleanup E c syms ctx w = (case run_state (wait_or_done ctx (CleanupInterval c)) w of
     (stopped, w1) \<Rightarrow> if stopped then Some w1
       else runCleanup E c syms ctx (snd (run_state (cleanup_tick E c (syms (clock w1))) w1)))"

definition Start :: "('r, 'l, 'd) env \<Rightarrow> WorkerConfig \<Rightarrow> (int \<Rightarrow> string list) \<Rightarrow> ctx
    \<Rightarrow> ('r, 'l, 'd) world \<Rightarrow> ('r, 'l, 'd) world option" where
  "Start E c syms ctx w = runCleanup E c syms ctx w"

subsection \<open>The symbols of a consumer\<close>

lemma add_symbol_set [simp]: "set (add_symbol sy ss) = insert sy (set ss)"
  by (induction ss) auto

lemma add_symbol_known: "sy \<in> set ss \<Longrightarrow> add_symbol sy ss = ss"
  by (induction ss) auto

lemma add_symbol_new: "sy \<notin> set ss \<Longrightarrow> add_symbol sy ss = ss @ [sy]"
  by (induction ss) auto

lemma add_symbol_distinct: "distinct ss \<Longrightarrow> distinct (add_symbol sy ss)"
  by (cases "sy \<in> set ss") (simp_all add: add_symbol_known add_symbol_new)

text \<open>The defaults of \<open>config.Load\<close> for the worker, and a queue with one job, for concrete instances.\<close>

definition demo_worker :: WorkerConfig where
  "demo_worker = \<lparr>Concurrency = 10, MaxRetries = 5, BaseBackoff = Second, MaxBackoff = 5 * Minute,
     StaleJobThreshold = 60 * Second, CleanupInterval = 30 * Second\<rparr>"

definition demo_consumer :: "(Job \<Rightarrow> ('r, 'l, 'd, unit result) io) \<Rightarrow> ('r, 'l, 'd) Consumer" where
  "demo_consumer h = \<lparr>con_cfg = demo_worker, con_handlers = [h], con_symbols = [''EURUSD'']\<rparr>"

definition demo_job :: Job where
  "demo_job = first_job calm_env (calm_world empty_tables demo_time) (demo_signal ''OPEN'' (27 / 20))"

definition demo_text :: json where
  "demo_text = (case Marshal_job uuid_string demo_job of Some d \<Rightarrow> d | None \<Rightarrow> JNull)"

lemma demo_text_job [simp]: "Unmarshal_job uuid_parse demo_text = Some demo_job"
proof -
  have ok: "job_ok demo_job" using demo_job_ok by (simp add: demo_job_def)
  then obtain d where d: "Marshal_job uuid_string demo_job = Some d" using Marshal_job_Some by blast
  from uuid_model.Unmarshal_Marshal_job [OF this ok] d show ?thesis by (simp add: demo_text_def)
qed

lemma demo_job_attempts [simp]: "Attempts demo_job = 0"
  by (simp add: demo_job_def first_job_def)

definition queue_world :: "json list \<Rightarrow> (rview, rview, tables) world" where
  "queue_world q = (calm_world empty_tables demo_time)\<lparr>crit := put_list (QueueKey ''EURUSD'') q empty_rview\<rparr>"

lemma queue_world_simps [simp]:
  "pg (queue_world q) = empty_tables" "clock (queue_world q) = demo_time" "lru (queue_world q) = empty_rview"
  "crit (queue_world q) = put_list (QueueKey ''EURUSD'') q empty_rview"
  by (simp_all add: queue_world_def)

end
