(* ===== verification/QueueMachine.thy ===== *)
theory QueueMachine
  imports Queue
begin

text \<open>
  What becomes of the jobs: the queue of a symbol as a state machine, which the operations of the
  consumer refine under crashes and cleanups at any time, the fate of a job that fails, and the
  end of the loop when its context is cancelled.
\<close>

subsection \<open>The queue as a state machine\<close>

text \<open>
  The lists of one symbol: jobs that wait (the oldest last), jobs handed to a worker, and the
  dead letters. An event moves one job; \<open>qstep\<close> is the specification of what may happen to it.
  \<open>Retry\<close> replaces the job by another text; a crash is no event: the job stays in flight.
\<close>

record qview =
  waiting :: "json list"
  flying :: "json list"
  buried :: "json list"

datatype qevent =
    Arrive json
  | Take json
  | Finish json
  | Discard json
  | Abandon json
  | Bury json
  | Retry json json
  | Requeue json

inductive qstep :: "qview \<Rightarrow> qevent \<Rightarrow> qview \<Rightarrow> bool" where
  arrive: "qstep v (Arrive d) (v\<lparr>waiting := d # waiting v\<rparr>)"
| take_job: "waiting v = q @ [d] \<Longrightarrow> qstep v (Take d) (v\<lparr>waiting := q, flying := d # flying v\<rparr>)"
| finish: "d \<in> set (flying v) \<Longrightarrow> qstep v (Finish d) (v\<lparr>flying := remove1 d (flying v)\<rparr>)"
| discard: "d \<in> set (flying v) \<Longrightarrow> qstep v (Discard d) (v\<lparr>flying := remove1 d (flying v)\<rparr>)"
| abandon: "d \<in> set (flying v) \<Longrightarrow> qstep v (Abandon d) (v\<lparr>flying := remove1 d (flying v)\<rparr>)"
| bury: "d \<in> set (flying v) \<Longrightarrow>
     qstep v (Bury d) (v\<lparr>flying := remove1 d (flying v), buried := d # buried v\<rparr>)"
| retry: "d \<in> set (flying v) \<Longrightarrow>
     qstep v (Retry d p) (v\<lparr>flying := remove1 d (flying v), waiting := p # waiting v\<rparr>)"
| requeue: "d \<in> set (flying v) \<Longrightarrow>
     qstep v (Requeue d) (v\<lparr>flying := remove1 d (flying v), waiting := d # waiting v\<rparr>)"

inductive qsteps :: "qview \<Rightarrow> qevent list \<Rightarrow> qview \<Rightarrow> bool" where
  none: "qsteps v [] v"
| more: "qstep v e u \<Longrightarrow> qsteps u es v' \<Longrightarrow> qsteps v (e # es) v'"

inductive_cases qsteps_NilE [elim!]: "qsteps v [] v'"
inductive_cases qsteps_ConsE [elim!]: "qsteps v (e # es) v'"

inductive_simps qstep_take: "qstep v (Take d) v'"
inductive_simps qstep_discard: "qstep v (Discard d) v'"
inductive_simps qstep_retry: "qstep v (Retry d p) v'"

lemma qsteps_append: "qsteps v es u \<Longrightarrow> qsteps u fs v' \<Longrightarrow> qsteps v (es @ fs) v'"
  by (induction rule: qsteps.induct) (auto intro: qsteps.intros)

lemma qsteps_one: "qstep v e v' \<Longrightarrow> qsteps v [e] v'"
  by (blast intro: qsteps.intros)

text \<open>What came in, and what left the lists.\<close>

fun gained :: "qevent \<Rightarrow> json multiset" where
  "gained (Arrive d) = {#d#}"
| "gained (Retry d p) = {#p#}"
| "gained _ = {#}"

fun gone :: "qevent \<Rightarrow> json multiset" where
  "gone (Finish d) = {#d#}"
| "gone (Discard d) = {#d#}"
| "gone (Abandon d) = {#d#}"
| "gone (Retry d p) = {#d#}"
| "gone _ = {#}"

definition all_jobs :: "qview \<Rightarrow> json multiset" where
  "all_jobs v = mset (waiting v) + mset (flying v) + mset (buried v)"

lemma qstep_accounts: "qstep v e v' \<Longrightarrow> all_jobs v' + gone e = all_jobs v + gained e"
  by (induction rule: qstep.induct) (auto simp: all_jobs_def)

lemma qsteps_accounts:
  "qsteps v es v' \<Longrightarrow> all_jobs v' + sum_list (map gone es) = all_jobs v + sum_list (map gained es)"
proof (induction rule: qsteps.induct)
  case (more v e u es v')
  from qstep_accounts [OF more.hyps(1)] more.IH show ?case
    by (simp add: ac_simps) (metis (no_types, lifting) add.assoc add.left_commute)
qed simp

definition qview_of :: "('r \<Rightarrow> rview) \<Rightarrow> string \<Rightarrow> ('r, 'l, 'd) world \<Rightarrow> qview" where
  "qview_of ac sy w = \<lparr>waiting = rlst (ac (crit w)) (QueueKey sy), flying = rlst (ac (crit w)) (ProcessingKey sy),
     buried = rlst (ac (crit w)) DeadLetterKey\<rparr>"

context deployment
begin

lemma lists_after:
  assumes "reliable_crit E" and "\<not> is_scan c"
  shows "\<exists>w'. run_state (Critical E c) w = (redis_result (Inr (fst (redis_step (clock w) c (ac (crit w))))), w')
    \<and> rlst (ac (crit w')) = rlst (snd (redis_step (clock w) c (ac (crit w)))) \<and> same_but_crit w w'"
  using reliable_Critical [OF assms] agreesD(1) by blast

lemma AckJob_view:
  assumes "reliable_crit E"
  shows "\<exists>w'. run_state (AckJob E sy d) w = (Inr (), w') \<and> same_but_crit w w'
    \<and> qview_of ac sy w' = (qview_of ac sy w)\<lparr>flying := remove1 d (flying (qview_of ac sy w))\<rparr>"
  using lists_after [OF assms, of "LREM (ProcessingKey sy) d" w]
  by (auto simp: AckJob_def only_err_def qview_of_def)

lemma EnqueueJob_view:
  assumes "reliable_crit E"
  shows "\<exists>w'. run_state (EnqueueJob E sy (Struct (Some d))) w = (Inr (), w') \<and> same_but_crit w w'
    \<and> qview_of ac sy w' = (qview_of ac sy w)\<lparr>waiting := d # waiting (qview_of ac sy w)\<rparr>"
  using lists_after [OF assms, of "LPUSH (QueueKey sy) d" w]
  by (auto simp: EnqueueJob_def only_err_def qview_of_def)

lemma pipe_view:
  assumes "reliable_crit E"
  shows "\<exists>r w'. run_state (pipe2 E Critical (LREM k x) (LPUSH l y)) w = (Inr r, w') \<and> same_but_crit w w'
    \<and> rlst (ac (crit w')) = (let v = (rlst (ac (crit w)))(k := remove1 x (rlst (ac (crit w)) k)) in v(l := y # v l))"
proof -
  obtain r1 w1 where w1: "run_state (Critical E (LREM k x)) w = (Inr r1, w1)" "same_but_crit w w1"
    "rlst (ac (crit w1)) = (rlst (ac (crit w)))(k := remove1 x (rlst (ac (crit w)) k))"
    using lists_after [OF assms, of "LREM k x" w] by auto
  obtain r2 w2 where w2: "run_state (Critical E (LPUSH l y)) w1 = (Inr r2, w2)" "same_but_crit w1 w2"
    "rlst (ac (crit w2)) = (rlst (ac (crit w1)))(l := y # rlst (ac (crit w1)) l)"
    using lists_after [OF assms, of "LPUSH l y" w1] by auto
  show ?thesis using w1 w2 by (auto simp: pipe2_def same_but_crit_def Let_def)
qed

lemma MoveToDeadLetter_view:
  assumes "reliable_crit E"
  shows "\<exists>w'. run_state (MoveToDeadLetter E sy d) w = (Inr (), w') \<and> same_but_crit w w'
    \<and> qview_of ac sy w' = (qview_of ac sy w)\<lparr>flying := remove1 d (flying (qview_of ac sy w)),
        buried := d # buried (qview_of ac sy w)\<rparr>"
  using pipe_view [OF assms, of "ProcessingKey sy" d DeadLetterKey d w]
  by (auto simp: MoveToDeadLetter_def only_err_def qview_of_def Let_def)

lemma NackJob_view:
  assumes "reliable_crit E"
  shows "\<exists>w'. run_state (NackJob E sy d) w = (Inr (), w') \<and> same_but_crit w w'
    \<and> qview_of ac sy w' = (qview_of ac sy w)\<lparr>flying := remove1 d (flying (qview_of ac sy w)),
        waiting := d # waiting (qview_of ac sy w)\<rparr>"
  using pipe_view [OF assms, of "ProcessingKey sy" d "QueueKey sy" d w]
  by (auto simp: NackJob_def only_err_def qview_of_def Let_def)

lemma DequeueJob_view:
  assumes "reliable_crit E"
  shows "\<exists>w'. pg w' = pg w \<and> lru w' = lru w \<and> seed w' = seed w \<and>
    (if waiting (qview_of ac sy w) = [] then run_state (DequeueJob E sy tm) w = (Inr None, w')
       \<and> qview_of ac sy w' = qview_of ac sy w \<and> clock w' = clock w + max 0 tm
     else run_state (DequeueJob E sy tm) w = (Inr (Some (last (waiting (qview_of ac sy w)))), w')
       \<and> clock w' = clock w \<and> qview_of ac sy w' = (qview_of ac sy w)
         \<lparr>waiting := butlast (waiting (qview_of ac sy w)),
          flying := last (waiting (qview_of ac sy w)) # flying (qview_of ac sy w)\<rparr>)"
  using lists_after [OF assms, of "RPOPLPUSH (QueueKey sy) (ProcessingKey sy)" w]
  by (auto simp: DequeueJob_def bytes_or_nil_def qview_of_def same_but_crit_def Let_def split: if_splits)

end

text \<open>Handlers that leave the critical server and the clock alone.\<close>

definition handlers_off_crit :: "('r, 'l, 'd) Consumer \<Rightarrow> bool" where
  "handlers_off_crit c \<longleftrightarrow> (\<forall>h \<in> set (con_handlers c). \<forall>job. keeps crit (h job) \<and> keeps clock (h job))"

lemma run_handlers_keeps: "\<forall>h \<in> set hs. \<forall>job. keeps f (h job) \<Longrightarrow> keeps f (run_handlers hs job e)"
  by (induction hs arbitrary: e) (auto intro!: hoare)

lemma backoff_keeps [hoare]: "keeps crit (backoff E c n)" "keeps clock (backoff E c n)" "keeps pg (backoff E c n)"
  unfolding backoff_def Let_def by (intro hoare)+

lemma wait_or_done_keeps [hoare]: "keeps crit (wait_or_done ctx d)" "keeps pg (wait_or_done ctx d)"
  by (auto simp: keeps_def wait_or_done_def Let_def)

lemma qview_crit: "crit w' = crit w \<Longrightarrow> qview_of ac sy w' = qview_of ac sy w"
  by (simp add: qview_of_def)

text \<open>The text that a retry puts on the queue.\<close>

definition payload_text :: "('r, 'l, 'd) env \<Rightarrow> gopayload \<Rightarrow> json" where
  "payload_text E p = (case Marshal (json_text E) p of Inr d \<Rightarrow> d | Inl _ \<Rightarrow> JNull)"

definition next_attempt :: "Job \<Rightarrow> Job" where
  "next_attempt job = job\<lparr>Attempts := wrap64 (Attempts job + 1)\<rparr>"

definition waits_out :: "('r, 'l, 'd) env \<Rightarrow> ('r, 'l, 'd) Consumer \<Rightarrow> ctx \<Rightarrow> Job \<Rightarrow> ('r, 'l, 'd) world \<Rightarrow> bool" where
  "waits_out E c ctx job w = (let (b, w1) = run_state (backoff E (con_cfg c) (Attempts job)) w in
     \<not> ctx_done ctx (clock w1 + max 0 b))"

text \<open>What becomes of a job, as an event: decided by the handlers, the attempts and the context.\<close>

definition job_event :: "('r, 'l, 'd) env \<Rightarrow> ('r, 'l, 'd) Consumer \<Rightarrow> ctx \<Rightarrow> json \<Rightarrow> Job
    \<Rightarrow> ('r, 'l, 'd) world \<Rightarrow> qevent" where
  "job_event E c ctx raw job w = (case run_state (run_handlers (con_handlers c) job None) w of
     (None, _) \<Rightarrow> Finish raw
   | (Some _, w1) \<Rightarrow>
       if MaxRetries (con_cfg c) \<le> Attempts (next_attempt job) then Bury raw
       else if waits_out E c ctx (next_attempt job) w1
       then Retry raw (payload_text E (updated_payload E (next_attempt job))) else Abandon raw)"

lemma updated_payload_cases:
  "(\<exists>d. updated_payload E job = Bytes d) \<or> updated_payload E job = Struct (Some JNull)"
  by (simp add: updated_payload_def split: sum.splits)

lemma EnqueueJob_payload:
  "EnqueueJob E sy (updated_payload E job) = EnqueueJob E sy (Struct (Some (payload_text E (updated_payload E job))))"
  using updated_payload_cases [of E job] by (auto simp: EnqueueJob_def payload_text_def)

text \<open>A job that can be printed is put back as a text that no consumer can read as a job.\<close>

lemma retry_text_unreadable:
  assumes "Marshal_job (uuid_str E) job \<noteq> None"
  shows "Unmarshal_job prs (payload_text E (updated_payload E job)) = None"
  using assms by (auto simp: updated_payload_def payload_text_def)

context deployment
begin

lemma processJob_step:
  assumes "reliable_crit E" and "handlers_off_crit c" and "raw \<in> set (flying (qview_of ac sy w))"
    and "run_state (processJob E c ctx sy raw job) w = (u, w')"
  shows "qstep (qview_of ac sy w) (job_event E c ctx raw job w) (qview_of ac sy w')"
proof -
  obtain e w1 where h: "run_state (run_handlers (con_handlers c) job None) w = (e, w1)" by (metis surj_pair)
  have k: "keeps crit (run_handlers (con_handlers c) job None)" "keeps clock (run_handlers (con_handlers c) job None)"
    using assms(2) unfolding handlers_off_crit_def by (simp_all add: run_handlers_keeps)
  have v1: "qview_of ac sy w1 = qview_of ac sy w" by (rule qview_crit [OF keepsD [OF k(1) h]])
  let ?v = "qview_of ac sy w" and ?j = "next_attempt job"
  show ?thesis
  proof (cases e)
    case None
    obtain w2 where a: "run_state (AckJob E sy raw) w1 = (Inr (), w2)"
      and v2: "qview_of ac sy w2 = ?v\<lparr>flying := remove1 raw (flying ?v)\<rparr>"
      using AckJob_view [OF assms(1), of sy raw w1] v1 by auto
    have "w' = w2" using assms(4) h None a by (simp add: processJob_def)
    then show ?thesis using qstep.finish [OF assms(3)] v2 h None by (simp add: job_event_def)
  next
    case (Some err)
    show ?thesis
    proof (cases "MaxRetries (con_cfg c) \<le> Attempts ?j")
      case True
      obtain w2 where a: "run_state (MoveToDeadLetter E sy raw) w1 = (Inr (), w2)"
        and v2: "qview_of ac sy w2 = ?v\<lparr>flying := remove1 raw (flying ?v), buried := raw # buried ?v\<rparr>"
        using MoveToDeadLetter_view [OF assms(1), of sy raw w1] v1 by auto
      obtain x w3 where i: "run_state (InsertDeadLetter E raw (Some (SignalID ?j)) err) w2 = (x, w3)" by (metis surj_pair)
      have "w' = w3" using assms(4) h Some True a i by (simp add: processJob_def next_attempt_def Let_def)
      moreover have "crit w3 = crit w2" by (rule keepsD [OF store_update_keeps(20) [OF off_pg_proj(1)] i])
      ultimately have "qview_of ac sy w' = ?v\<lparr>flying := remove1 raw (flying ?v), buried := raw # buried ?v\<rparr>"
        using v2 qview_crit by metis
      then show ?thesis using qstep.bury [OF assms(3)] h Some True by (simp add: job_event_def)
    next
      case no: False
      obtain b w2 where b: "run_state (backoff E (con_cfg c) (Attempts ?j)) w1 = (b, w2)" by (metis surj_pair)
      have c2: "crit w2 = crit w1" by (rule keepsD [OF backoff_keeps(1) b])
      obtain w3 where a: "run_state (AckJob E sy raw) w2 = (Inr (), w3)" and s3: "same_but_crit w2 w3"
        and v3: "qview_of ac sy w3 = ?v\<lparr>flying := remove1 raw (flying ?v)\<rparr>"
        using AckJob_view [OF assms(1), of sy raw w2] v1 qview_crit [OF c2, of ac sy] by auto
      have cl: "clock w3 = clock w2" using s3 by (simp add: same_but_crit_def)
      obtain st w4 where s: "run_state (wait_or_done ctx b) w3 = (st, w4)" by (metis surj_pair)
      have v4: "qview_of ac sy w4 = ?v\<lparr>flying := remove1 raw (flying ?v)\<rparr>"
        using v3 qview_crit [OF keepsD [OF wait_or_done_keeps(1) s]] by metis
      have st: "st \<longleftrightarrow> \<not> waits_out E c ctx ?j w1"
        using s b cl by (auto simp: wait_or_done_def waits_out_def Let_def split: if_splits)
      show ?thesis
      proof (cases st)
        case True
        then have "w' = w4" using assms(4) h Some no b a s by (simp add: processJob_def next_attempt_def Let_def)
        then show ?thesis using qstep.abandon [OF assms(3)] v4 h Some no st True by (simp add: job_event_def)
      next
        case False
        let ?p = "payload_text E (updated_payload E ?j)"
        obtain w5 where q: "run_state (EnqueueJob E sy (updated_payload E ?j)) w4 = (Inr (), w5)"
          and v5: "qview_of ac sy w5 = ?v\<lparr>flying := remove1 raw (flying ?v), waiting := ?p # waiting ?v\<rparr>"
          using EnqueueJob_view [OF assms(1), of sy ?p w4] v4 by (auto simp: EnqueueJob_payload)
        have "w' = w5" using assms(4) h Some no b a s False q by (simp add: processJob_def next_attempt_def Let_def)
        then show ?thesis using qstep.retry [OF assms(3)] v5 h Some no st False by (simp add: job_event_def)
      qed
    qed
  qed
qed

end

definition round_events :: "('r, 'l, 'd) env \<Rightarrow> ('r \<Rightarrow> rview) \<Rightarrow> ('r, 'l, 'd) Consumer \<Rightarrow> ctx \<Rightarrow> string
    \<Rightarrow> ('r, 'l, 'd) world \<Rightarrow> qevent list" where
  "round_events E ac c ctx sy w = (let q = waiting (qview_of ac sy w) in
     if ctx_done ctx (clock w) \<or> q = [] then []
     else Take (last q) # (case Unmarshal_job (uuid_prs E) (last q) of
         None \<Rightarrow> [Discard (last q)]
       | Some job \<Rightarrow> [job_event E c ctx (last q) job (snd (run_state (DequeueJob E sy (2 * Second)) w))]))"

text \<open>The jobs in flight that a cleanup puts back.\<close>

definition stale :: "('r, 'l, 'd) env \<Rightarrow> WorkerConfig \<Rightarrow> int \<Rightarrow> json \<Rightarrow> bool" where
  "stale E c now d \<longleftrightarrow> (case Unmarshal_job (uuid_prs E) d of None \<Rightarrow> False
     | Some job \<Rightarrow> StaleJobThreshold c < Sub now (inst (EnqueuedAt job)))"

lemma qstep_take_last:
  assumes "waiting v \<noteq> []"
  shows "qstep v (Take (last (waiting v))) (v\<lparr>waiting := butlast (waiting v), flying := last (waiting v) # flying v\<rparr>)"
  using assms by (intro qstep.take_job) simp

context deployment
begin

lemma consume_once_steps:
  assumes "reliable_crit E" and "handlers_off_crit c" and "run_state (consume_once E c ctx sy) w = (r, w')"
  shows "qsteps (qview_of ac sy w) (round_events E ac c ctx sy w) (qview_of ac sy w')"
proof (cases "ctx_done ctx (clock w)")
  case True
  then show ?thesis using assms(3) by (auto simp: consume_once_def round_events_def intro: qsteps.none)
next
  case False
  let ?v = "qview_of ac sy w"
  obtain x w1 where d: "run_state (DequeueJob E sy (2 * Second)) w = (x, w1)" by (metis surj_pair)
  show ?thesis
  proof (cases "waiting ?v = []")
    case True
    then have "x = Inr None" "qview_of ac sy w1 = ?v"
      using DequeueJob_view [OF assms(1), of w sy "2 * Second"] d by auto
    then show ?thesis using assms(3) False True d
      by (auto simp: consume_once_def round_events_def intro: qsteps.none)
  next
    case ne: False
    define raw where "raw = last (waiting ?v)"
    have x: "x = Inr (Some raw)" and v1: "qview_of ac sy w1 = ?v\<lparr>waiting := butlast (waiting ?v), flying := raw # flying ?v\<rparr>"
      using DequeueJob_view [OF assms(1), of w sy "2 * Second"] d ne by (auto simp: raw_def)
    have t: "qstep ?v (Take raw) (qview_of ac sy w1)"
      using qstep_take_last [OF ne] v1 by (simp add: raw_def)
    have f: "raw \<in> set (flying (qview_of ac sy w1))" using v1 by simp
    show ?thesis
    proof (cases "Unmarshal_job (uuid_prs E) raw")
      case None
      obtain w2 where a: "run_state (AckJob E sy raw) w1 = (Inr (), w2)"
        and v2: "qview_of ac sy w2 = (qview_of ac sy w1)\<lparr>flying := remove1 raw (flying (qview_of ac sy w1))\<rparr>"
        using AckJob_view [OF assms(1), of sy raw w1] by auto
      have "w' = w2" using assms(3) False d x None a by (simp add: consume_once_def)
      moreover have "round_events E ac c ctx sy w = [Take raw, Discard raw]"
        using False ne None by (simp add: round_events_def raw_def Let_def)
      ultimately show ?thesis
        using qsteps.more [OF t qsteps_one [OF qstep.discard [OF f]]] v2 by simp
    next
      case (Some job)
      obtain u w2 where p: "run_state (processJob E c ctx sy raw job) w1 = (u, w2)" by (metis surj_pair)
      have "w' = w2" using assms(3) False d x Some p by (simp add: consume_once_def)
      moreover have "round_events E ac c ctx sy w = [Take raw, job_event E c ctx raw job w1]"
        using False ne Some d by (simp add: round_events_def raw_def Let_def)
      ultimately show ?thesis
        using qsteps.more [OF t qsteps_one [OF processJob_step [OF assms(1,2) f p]]] by simp
    qed
  qed
qed

lemma requeue_jobs_view:
  assumes "reliable_crit E" and "flying (qview_of ac sy w) = xs @ ds" and "\<forall>x \<in> set xs. \<not> stale E c (clock w) x"
    and "run_state (requeue_jobs E c sy ds) w = (u, w')"
  shows "qview_of ac sy w' = (qview_of ac sy w)
     \<lparr>flying := xs @ filter (\<lambda>d. \<not> stale E c (clock w) d) ds,
      waiting := rev (filter (stale E c (clock w)) ds) @ waiting (qview_of ac sy w)\<rparr> \<and> same_but_crit w w'"
  using assms(2-)
proof (induction ds arbitrary: xs w)
  case Nil
  then show ?case by (simp add: same_but_crit_def)
next
  case (Cons d ds)
  show ?case
  proof (cases "stale E c (clock w) d")
    case True
    then obtain job where j: "Unmarshal_job (uuid_prs E) d = Some job" "StaleJobThreshold c < Sub (clock w) (inst (EnqueuedAt job))"
      by (auto simp: stale_def split: option.splits)
    obtain w1 where n: "run_state (NackJob E sy d) w = (Inr (), w1)" and s: "same_but_crit w w1"
      and v1: "qview_of ac sy w1 = (qview_of ac sy w)\<lparr>flying := remove1 d (flying (qview_of ac sy w)),
        waiting := d # waiting (qview_of ac sy w)\<rparr>"
      using NackJob_view [OF assms(1), of sy d w] by auto
    have c: "clock w1 = clock w" using s by (simp add: same_but_crit_def)
    have "d \<notin> set xs" using Cons.prems(2) True by blast
    then have "flying (qview_of ac sy w1) = xs @ ds" using v1 Cons.prems(1) by (simp add: remove1_append)
    moreover have "run_state (requeue_jobs E c sy ds) w1 = (u, w')" using Cons.prems(3) j n by simp
    ultimately show ?thesis using Cons.IH [of w1 xs] Cons.prems(2) c v1 s True by (simp add: same_but_crit_def)
  next
    case False
    have "run_state (requeue_jobs E c sy ds) w = (u, w')"
      using Cons.prems(3) False by (auto simp: stale_def split: option.splits)
    then show ?thesis using Cons.IH [of w "xs @ [d]"] Cons.prems(1,2) False by auto
  qed
qed

lemma reQueueStale_view:
  assumes "reliable_crit E" and "run_state (reQueueStale E c sy) w = (u, w')"
  shows "qview_of ac sy w' = (qview_of ac sy w)
     \<lparr>flying := filter (\<lambda>d. \<not> stale E c (clock w) d) (flying (qview_of ac sy w)),
      waiting := rev (filter (stale E c (clock w)) (flying (qview_of ac sy w))) @ waiting (qview_of ac sy w)\<rparr>
    \<and> same_but_crit w w'"
proof -
  obtain w1 where g: "run_state (GetAllProcessingJobs E sy) w = (Inr (flying (qview_of ac sy w)), w1)"
    and s: "same_but_crit w w1" and v1: "qview_of ac sy w1 = qview_of ac sy w"
    using lists_after [OF assms(1), of "LRANGE (ProcessingKey sy)" w]
    by (auto simp: GetAllProcessingJobs_def qview_of_def)
  have "run_state (requeue_jobs E c sy (flying (qview_of ac sy w))) w1 = (u, w')"
    using assms(2) g by (simp add: reQueueStale_def)
  from requeue_jobs_view [OF assms(1) _ _ this, of "[]"] v1 s show ?thesis
    by (simp add: same_but_crit_def)
qed

end

lemma requeue_steps:
  "mset ds \<subseteq># mset (flying v) \<Longrightarrow>
     qsteps v (map Requeue ds) (v\<lparr>flying := fold remove1 ds (flying v), waiting := rev ds @ waiting v\<rparr>)"
proof (induction ds arbitrary: v)
  case (Cons d ds)
  have d: "d \<in> set (flying v)" using Cons.prems by (metis insert_subset_eq_iff mset.simps(2) set_mset_mset)
  let ?u = "v\<lparr>flying := remove1 d (flying v), waiting := d # waiting v\<rparr>"
  have "mset ds \<subseteq># mset (flying ?u)" using Cons.prems by (simp add: insert_subset_eq_iff)
  from qsteps.more [OF qstep.requeue [OF d] Cons.IH [OF this]] show ?case by simp
qed (simp add: qsteps.none)

lemma fold_remove1_filter: "\<forall>x \<in> set xs. \<not> P x \<Longrightarrow> fold remove1 (filter P ds) (xs @ ds) = xs @ filter (\<lambda>d. \<not> P d) ds"
proof (induction ds arbitrary: xs)
  case (Cons d ds)
  show ?case
  proof (cases "P d")
    case True
    then have "d \<notin> set xs" using Cons.prems by blast
    then show ?thesis using Cons True by (simp add: remove1_append)
  next
    case False
    then show ?thesis using Cons.IH [of "xs @ [d]"] Cons.prems by simp
  qed
qed simp

subsection \<open>A queue under workers that crash\<close>

text \<open>
  Everything that happens to one queue: rounds of a consumer, a worker that dies with a job in
  its hands, cleanups, new jobs, and time. The index is the sequence of events.
\<close>

inductive worker :: "('r, 'l, 'd) env \<Rightarrow> ('r \<Rightarrow> rview) \<Rightarrow> ('r, 'l, 'd) Consumer \<Rightarrow> string
    \<Rightarrow> ('r, 'l, 'd) world \<Rightarrow> qevent list \<Rightarrow> ('r, 'l, 'd) world \<Rightarrow> bool"
  for E ac c sy w where
  rest: "worker E ac c sy w [] w"
| round: "worker E ac c sy w es w1 \<Longrightarrow> run_state (consume_once E c ctx sy) w1 = (r, w2)
    \<Longrightarrow> worker E ac c sy w (es @ round_events E ac c ctx sy w1) w2"
| crash: "worker E ac c sy w es w1 \<Longrightarrow> run_state (DequeueJob E sy tm) w1 = (Inr (Some d), w2)
    \<Longrightarrow> worker E ac c sy w (es @ [Take d]) w2"
| cleanup: "worker E ac c sy w es w1 \<Longrightarrow> run_state (reQueueStale E cf sy) w1 = (u, w2)
    \<Longrightarrow> worker E ac c sy w (es @ map Requeue (filter (stale E cf (clock w1)) (flying (qview_of ac sy w1)))) w2"
| receive: "worker E ac c sy w es w1 \<Longrightarrow> run_state (EnqueueJob E sy (Struct (Some d))) w1 = (x, w2)
    \<Longrightarrow> worker E ac c sy w (es @ [Arrive d]) w2"
| later: "worker E ac c sy w es w1 \<Longrightarrow> worker E ac c sy w es (w1\<lparr>clock := t\<rparr>)"

context deployment
begin

lemma worker_refines:
  assumes "worker E ac c sy w es w'" and "reliable_crit E" and "handlers_off_crit c"
  shows "qsteps (qview_of ac sy w) es (qview_of ac sy w')"
  using assms(1)
proof (induction rule: worker.induct)
  case rest
  show ?case by (rule qsteps.none)
next
  case (round es w1 ctx r w2)
  from qsteps_append [OF round.IH consume_once_steps [OF assms(2,3) round.hyps(2)]] show ?case .
next
  case (crash es w1 tm d w2)
  let ?v = "qview_of ac sy w1"
  have ne: "waiting ?v \<noteq> []" and d: "d = last (waiting ?v)"
    and v: "qview_of ac sy w2 = ?v\<lparr>waiting := butlast (waiting ?v), flying := d # flying ?v\<rparr>"
    using queue.deq_some [OF crash.hyps(2)] by (simp_all add: qview_of_def)
  from qsteps_append [OF crash.IH qsteps_one [OF qstep_take_last [OF ne]]] v d show ?case by simp
next
  case (cleanup es w1 cf u w2)
  let ?v = "qview_of ac sy w1" and ?P = "stale E cf (clock w1)"
  have "mset (filter ?P (flying ?v)) \<subseteq># mset (flying ?v)" by (simp add: multiset_filter_subset)
  from requeue_steps [OF this] reQueueStale_view [OF assms(2) cleanup.hyps(2)] fold_remove1_filter [of "[]" ?P]
  have "qsteps ?v (map Requeue (filter ?P (flying ?v))) (qview_of ac sy w2)" by simp
  from qsteps_append [OF cleanup.IH this] show ?case .
next
  case (receive es w1 d x w2)
  obtain w3 where "run_state (EnqueueJob E sy (Struct (Some d))) w1 = (Inr (), w3)"
    and "qview_of ac sy w3 = (qview_of ac sy w1)\<lparr>waiting := d # waiting (qview_of ac sy w1)\<rparr>"
    using EnqueueJob_view [OF assms(2), of sy d w1] by auto
  then have "qstep (qview_of ac sy w1) (Arrive d) (qview_of ac sy w2)"
    using receive.hyps(2) qstep.arrive by fastforce
  from qsteps_append [OF receive.IH qsteps_one [OF this]] show ?case .
next
  case (later es w1 t)
  then show ?case by (simp add: qview_of_def)
qed

end

text \<open>
  C7: The consumer refines the queue machine, under crashes and cleanups at any time: whatever
  happens to a queue on a server that answers, by workers whose handlers leave that server alone,
  is a run of qstep; and therefore no job vanishes unaccounted: the jobs that wait, are in flight
  or are dead letters, with those that were finished, discarded as malformed, abandoned at a
  shutdown or replaced by a retry, are those there were at the start and those that came in.
\<close>

theorem worker_accounts:
  assumes "deployment E ac al ad D" and "reliable_crit E" and "handlers_off_crit c" and "worker E ac c sy w es w'"
  shows "qsteps (qview_of ac sy w) es (qview_of ac sy w')
    \<and> all_jobs (qview_of ac sy w') + sum_list (map gone es) = all_jobs (qview_of ac sy w) + sum_list (map gained es)"
  using deployment.worker_refines [OF assms(1,4,2,3)] qsteps_accounts by blast

text \<open>
  A cleanup puts back exactly the stale jobs: those in flight that decode to a job enqueued
  more than StaleJobThreshold ago leave the processing list and are waiting again, before the
  younger ones; all others, unreadable ones included, stay.
\<close>

theorem reQueueStale_exact:
  assumes "deployment E ac al ad D" and "reliable_crit E" and "run_state (reQueueStale E c sy) w = (u, w')"
  shows "rlst (ac (crit w')) (ProcessingKey sy) = filter (\<lambda>d. \<not> stale E c (clock w) d) (rlst (ac (crit w)) (ProcessingKey sy))
    \<and> rlst (ac (crit w')) (QueueKey sy) = rev (filter (stale E c (clock w)) (rlst (ac (crit w)) (ProcessingKey sy)))
        @ rlst (ac (crit w)) (QueueKey sy)"
  using deployment.reQueueStale_view [OF assms] by (simp add: qview_of_def)

subsection \<open>What becomes of a job that fails\<close>

text \<open>A text whose job, if it is one, has not been attempted.\<close>

definition fresh :: "('r, 'l, 'd) env \<Rightarrow> json \<Rightarrow> bool" where
  "fresh E d \<longleftrightarrow> (\<forall>job. Unmarshal_job (uuid_prs E) d = Some job \<longrightarrow> Attempts job = 0)"

lemma fresh_retry: "fresh E (payload_text E (updated_payload E job))"
proof -
  have "Unmarshal_job (uuid_prs E) JNull = Some zero_job" by (simp add: Unmarshal_job_def)
  then show ?thesis using updated_payload_cases [of E job]
    by (auto simp: fresh_def payload_text_def zero_job_def)
qed

lemma qstep_members:
  "qstep v e v' \<Longrightarrow> set (waiting v') \<union> set (flying v') \<subseteq> set (waiting v) \<union> set (flying v) \<union> set_mset (gained e)"
  by (induction rule: qstep.induct) (auto dest: notin_set_remove1)

lemma qsteps_members:
  "qsteps v es v' \<Longrightarrow> set (waiting v') \<union> set (flying v')
     \<subseteq> set (waiting v) \<union> set (flying v) \<union> (\<Union>e \<in> set es. set_mset (gained e))"
proof (induction rule: qsteps.induct)
  case (more v e u es v')
  then show ?case using qstep_members [OF more.hyps(1)] by auto
qed simp

lemma qsteps_buried: "qsteps v es v' \<Longrightarrow> \<forall>d. Bury d \<notin> set es \<Longrightarrow> buried v' = buried v"
proof (induction rule: qsteps.induct)
  case (more v e u es v')
  have "buried u = buried v" using more.hyps(1) more.prems by (cases rule: qstep.cases) auto
  then show ?case using more by simp
qed simp

definition harmless :: "('r, 'l, 'd) env \<Rightarrow> qevent \<Rightarrow> bool" where
  "harmless E e \<longleftrightarrow> (\<forall>d. e \<noteq> Bury d) \<and> (\<forall>d \<in># gained e. fresh E d)"

lemma harmless_simps [simp]:
  "harmless E (Take d)" "harmless E (Discard d)" "harmless E (Requeue d)" "harmless E (Arrive d) = fresh E d"
  by (simp_all add: harmless_def)

lemma job_event_harmless:
  assumes "Attempts job = 0" and "2 \<le> MaxRetries (con_cfg c)"
  shows "harmless E (job_event E c ctx raw job w)"
proof -
  have "Attempts (next_attempt job) = 1"
    using assms(1) by (simp add: next_attempt_def wrap64_id in64_def min64_def max64_def)
  then show ?thesis using assms(2)
    by (simp add: job_event_def harmless_def fresh_retry split: prod.splits option.splits)
qed

context deployment
begin

lemma worker_harmless:
  assumes "worker E ac c sy w es w'" and "reliable_crit E" and "handlers_off_crit c" and "2 \<le> MaxRetries (con_cfg c)"
    and "\<forall>d \<in> set (waiting (qview_of ac sy w)) \<union> set (flying (qview_of ac sy w)). fresh E d"
  shows "(\<forall>d. Arrive d \<in> set es \<longrightarrow> fresh E d) \<longrightarrow> (\<forall>e \<in> set es. harmless E e)"
  using assms(1)
proof (induction rule: worker.induct)
  case (round es w1 ctx r w2)
  show ?case
  proof (intro impI)
    assume a: "\<forall>d. Arrive d \<in> set (es @ round_events E ac c ctx sy w1) \<longrightarrow> fresh E d"
    then have h: "\<forall>e \<in> set es. harmless E e" using round.IH by auto
    have f: "\<forall>d \<in> set (waiting (qview_of ac sy w1)). fresh E d"
      using qsteps_members [OF worker_refines [OF round.hyps(1) assms(2,3)]] assms(5) h by (fastforce simp: harmless_def)
    have "\<forall>e \<in> set (round_events E ac c ctx sy w1). harmless E e"
    proof (cases "ctx_done ctx (clock w1) \<or> waiting (qview_of ac sy w1) = []")
      case False
      then have "fresh E (last (waiting (qview_of ac sy w1)))" using f by simp
      with False show ?thesis using job_event_harmless [OF _ assms(4)]
        by (auto simp: round_events_def fresh_def Let_def split: option.splits)
    qed (simp add: round_events_def)
    then show "\<forall>e \<in> set (es @ round_events E ac c ctx sy w1). harmless E e" using h by auto
  qed
qed auto

end

text \<open>
  C30: No job ever becomes a dead letter: from a queue whose jobs have not been attempted (as Receive
  makes them), with MaxRetries at least 2 (the default is 5), whatever the handlers return, no
  run of rounds, crashes, cleanups and new jobs adds a dead letter: a job that fails is put back
  as a text that is no longer a job, or none with attempts.
\<close>

theorem no_dead_letters:
  assumes "deployment E ac al ad D" and "reliable_crit E" and "handlers_off_crit c" and "2 \<le> MaxRetries (con_cfg c)"
    and "\<forall>d \<in> set (waiting (qview_of ac sy w)) \<union> set (flying (qview_of ac sy w)). fresh E d"
    and "worker E ac c sy w es w'" and "\<forall>d. Arrive d \<in> set es \<longrightarrow> fresh E d"
  shows "rlst (ac (crit w')) DeadLetterKey = rlst (ac (crit w)) DeadLetterKey"
proof -
  have "\<forall>d. Bury d \<notin> set es"
    using deployment.worker_harmless [OF assms(1,6,2-5)] assms(7) by (auto simp: harmless_def)
  from qsteps_buried [OF deployment.worker_refines [OF assms(1,6,2,3)] this] show ?thesis
    by (simp add: qview_of_def)
qed

lemma handlers_off_crit_demo [simp]: "handlers_off_crit (demo_consumer (\<lambda>job. ret x))"
  by (simp add: handlers_off_crit_def demo_consumer_def)

lemma qview_queue_world [simp]:
  "qview_of id ''EURUSD'' (queue_world q) = \<lparr>waiting = q, flying = [], buried = []\<rparr>"
  by (simp add: qview_of_def)

theorem worker_accounts_witness:
  "\<exists>es w'. worker calm_env id (demo_consumer (\<lambda>job. ret (Inr ()))) ''EURUSD'' (queue_world [demo_text]) es w'
    \<and> es = [Take demo_text] \<and> all_jobs (qview_of id ''EURUSD'' w') = {#demo_text#}"
proof -
  let ?c = "demo_consumer (\<lambda>job. ret (Inr ()))"
  obtain w' where "run_state (DequeueJob calm_env ''EURUSD'' 0) (queue_world [demo_text]) = (Inr (Some demo_text), w')"
    by (simp add: DequeueJob_def bytes_or_nil_def Let_def)
  then have w: "worker calm_env id ?c ''EURUSD'' (queue_world [demo_text]) ([] @ [Take demo_text]) w'"
    by (intro worker.crash [OF worker.rest])
  from worker_accounts [OF calm_deployment reliable_crit_calm handlers_off_crit_demo w]
  have "all_jobs (qview_of id ''EURUSD'' w') = {#demo_text#}" by (simp add: all_jobs_def)
  with w show ?thesis by auto
qed

definition flight_world :: "json list \<Rightarrow> int \<Rightarrow> (rview, rview, tables) world" where
  "flight_world q t = (calm_world empty_tables t)\<lparr>crit := put_list (ProcessingKey ''EURUSD'') q empty_rview\<rparr>"

theorem reQueueStale_exact_witness:
  "\<exists>u w'. run_state (reQueueStale calm_env demo_worker ''EURUSD'') (flight_world [demo_text, JStr ''bXQ0''] (demo_time + Hour)) = (u, w')
    \<and> rlst (crit w') (ProcessingKey ''EURUSD'') = [JStr ''bXQ0''] \<and> rlst (crit w') (QueueKey ''EURUSD'') = [demo_text]"
proof -
  let ?w = "flight_world [demo_text, JStr ''bXQ0''] (demo_time + Hour)"
  obtain u w' where r: "run_state (reQueueStale calm_env demo_worker ''EURUSD'') ?w = (u, w')" by (metis surj_pair)
  have "inst (EnqueuedAt demo_job) = demo_time" by (simp add: demo_job_def first_job_def)
  then have "stale calm_env demo_worker (demo_time + Hour) demo_text" "\<not> stale calm_env demo_worker (demo_time + Hour) (JStr ''bXQ0'')"
    by (simp_all add: stale_def demo_worker_def Sub_def sat64_def min64_def max64_def duration_units)
  with reQueueStale_exact [OF calm_deployment reliable_crit_calm r] r show ?thesis
    by (simp add: flight_world_def)
qed

theorem no_dead_letters_witness:
  "\<exists>r w'. run_state (consume_once calm_env (demo_consumer (\<lambda>job. ret (Inl (EMsg ''down'')))) None ''EURUSD'')
       (queue_world [demo_text]) = (r, w') \<and> rlst (crit w') DeadLetterKey = []"
proof -
  let ?c = "demo_consumer (\<lambda>job. ret (Inl (EMsg ''down'')))"
  obtain r w' where r: "run_state (consume_once calm_env ?c None ''EURUSD'') (queue_world [demo_text]) = (r, w')"
    by (metis surj_pair)
  define es where "es = [] @ round_events calm_env id ?c None ''EURUSD'' (queue_world [demo_text])"
  have w: "worker calm_env id ?c ''EURUSD'' (queue_world [demo_text]) es w'"
    unfolding es_def by (rule worker.round [OF worker.rest r])
  have f: "fresh calm_env demo_text" by (simp add: fresh_def)
  have "\<forall>d. Arrive d \<in> set es \<longrightarrow> fresh calm_env d"
    by (auto simp: es_def round_events_def ctx_done_def job_event_def Let_def split: if_splits prod.splits option.splits)
  from no_dead_letters [OF calm_deployment reliable_crit_calm handlers_off_crit_demo _ _ w this] f r
  show ?thesis by (simp add: demo_consumer_def demo_worker_def)
qed

context deployment
begin

lemma view_of_round:
  assumes "reliable_crit E" and "handlers_off_crit c" and "run_state (consume_once E c None sy) w = (r, w')"
    and "waiting (qview_of ac sy w) = q @ [d]"
  shows "Unmarshal_job (uuid_prs E) d = None \<Longrightarrow> qview_of ac sy w' = (qview_of ac sy w)\<lparr>waiting := q\<rparr>"
    and "Unmarshal_job (uuid_prs E) d = Some job \<Longrightarrow>
      \<exists>w1. qstep ((qview_of ac sy w)\<lparr>waiting := q, flying := d # flying (qview_of ac sy w)\<rparr>)
        (job_event E c None d job w1) (qview_of ac sy w')"
proof -
  let ?v = "qview_of ac sy w"
  have l: "last (waiting ?v) = d" using assms(4) by simp
  have s: "qsteps ?v (Take d # (case Unmarshal_job (uuid_prs E) d of None \<Rightarrow> [Discard d]
      | Some job \<Rightarrow> [job_event E c None d job (snd (run_state (DequeueJob E sy (2 * Second)) w))])) (qview_of ac sy w')"
    using consume_once_steps [OF assms(1-3)] assms(4) unfolding round_events_def Let_def l by (simp add: ctx_done_def)
  then obtain u where u: "u = ?v\<lparr>waiting := q, flying := d # flying ?v\<rparr>"
    and rest: "qsteps u (case Unmarshal_job (uuid_prs E) d of None \<Rightarrow> [Discard d]
      | Some job \<Rightarrow> [job_event E c None d job (snd (run_state (DequeueJob E sy (2 * Second)) w))]) (qview_of ac sy w')"
    using assms(4) by (auto simp: qstep_take)
  show "qview_of ac sy w' = ?v\<lparr>waiting := q\<rparr>" if "Unmarshal_job (uuid_prs E) d = None"
    using rest that by (auto simp: qstep_discard u)
  show "\<exists>w1. qstep (?v\<lparr>waiting := q, flying := d # flying ?v\<rparr>) (job_event E c None d job w1) (qview_of ac sy w')"
    if "Unmarshal_job (uuid_prs E) d = Some job"
    using rest that unfolding u by auto
qed

text \<open>The rows of the dead letters are not touched on the way of a retry.\<close>

lemma processJob_no_row:
  assumes "\<forall>h \<in> set (con_handlers c). \<forall>job. keeps (\<lambda>w. dead_letter (ad (pg w))) (h job)"
    and "Attempts (next_attempt job) < MaxRetries (con_cfg c)"
  shows "keeps (\<lambda>w. dead_letter (ad (pg w))) (processJob E c ctx sy raw job)"
proof -
  have n: "\<not> Attempts (next_attempt job) \<ge> MaxRetries (con_cfg c)" using assms(2) by simp
  show ?thesis
    unfolding processJob_def Let_def next_attempt_def [symmetric] if_not_P [OF n]
    by (intro keeps_bind keeps_option keeps_if keeps_return run_handlers_keeps assms(1)
        keeps_comp [OF critical_keeps(4)] keeps_comp [OF critical_keeps(6)] keeps_comp [OF backoff_keeps(3)]
        keeps_comp [OF wait_or_done_keeps(2)])
qed

lemma consume_once_no_row:
  assumes "\<forall>h \<in> set (con_handlers c). \<forall>job. keeps (\<lambda>w. dead_letter (ad (pg w))) (h job)"
    and "\<forall>d \<in> set (waiting (qview_of ac sy w)). \<forall>job. Unmarshal_job (uuid_prs E) d = Some job
       \<longrightarrow> Attempts (next_attempt job) < MaxRetries (con_cfg c)"
    and "reliable_crit E" and "run_state (consume_once E c ctx sy) w = (r, w')"
  shows "dead_letter (ad (pg w')) = dead_letter (ad (pg w))"
proof -
  obtain x w1 where d: "run_state (DequeueJob E sy (2 * Second)) w = (x, w1)" by (metis surj_pair)
  have p: "pg w1 = pg w" and x: "x = Inr None \<or> (\<exists>raw \<in> set (waiting (qview_of ac sy w)). x = Inr (Some raw))"
    using DequeueJob_view [OF assms(3), of w sy "2 * Second"] d by (auto split: if_splits)
  show ?thesis
  proof (cases "ctx_done ctx (clock w)")
    case False
    show ?thesis
    proof (cases "x = Inr None")
      case True
      then show ?thesis using assms(4) False d p by (simp add: consume_once_def)
    next
      case no: False
      then obtain raw where raw: "raw \<in> set (waiting (qview_of ac sy w))" "x = Inr (Some raw)" using x by blast
      show ?thesis
      proof (cases "Unmarshal_job (uuid_prs E) raw")
        case None
        obtain y w2 where a: "run_state (AckJob E sy raw) w1 = (y, w2)" by (metis surj_pair)
        then show ?thesis using assms(4) False d p raw(2) None keepsD [OF critical_keeps(6) a]
          by (simp add: consume_once_def)
      next
        case (Some job)
        obtain y w2 where a: "run_state (processJob E c ctx sy raw job) w1 = (y, w2)" by (metis surj_pair)
        have "Attempts (next_attempt job) < MaxRetries (con_cfg c)" using assms(2) raw(1) Some by blast
        from keepsD [OF processJob_no_row [OF assms(1) this] a] show ?thesis
          using assms(4) False d p raw(2) Some a by (simp add: consume_once_def)
      qed
    qed
  qed (use assms(4) in \<open>simp add: consume_once_def\<close>)
qed

end

text \<open>
  C8: A job that fails once is lost: if a handler fails on the only waiting job, with an attempt
  left, two rounds of a running consumer empty the queue: the first replaces the job by a JSON
  string of its base64 text, the second discards that. No list and no dead letter row of the
  database has the job afterwards.
\<close>

theorem failed_job_lost:
  assumes "deployment E ac al ad D" and "reliable_crit E" and "handlers_off_crit c"
    and "\<forall>h \<in> set (con_handlers c). \<forall>job. keeps (\<lambda>w. dead_letter (ad (pg w))) (h job)"
    and "rlst (ac (crit w)) (QueueKey sy) = [d]" and "Unmarshal_job (uuid_prs E) d = Some job"
    and "\<forall>w1. fst (run_state (run_handlers (con_handlers c) job None) w1) \<noteq> None"
    and "Attempts (next_attempt job) < MaxRetries (con_cfg c)" and "Marshal_job (uuid_str E) (next_attempt job) \<noteq> None"
    and "run_state (consume_once E c None sy) w = (r1, w1)" and "run_state (consume_once E c None sy) w1 = (r2, w2)"
  shows "rlst (ac (crit w2)) (QueueKey sy) = [] \<and> rlst (ac (crit w2)) (ProcessingKey sy) = rlst (ac (crit w)) (ProcessingKey sy)
    \<and> rlst (ac (crit w2)) DeadLetterKey = rlst (ac (crit w)) DeadLetterKey
    \<and> dead_letter (ad (pg w2)) = dead_letter (ad (pg w))"
proof -
  let ?v = "qview_of ac sy w" and ?p = "payload_text E (updated_payload E (next_attempt job))"
  have q: "waiting ?v = [] @ [d]" using assms(5) by (simp add: qview_of_def)
  obtain u where s: "qstep (?v\<lparr>waiting := [], flying := d # flying ?v\<rparr>) (job_event E c None d job u) (qview_of ac sy w1)"
    using deployment.view_of_round(2) [OF assms(1-3,10) q assms(6)] by blast
  have "job_event E c None d job u = Retry d ?p"
    using assms(7) [rule_format, of u] assms(8)
    by (auto simp: job_event_def waits_out_def ctx_done_def split: prod.splits option.splits)
  with s have v1: "qview_of ac sy w1 = ?v\<lparr>waiting := [] @ [?p]\<rparr>" by (simp add: qstep_retry)
  have n: "Unmarshal_job (uuid_prs E) ?p = None" by (rule retry_text_unreadable [OF assms(9)])
  have v2: "qview_of ac sy w2 = ?v\<lparr>waiting := []\<rparr>"
    using deployment.view_of_round(1) [OF assms(1-3,11) _ n, of "[]"] v1 by simp
  have r1: "dead_letter (ad (pg w1)) = dead_letter (ad (pg w))"
    by (rule deployment.consume_once_no_row [OF assms(1,4) _ assms(2,10)]) (use q assms(6,8) in simp)
  have "dead_letter (ad (pg w2)) = dead_letter (ad (pg w1))"
    by (rule deployment.consume_once_no_row [OF assms(1,4) _ assms(2,11)]) (use v1 n in simp)
  with r1 v2 show ?thesis by (simp add: qview_of_def)
qed

theorem failed_job_lost_witness:
  "\<exists>r1 w1 r2 w2. run_state (consume_once calm_env (demo_consumer (\<lambda>job. ret (Inl (EMsg ''down'')))) None ''EURUSD'')
       (queue_world [demo_text]) = (r1, w1)
    \<and> run_state (consume_once calm_env (demo_consumer (\<lambda>job. ret (Inl (EMsg ''down'')))) None ''EURUSD'') w1 = (r2, w2)
    \<and> rlst (crit w2) (QueueKey ''EURUSD'') = [] \<and> rlst (crit w2) (ProcessingKey ''EURUSD'') = []
    \<and> rlst (crit w2) DeadLetterKey = [] \<and> dead_letter (pg w2) = []"
proof -
  let ?c = "demo_consumer (\<lambda>job. ret (Inl (EMsg ''down'')))"
  obtain r1 w1 r2 w2 where r: "run_state (consume_once calm_env ?c None ''EURUSD'') (queue_world [demo_text]) = (r1, w1)"
    "run_state (consume_once calm_env ?c None ''EURUSD'') w1 = (r2, w2)" by (metis surj_pair)
  have a: "Attempts (next_attempt demo_job) = 1"
    by (simp add: next_attempt_def wrap64_id in64_def min64_def max64_def)
  have "job_ok (next_attempt demo_job)"
    using demo_job_ok a by (simp add: job_ok_def next_attempt_def demo_job_def in64_def min64_def max64_def)
  then have m: "Marshal_job (uuid_str calm_env) (next_attempt demo_job) \<noteq> None" using Marshal_job_Some by fastforce
  from failed_job_lost [OF calm_deployment reliable_crit_calm handlers_off_crit_demo _ _ _ _ _ m r] r a
  show ?thesis by (simp add: demo_consumer_def demo_worker_def empty_tables_def)
qed

subsection \<open>The loop ends\<close>

text \<open>
  How many rounds a waiting text can cost: a job that fails may come back once, as a string, or,
  if it cannot be printed, as the text \<open>null\<close>, which is read as an empty job.
\<close>

definition text_weight :: "('r, 'l, 'd) env \<Rightarrow> json \<Rightarrow> nat" where
  "text_weight E d = (case Unmarshal_job (uuid_prs E) d of None \<Rightarrow> 1
     | Some job \<Rightarrow> if Marshal_job (uuid_str E) (next_attempt job) = None then 3 else 2)"

definition queue_weight :: "('r, 'l, 'd) env \<Rightarrow> json list \<Rightarrow> nat" where
  "queue_weight E q = sum_list (map (text_weight E) q)"

lemma text_weight_pos: "0 < text_weight E d"
  by (simp add: text_weight_def split: option.splits)

lemma weight_null: "text_weight E JNull = 2"
proof -
  have "format_rfc3339 zero_time \<noteq> None" by code_simp
  then have "Marshal_job (uuid_str E) (next_attempt zero_job) \<noteq> None"
    by (auto simp: Marshal_job_def next_attempt_def zero_job_def Marshal_signal_def zero_signal_def json_time_def)
  then show ?thesis by (simp add: text_weight_def Unmarshal_job_def)
qed

lemma retry_lighter:
  assumes "Unmarshal_job (uuid_prs E) d = Some job"
  shows "text_weight E (payload_text E (updated_payload E (next_attempt job))) < text_weight E d"
proof (cases "Marshal_job (uuid_str E) (next_attempt job)")
  case None
  then have "payload_text E (updated_payload E (next_attempt job)) = JNull"
    by (simp add: updated_payload_def payload_text_def)
  then show ?thesis using weight_null [of E] assms None by (simp add: text_weight_def [of E d])
next
  case (Some j)
  from retry_text_unreadable [of E "next_attempt job" "uuid_prs E"] Some
  have "text_weight E (payload_text E (updated_payload E (next_attempt job))) = 1" by (simp add: text_weight_def)
  then show ?thesis using assms Some by (simp add: text_weight_def [of E d])
qed

abbreviation (input) waits :: "('r \<Rightarrow> rview) \<Rightarrow> string \<Rightarrow> ('r, 'l, 'd) world \<Rightarrow> json list" where
  "waits ac sy w \<equiv> rlst (ac (crit w)) (QueueKey sy)"

lemma valid_seq: "valid P m (\<lambda>_. P) \<Longrightarrow> (\<And>a. valid P (f a) R) \<Longrightarrow> valid P (State_Monad.bind m f) R"
  by (rule valid_bind)

lemma valid_if: "(b \<Longrightarrow> valid P m Q) \<Longrightarrow> (\<not> b \<Longrightarrow> valid P n Q) \<Longrightarrow> valid P (if b then m else n) Q"
  by simp

lemma valid_option:
  "(x = None \<Longrightarrow> valid P m Q) \<Longrightarrow> (\<And>y. x = Some y \<Longrightarrow> valid P (f y) Q)
    \<Longrightarrow> valid P (case x of None \<Rightarrow> m | Some y \<Rightarrow> f y) Q"
  by (cases x) simp_all

context deployment
begin

text \<open>A command may have been executed or not; both ways the list it does not name stays.\<close>

lemma Critical_list:
  assumes "run_state (Critical E c) w = (x, w')" and "\<not> is_scan c"
  shows "waits ac sy w' = waits ac sy w \<or> waits ac sy w' = rlst (snd (redis_step (clock w) c (ac (crit w)))) (QueueKey sy)"
  using Critical_err [OF assms(1)] redis_okD(2) [OF _ assms(2)] by metis

lemma Critical_keeps_waits:
  assumes "\<not> is_scan c" and "\<And>now v. rlst (snd (redis_step now c v)) (QueueKey sy) = rlst v (QueueKey sy)"
  shows "keeps (waits ac sy) (Critical E c)"
  unfolding keeps_def using Critical_list [OF _ assms(1)] assms(2) by (metis prod.collapse)

lemma ops_keep_waits [hoare]:
  "keeps (waits ac sy) (AckJob E sy d)" "keeps (waits ac sy) (MoveToDeadLetter E sy d)"
  unfolding AckJob_def MoveToDeadLetter_def pipe2_def
  by (intro keeps_bind keeps_return keeps_sum Critical_keeps_waits; simp)+

lemma crit_keeps_waits: "keeps crit m \<Longrightarrow> keeps (waits ac sy) m"
  by (simp add: keeps_def)

lemma processJob_clock:
  assumes "handlers_off_crit c" and "run_state (processJob E c ctx sy raw job) w0 = (u, w')"
  shows "clock w0 \<le> clock w'"
proof -
  define P where "P w \<longleftrightarrow> clock w0 \<le> clock w" for w :: "('r, 'l, 'd) world"
  have w: "preserves P (wait_or_done ctx d)" for d
    by (auto simp: preserves_def wait_or_done_def P_def Let_def)
  have k: "preserves P m" if "keeps clock m" for m :: "('r, 'l, 'd, 'x) io"
    by (rule preservesI) (use keepsD [OF that] in \<open>simp add: P_def\<close>)
  have h: "keeps clock (run_handlers (con_handlers c) job None)"
    using assms(1) by (intro run_handlers_keeps) (simp add: handlers_off_crit_def)
  have "preserves P (processJob E c ctx sy raw job)"
    unfolding processJob_def Let_def
    by (intro preserves_bind preserves_option preserves_if preserves_return w k [OF h]
        k [OF critical_keeps_clock(4)] k [OF critical_keeps_clock(5)] k [OF critical_keeps_clock(7)]
        k [OF backoff_keeps(2)] k [OF store_update_keeps(20) [OF off_pg_proj(3)]])
  from preservesD [OF this assms(2)] show ?thesis by (simp add: P_def)
qed

lemma processJob_waits:
  assumes "handlers_off_crit c" and "run_state (processJob E c ctx sy raw job) w0 = (u, w')"
  shows "waits ac sy w' = waits ac sy w0
    \<or> waits ac sy w' = payload_text E (updated_payload E (next_attempt job)) # waits ac sy w0"
proof -
  let ?p = "payload_text E (updated_payload E (next_attempt job))"
  define P where "P w \<longleftrightarrow> waits ac sy w = waits ac sy w0" for w :: "('r, 'l, 'd) world"
  define R where "R w \<longleftrightarrow> P w \<or> waits ac sy w = ?p # waits ac sy w0" for w :: "('r, 'l, 'd) world"
  have k: "valid P m (\<lambda>_. P)" if "keeps (waits ac sy) m" for m :: "('r, 'l, 'd, 'x) io"
    by (rule validI) (use keepsD [OF that] in \<open>simp add: P_def\<close>)
  have pr: "valid P (ret x) (\<lambda>_. R)" "valid R (ret x) (\<lambda>_. R)" for x :: 'x
    by (rule valid_return; simp add: R_def)+
  have h: "keeps crit (run_handlers (con_handlers c) job None)"
    using assms(1) by (intro run_handlers_keeps) (simp add: handlers_off_crit_def)
  have e: "valid P (EnqueueJob E sy (updated_payload E (next_attempt job))) (\<lambda>_. R)"
  proof (rule validI)
    fix w x v assume p: "P w" and "run_state (EnqueueJob E sy (updated_payload E (next_attempt job))) w = (x, v)"
    then obtain y where "run_state (Critical E (LPUSH (QueueKey sy) ?p)) w = (y, v)"
      unfolding EnqueueJob_payload by (auto simp: EnqueueJob_def split: prod.splits)
    from Critical_list [OF this, of sy] p show "R v" by (auto simp: R_def P_def)
  qed
  have "valid P (processJob E c ctx sy raw job) (\<lambda>_. R)"
    unfolding processJob_def Let_def next_attempt_def [symmetric]
    by (intro valid_seq valid_option valid_if pr k [OF crit_keeps_waits [OF h]] k [OF ops_keep_waits(1)]
        k [OF ops_keep_waits(2)] k [OF crit_keeps_waits [OF backoff_keeps(1)]] k [OF crit_keeps_waits [OF wait_or_done_keeps(1)]]
        k [OF crit_keeps_waits [OF store_update_keeps(20) [OF off_pg_proj(1)]]] valid_bind [OF e])
  then have "R w'" by (rule validD [OF _ _ assms(2)]) (simp add: P_def)
  then show ?thesis by (simp add: R_def P_def)
qed

end

context deployment
begin

lemma DequeueJob_time:
  assumes "run_state (DequeueJob E sy tm) w = (x, w')" and "0 < tm"
  shows "clock w \<le> clock w'" and "x = Inr None \<Longrightarrow> clock w < clock w'"
proof -
  obtain r w1 where c: "run_state (Critical E (RPOPLPUSH (QueueKey sy) (ProcessingKey sy))) w = (r, w1)" by (metis surj_pair)
  have k: "clock w1 = clock w" by (rule keepsD [OF Critical_keeps(3) c])
  show "clock w \<le> clock w'"
    using assms c k by (auto simp: DequeueJob_def split: if_splits)
  assume "x = Inr None"
  then have "\<exists>y. r = Inr y \<and> (\<forall>v. y \<noteq> RBulk v)"
    using assms(1) c by (auto simp: DequeueJob_def bytes_or_nil_def split: sum.splits rreply.splits if_splits)
  then have "r = Inr RNil" using Critical_step(1) [of _ w _ w1] c by (force simp: Let_def split: if_splits)
  then show "clock w < clock w'" using assms c k by (auto simp: DequeueJob_def)
qed

lemma consume_once_progress:
  assumes "handlers_off_crit c" and "run_state (consume_once E c ctx sy) w = (False, w')"
  shows "clock w \<le> clock w' \<and> (clock w < clock w' \<or> queue_weight E (waits ac sy w') < queue_weight E (waits ac sy w))"
proof -
  obtain x w1 where d: "run_state (DequeueJob E sy (2 * Second)) w = (x, w1)" by (metis surj_pair)
  have nd: "\<not> ctx_done ctx (clock w)" using assms(2) by (auto simp: consume_once_def)
  have t: "clock w \<le> clock w1" "x = Inr None \<Longrightarrow> clock w < clock w1"
    using DequeueJob_time [OF d] by (simp_all add: Second_def)
  show ?thesis
  proof (cases x)
    case (Inl e)
    then have "clock w' = clock w1 + 500 * Millisecond"
      using assms(2) nd d by (auto simp: consume_once_def Millisecond_def split: if_splits)
    then show ?thesis using t(1) by (simp add: Millisecond_def)
  next
    case (Inr o1)
    show ?thesis
    proof (cases o1)
      case None
      then show ?thesis using assms(2) nd d Inr t by (auto simp: consume_once_def)
    next
      case (Some raw)
      have q: "waits ac sy w = butlast (waits ac sy w) @ [raw]" and q1: "waits ac sy w1 = butlast (waits ac sy w)"
        using queue_of_dequeue_some [OF d [unfolded Inr Some]] by auto
      have wt: "queue_weight E (waits ac sy w) = queue_weight E (waits ac sy w1) + text_weight E raw"
        unfolding q1 by (subst q) (simp add: queue_weight_def)
      show ?thesis
      proof (cases "Unmarshal_job (uuid_prs E) raw")
        case None
        obtain y w2 where a: "run_state (AckJob E sy raw) w1 = (y, w2)" by (metis surj_pair)
        have "w' = w2" using assms(2) nd d Inr Some None a by (simp add: consume_once_def)
        then show ?thesis
          using t(1) wt text_weight_pos [of E raw] keepsD [OF ops_keep_waits(1) a] keepsD [OF critical_keeps_clock(5) a] by simp
      next
        case (Some job)
        obtain y w2 where p: "run_state (processJob E c ctx sy raw job) w1 = (y, w2)" by (metis surj_pair)
        have "w' = w2" using assms(2) nd d Inr \<open>o1 = Some raw\<close> Some p by (simp add: consume_once_def)
        moreover have "queue_weight E (waits ac sy w2) < queue_weight E (waits ac sy w)"
          using processJob_waits [OF assms(1) p] wt text_weight_pos [of E raw] retry_lighter [OF Some]
          by (auto simp: queue_weight_def)
        ultimately show ?thesis using t(1) processJob_clock [OF assms(1) p] by simp
      qed
    qed
  qed
qed

lemma consumeSymbol_returns:
  assumes "handlers_off_crit c"
  shows "\<exists>w'. consumeSymbol E c (Some t) sy w = Some w'"
proof (induction w rule: wf_induct [OF wf_measures [of "[\<lambda>w. nat (t - clock w), \<lambda>w. queue_weight E (waits ac sy w)]"]])
  case (1 w)
  obtain r w1 where r: "run_state (consume_once E c (Some t) sy) w = (r, w1)" by (metis surj_pair)
  show ?case
  proof (cases r)
    case True
    then show ?thesis using r by (simp add: consumeSymbol.simps [of E c "Some t" sy w])
  next
    case False
    have "clock w < t"
      using r False by (auto simp: consume_once_def ctx_done_def not_le split: if_splits)
    then have "(w1, w) \<in> measures [\<lambda>w. nat (t - clock w), \<lambda>w. queue_weight E (waits ac sy w)]"
      using consume_once_progress [OF assms, of "Some t" sy w w1] r False by auto
    then obtain w2 where "consumeSymbol E c (Some t) sy w1 = Some w2" using 1 by blast
    then show ?thesis using r False by (simp add: consumeSymbol.simps [of E c "Some t" sy w])
  qed
qed

end

text \<open>
  C37: The consumer stops: once its context is cancelled, at whatever time, the loop over a queue
  returns, however long the queue is and whatever the servers answer or fail to, if the handlers
  return and leave the critical server alone. (Without new jobs from outside: every round costs
  time or makes the queue lighter, retries included.)
\<close>

theorem consumeSymbol_stops:
  assumes "deployment E ac al ad D" and "handlers_off_crit c"
  shows "\<exists>w'. consumeSymbol E c (Some t) sy w = Some w'"
  using deployment.consumeSymbol_returns [OF assms] .

theorem consumeSymbol_stops_witness:
  "\<exists>w'. consumeSymbol calm_env (demo_consumer (\<lambda>job. ret (Inl (EMsg ''down'')))) (Some (demo_time + Hour)) ''EURUSD''
     (queue_world [demo_text, JNull, JStr []]) = Some w'"
  by (rule consumeSymbol_stops [OF calm_deployment handlers_off_crit_demo])

text \<open>
  The last failure is recorded: when a handler fails and no attempt is left, the job moves from
  the processing list to the dead letters, and the database gets one dead letter row with the
  job's text, the id of its signal and the last handler's error.
\<close>

theorem processJob_buries:
  assumes "deployment E ac al ad D" and "reliable_crit E" and "reliable_db E" and "handlers_off_crit c"
    and "raw \<in> set (rlst (ac (crit w)) (ProcessingKey sy))" and "MaxRetries (con_cfg c) \<le> Attempts (next_attempt job)"
    and "run_state (run_handlers (con_handlers c) job None) w = (Some err, w1)"
    and "new_uuid E (seed w1) \<notin> dr_id ` set (dead_letter (ad (pg w1)))"
    and "run_state (processJob E c ctx sy raw job) w = (u, w')"
  shows "rlst (ac (crit w')) (ProcessingKey sy) = remove1 raw (rlst (ac (crit w)) (ProcessingKey sy))
    \<and> rlst (ac (crit w')) DeadLetterKey = raw # rlst (ac (crit w)) DeadLetterKey
    \<and> dead_letter (ad (pg w')) = dead_letter (ad (pg w1)) @ [\<lparr>dr_id = new_uuid E (seed w1), dr_payload = raw,
        dr_signal = Some (SignalID job), dr_reason = err, dr_failed = clock w\<rparr>]"
proof -
  have "job_event E c ctx raw job w = Bury raw" using assms(6,7) by (simp add: job_event_def)
  then have q: "qview_of ac sy w' = (qview_of ac sy w)\<lparr>flying := remove1 raw (flying (qview_of ac sy w)),
      buried := raw # buried (qview_of ac sy w)\<rparr>"
    using deployment.processJob_step [OF assms(1,2,4) _ assms(9)] assms(5)
    by (auto simp: qview_of_def elim: qstep.cases)
  have c1: "clock w1 = clock w"
    using run_handlers_keeps [of "con_handlers c" clock] assms(4,7) keepsD by (fastforce simp: handlers_off_crit_def)
  obtain w2 where m: "run_state (MoveToDeadLetter E sy raw) w1 = (Inr (), w2)" and s: "same_but_crit w1 w2"
    using deployment.MoveToDeadLetter_view [OF assms(1,2)] by blast
  let ?c = "InsertDead (new_uuid E (seed w1)) raw (Some (SignalID job)) err" and ?w2 = "w2\<lparr>seed := Suc (seed w1)\<rparr>"
  obtain w3 where i: "run_state (DB E (Auto ?c)) ?w2 = (pg_result (Inr (fst (sql_step D (clock w2) ?c (ad (pg w2))))), w3)"
    and t: "ad (pg w3) = snd (sql_step D (clock w2) ?c (ad (pg w2)))"
    using deployment.reliable_DB [OF assms(1,3), of ?c ?w2] by auto
  have "SignalID (next_attempt job) = SignalID job" by (simp add: next_attempt_def)
  then have "w' = w3"
    using assms(6,7,9) m i s
    by (simp add: processJob_def next_attempt_def [symmetric] InsertDeadLetter_def same_but_crit_def Let_def)
  with t have "dead_letter (ad (pg w')) = dead_letter (ad (pg w1)) @ [\<lparr>dr_id = new_uuid E (seed w1), dr_payload = raw,
        dr_signal = Some (SignalID job), dr_reason = err, dr_failed = clock w\<rparr>]"
    using assms(8) s c1 by (simp add: same_but_crit_def)
  with q show ?thesis by (simp add: qview_of_def)
qed

theorem processJob_buries_witness:
  "\<exists>u w'. run_state (processJob calm_env ((demo_consumer (\<lambda>job. ret (Inl (EMsg ''down''))))\<lparr>con_cfg := demo_worker\<lparr>MaxRetries := 1\<rparr>\<rparr>)
       None ''EURUSD'' demo_text demo_job) (flight_world [demo_text] demo_time) = (u, w')
    \<and> rlst (crit w') (ProcessingKey ''EURUSD'') = [] \<and> rlst (crit w') DeadLetterKey = [demo_text]
    \<and> map dr_reason (dead_letter (pg w')) = [EMsg ''down'']"
proof -
  let ?c = "(demo_consumer (\<lambda>job. ret (Inl (EMsg ''down''))))\<lparr>con_cfg := demo_worker\<lparr>MaxRetries := 1\<rparr>\<rparr>"
  let ?w = "flight_world [demo_text] demo_time"
  obtain u w' where r: "run_state (processJob calm_env ?c None ''EURUSD'' demo_text demo_job) ?w = (u, w')" by (metis surj_pair)
  have h: "handlers_off_crit ?c" by (simp add: handlers_off_crit_def demo_consumer_def)
  have e: "run_state (run_handlers (con_handlers ?c) demo_job None) ?w = (Some (EMsg ''down''), ?w)"
    by (simp add: demo_consumer_def)
  have a: "Attempts (next_attempt demo_job) = 1"
    by (simp add: next_attempt_def wrap64_id in64_def min64_def max64_def)
  from processJob_buries [OF calm_deployment reliable_crit_calm reliable_calm h _ _ e _ r] r a
  show ?thesis by (simp add: flight_world_def empty_tables_def)
qed

end
