(* ===== verification/Notify.thy ===== *)
theory Notify
  imports QueueMachine
begin

text \<open>
  The notification handlers \<open>internal/notify/telegram\<close>, \<open>webhook\<close>, \<open>whatsapp\<close> and \<open>mt4copier\<close>: the
  texts they build, the requests they send and the delivery log they keep. What they touch, and
  that the log has one final row for every subscriber that was tried.
\<close>

subsection \<open>Formatting\<close>

text \<open>\<open>%.pf\<close>: the exact value rounded to \<open>p\<close> places, ties to even.\<close>

definition fixed :: "nat \<Rightarrow> rat \<Rightarrow> string" where
  "fixed p x = (let (n, d) = quotient_of (\<bar>x\<bar> * 10 ^ p); m = round_even n d in
     (if x < 0 then ''-'' else []) @ nat_text (nat (m div 10 ^ p)) @ ''.'' @ pad p (nat (m mod 10 ^ p)))"

definition utf8 :: "nat list \<Rightarrow> string" where
  "utf8 bs = map char_of bs"

definition newline :: string where
  "newline = [CHR 0x0A]"

definition typeEmoji :: "string \<Rightarrow> string" where
  "typeEmoji t =
     (if t = SignalOpen then utf8 [0xF0, 0x9F, 0x9F, 0xA2]
      else if t = SignalClose then utf8 [0xF0, 0x9F, 0x94, 0xB4]
      else if t = SignalModify then utf8 [0xF0, 0x9F, 0x94, 0xB5]
      else if t = SignalPartial then utf8 [0xF0, 0x9F, 0x9F, 0xA1]
      else utf8 [0xE2, 0x9A, 0xAA])"

definition TypeEmoji :: "string \<Rightarrow> string" where
  "TypeEmoji t = typeEmoji t"

definition dirEmoji :: "string \<Rightarrow> string" where
  "dirEmoji d = (if d = ''BUY'' then utf8 [0xF0, 0x9F, 0x93, 0x88] else utf8 [0xF0, 0x9F, 0x93, 0x89])"

definition formatMessage :: "InboundSignal \<Rightarrow> string" where
  "formatMessage sg =
     typeEmoji (SignalType sg) @ '' *'' @ SignalType sg @ ''*'' @ newline
     @ dirEmoji (Direction sg) @ '' *'' @ Direction sg @ '' '' @ Symbol sg @ ''*'' @ newline
     @ utf8 [0xF0, 0x9F, 0x92, 0xB0] @ '' `'' @ fixed 5 (Price sg) @ ''`  ''
     @ utf8 [0xF0, 0x9F, 0x93, 0xA6] @ '' `'' @ fixed 2 (Lot sg) @ ''` lot''
     @ (case SL sg of None \<Rightarrow> []
        | Some x \<Rightarrow> newline @ utf8 [0xF0, 0x9F, 0x9B, 0x91] @ '' SL `'' @ fixed 5 x @ ''`'')
     @ (case TP sg of None \<Rightarrow> []
        | Some x \<Rightarrow> ''  '' @ utf8 [0xF0, 0x9F, 0x8E, 0xAF] @ '' TP `'' @ fixed 5 x @ ''`'')
     @ newline @ utf8 [0xF0, 0x9F, 0x8E, 0xAB] @ '' `'' @ FormatInt (TicketID sg) @ ''`  ''
     @ utf8 [0xF0, 0x9F, 0x95, 0x90] @ '' `'' @ clock_text (Timestamp sg) @ ''`''"

definition formatPlain :: "InboundSignal \<Rightarrow> string" where
  "formatPlain sg = Join
     ([TypeEmoji (SignalType sg) @ '' '' @ SignalType sg @ '' Signal'',
       Direction sg @ '' '' @ Symbol sg,
       ''Price: '' @ fixed 5 (Price sg) @ ''  Lot: '' @ fixed 2 (Lot sg)]
      @ (case SL sg of None \<Rightarrow> [] | Some x \<Rightarrow> [''SL: '' @ fixed 5 x])
      @ (case TP sg of None \<Rightarrow> [] | Some x \<Rightarrow> [''TP: '' @ fixed 5 x])
      @ [''Ticket: '' @ FormatInt (TicketID sg)]) newline"

subsection \<open>Requests\<close>

text \<open>\<open>http.NewRequestWithContext\<close> fails on a text that is no URL; nothing is sent then.\<close>

definition new_request :: "('r, 'l, 'd) env \<Rightarrow> http_out \<Rightarrow> (goerr \<Rightarrow> goerr)
    \<Rightarrow> (nat \<times> string \<Rightarrow> unit result) \<Rightarrow> ('r, 'l, 'd, unit result) io" where
  "new_request E req wrap check = (case url_error E (ho_url req) of
     Some e \<Rightarrow> ret (Inl (ESvc e))
   | None \<Rightarrow> do {
       x \<leftarrow> http_Do E req;
       ret (case x of Inl e \<Rightarrow> Inl (wrap e) | Inr resp \<Rightarrow> check resp) })"

definition telegram_send ::
    "('r, 'l, 'd) env \<Rightarrow> string \<Rightarrow> string \<Rightarrow> string \<Rightarrow> string \<Rightarrow> ('r, 'l, 'd, unit result) io" where
  "telegram_send E token baseURL chatID msg = new_request E
     \<lparr>ho_method = ''POST'', ho_url = baseURL @ ''/bot'' @ token @ ''/sendMessage'',
      ho_headers = [(''Content-Type'', ''application/json'')],
      ho_body = HJson (JObj [(''chat_id'', JStr chatID), (''parse_mode'', JStr ''Markdown''), (''text'', JStr msg)])\<rparr>
     (EWrap ''telegram'')
     (\<lambda>(code, _). if code \<noteq> 200 then Inl (EStatus ''telegram status'' (int code)) else Inr ())"

text \<open>The signature covers the bytes of the body; a payload that cannot be marshalled has none.\<close>

definition webhook_send ::
    "('r, 'l, 'd) env \<Rightarrow> string \<Rightarrow> string \<Rightarrow> json option \<Rightarrow> ('r, 'l, 'd, unit result) io" where
  "webhook_send E url secret body = new_request E
     \<lparr>ho_method = ''POST'', ho_url = url,
      ho_headers = [(''Content-Type'', ''application/json''), (''User-Agent'', ''MT4Signal/1.0'')]
        @ (if secret \<noteq> [] then [(''X-MT4Signal-Signature'', ''sha256='' @ hex_encode (HmacSHA256 (bytes_of secret)
            (case body of None \<Rightarrow> [] | Some d \<Rightarrow> json_text E d)))] else []),
      ho_body = (case body of None \<Rightarrow> HNone | Some d \<Rightarrow> HJson d)\<rparr>
     (EWrap ''webhook'')
     (\<lambda>(code, _). if code < 200 \<or> 300 \<le> code then Inl (EStatus ''webhook status'' (int code)) else Inr ())"

definition twilio ::
    "('r, 'l, 'd) env \<Rightarrow> NotifyConfig \<Rightarrow> string \<Rightarrow> string \<Rightarrow> ('r, 'l, 'd, unit result) io" where
  "twilio E ncfg dest msg = new_request E
     \<lparr>ho_method = ''POST'',
      ho_url = ''https://api.twilio.com/2010-04-01/Accounts/'' @ TwilioSID ncfg @ ''/Messages.json'',
      ho_headers = [(''Authorization'', ''Basic '' @ base64 (bytes_of (TwilioSID ncfg @ '':'' @ TwilioToken ncfg))),
        (''Content-Type'', ''application/x-www-form-urlencoded'')],
      ho_body = HForm [(''Body'', msg), (''From'', ''whatsapp:'' @ TwilioFrom ncfg), (''To'', ''whatsapp:'' @ dest)]\<rparr>
     (EWrap ''twilio'')
     (\<lambda>(code, b). if code < 200 \<or> 300 \<le> code then Inl (EWrap (''twilio '' @ FormatInt (int code)) (ESvc b)) else Inr ())"

text \<open>\<open>url.QueryEscape\<close>.\<close>

definition unreserved :: "char \<Rightarrow> bool" where
  "unreserved c \<longleftrightarrow> is_digit c \<or> (65 \<le> (of_char c :: nat) \<and> (of_char c :: nat) \<le> 90)
     \<or> (97 \<le> (of_char c :: nat) \<and> (of_char c :: nat) \<le> 122) \<or> c \<in> set ''-_.~''"

definition QueryEscape :: "string \<Rightarrow> string" where
  "QueryEscape s = concat (map (\<lambda>c. if unreserved c then [c] else if c = CHR '' '' then ''+''
     else CHR ''%'' # map upper_char [hex_digit (of_char c div 16), hex_digit (of_char c mod 16)]) s)"

definition callmebot ::
    "('r, 'l, 'd) env \<Rightarrow> NotifyConfig \<Rightarrow> string \<Rightarrow> string \<Rightarrow> ('r, 'l, 'd, unit result) io" where
  "callmebot E ncfg phone msg = new_request E
     \<lparr>ho_method = ''GET'',
      ho_url = ''https://api.callmebot.com/whatsapp.php?'' @ ''apikey='' @ QueryEscape (CallMeBotAPIKey ncfg)
        @ ''&phone='' @ QueryEscape phone @ ''&text='' @ QueryEscape msg,
      ho_headers = [], ho_body = HNone\<rparr>
     (EWrap ''callmebot'')
     (\<lambda>(code, _). if code \<noteq> 200 then Inl (EStatus ''callmebot'' (int code)) else Inr ())"

subsection \<open>The loops over the subscribers\<close>

text \<open>
  The loop that three of the handlers share: subscribers of another channel, or without a target
  in their configuration, are skipped; for the others a row is logged, the message sent, and the
  row marked. Errors of the log are ignored; the last error of a send is returned.
\<close>

fun deliver_all :: "('r, 'l, 'd) env \<Rightarrow> string \<Rightarrow> (Subscriber \<Rightarrow> string) \<Rightarrow> (Subscriber \<Rightarrow> ('r, 'l, 'd, unit result) io)
    \<Rightarrow> Job \<Rightarrow> Subscriber list \<Rightarrow> goerr option \<Rightarrow> ('r, 'l, 'd, goerr option) io" where
  "deliver_all E channel target send job [] lastErr = ret lastErr"
| "deliver_all E channel target send job (s # ss) lastErr =
     (if Channel s \<noteq> channel \<or> target s = [] then deliver_all E channel target send job ss lastErr
      else do {
        (logID, _) \<leftarrow> InsertDeliveryLog E (SignalID job) (sub_ID s) channel;
        x \<leftarrow> send s;
        case x of
          Inl err \<Rightarrow> do {
            _ \<leftarrow> MarkFailed E logID err;
            deliver_all E channel target send job ss (Some err) }
        | Inr _ \<Rightarrow> do {
            _ \<leftarrow> MarkDelivered E logID;
            deliver_all E channel target send job ss lastErr } })"

definition error_of :: "goerr option \<Rightarrow> unit result" where
  "error_of e = (case e of None \<Rightarrow> Inr () | Some err \<Rightarrow> Inl err)"

definition telegram_Handle :: "('r, 'l, 'd) env \<Rightarrow> string \<Rightarrow> string \<Rightarrow> ('r, 'l, 'd) handler" where
  "telegram_Handle E token baseURL job = (if token = [] then ret (Inr ())
     else do {
       x \<leftarrow> ListActiveSubscribers E;
       case x of
         Inl e \<Rightarrow> ret (Inl (EWrap ''list subscribers'' e))
       | Inr subs \<Rightarrow> do {
           let chatID = (\<lambda>s. config_string (Config s) ''chat_id'');
           e \<leftarrow> deliver_all E ''telegram'' chatID
             (\<lambda>s. telegram_send E token baseURL (chatID s) (formatMessage (Signal job))) job subs None;
           ret (error_of e) } })"

definition webhook_payload :: "('r, 'l, 'd) env \<Rightarrow> Job \<Rightarrow> int \<Rightarrow> json option" where
  "webhook_payload E job now = do {
     ts \<leftarrow> json_time \<lparr>inst = now, zone = 0\<rparr>;
     sg \<leftarrow> Marshal_signal (Signal job);
     Some (JObj [(''sent_at'', ts), (''signal'', sg), (''signal_id'', JStr (uuid_str E (SignalID job)))]) }"

definition webhook_Handle :: "('r, 'l, 'd) env \<Rightarrow> ('r, 'l, 'd) handler" where
  "webhook_Handle E job = do {
     x \<leftarrow> ListActiveSubscribers E;
     case x of
       Inl e \<Rightarrow> ret (Inl (EWrap ''list subscribers'' e))
     | Inr subs \<Rightarrow> do {
         now \<leftarrow> time_now;
         let body = webhook_payload E job now;
         let webhookURL = (\<lambda>s. config_string (Config s) ''url'');
         e \<leftarrow> deliver_all E ''webhook'' webhookURL
           (\<lambda>s. webhook_send E (webhookURL s) (config_string (Config s) ''secret'') body) job subs None;
         ret (error_of e) } }"

definition whatsapp_Handle :: "('r, 'l, 'd) env \<Rightarrow> NotifyConfig \<Rightarrow> ('r, 'l, 'd) handler" where
  "whatsapp_Handle E ncfg job = do {
     x \<leftarrow> ListActiveSubscribers E;
     case x of
       Inl e \<Rightarrow> ret (Inl (EWrap ''list subscribers'' e))
     | Inr subs \<Rightarrow> do {
         let msg = formatPlain (Signal job);
         let phone = (\<lambda>s. config_string (Config s) ''phone'');
         e \<leftarrow> deliver_all E ''whatsapp'' phone
           (\<lambda>s. if WhatsAppProvider ncfg = ''twilio'' then twilio E ncfg (phone s) msg
                else if WhatsAppProvider ncfg = ''callmebot'' then callmebot E ncfg (phone s) msg
                else ret (Inl (EMsg (''unknown provider: '' @ WhatsAppProvider ncfg)))) job subs None;
         ret (error_of e) } }"

text \<open>The copier only logs: the receiver EA polls the signal. Its subscribers may list symbols.\<close>

definition wants_symbol :: "Subscriber \<Rightarrow> string \<Rightarrow> bool" where
  "wants_symbol s symbol = (case config_get (Config s) ''symbols'' of
     Some (JArr syms) \<Rightarrow> syms = [] \<or> JStr symbol \<in> set syms
   | _ \<Rightarrow> True)"

fun copy_all :: "('r, 'l, 'd) env \<Rightarrow> Job \<Rightarrow> Subscriber list \<Rightarrow> goerr option \<Rightarrow> ('r, 'l, 'd, goerr option) io" where
  "copy_all E job [] lastErr = ret lastErr"
| "copy_all E job (s # ss) lastErr =
     (if Channel s \<noteq> ''mt4'' \<or> \<not> wants_symbol s (Symbol (Signal job)) then copy_all E job ss lastErr
      else do {
        (logID, _) \<leftarrow> InsertDeliveryLog E (SignalID job) (sub_ID s) ''mt4'';
        x \<leftarrow> MarkDelivered E logID;
        copy_all E job ss (case x of Inl err \<Rightarrow> Some err | Inr _ \<Rightarrow> lastErr) })"

definition mt4copier_Handle :: "('r, 'l, 'd) env \<Rightarrow> ('r, 'l, 'd) handler" where
  "mt4copier_Handle E job = do {
     x \<leftarrow> ListActiveSubscribers E;
     case x of
       Inl e \<Rightarrow> ret (Inl (EWrap ''list subscribers'' e))
     | Inr subs \<Rightarrow> do { e \<leftarrow> copy_all E job subs None; ret (error_of e) } }"

text \<open>The consumer that \<open>cmd/worker\<close> builds.\<close>

definition worker_consumer :: "('r, 'l, 'd) env \<Rightarrow> WorkerConfig \<Rightarrow> NotifyConfig \<Rightarrow> ('r, 'l, 'd) Consumer" where
  "worker_consumer E wcfg ncfg =
     RegisterHandler (mt4copier_Handle E)
       (RegisterHandler (webhook_Handle E)
         (RegisterHandler (whatsapp_Handle E ncfg)
           (RegisterHandler (telegram_Handle E (TelegramToken ncfg) (TelegramBaseURL ncfg)) (NewConsumer wcfg))))"

subsection \<open>What the handlers touch\<close>

lemma new_request_keeps [hoare]:
  "keeps crit (new_request E req f g)" "keeps lru (new_request E req f g)" "keeps pg (new_request E req f g)"
  "keeps clock (new_request E req f g)"
  unfolding new_request_def by (intro hoare)+

lemmas send_defs = telegram_send_def webhook_send_def twilio_def callmebot_def

lemma sends_keep [hoare]:
  "keeps crit (telegram_send E tk bu ci m)" "keeps crit (webhook_send E u sc b)"
  "keeps crit (twilio E nc d m)" "keeps crit (callmebot E nc d m)"
  unfolding send_defs by (intro hoare)+

lemma sends_keep_lru [hoare]:
  "keeps lru (telegram_send E tk bu ci m)" "keeps lru (webhook_send E u sc b)"
  "keeps lru (twilio E nc d m)" "keeps lru (callmebot E nc d m)"
  unfolding send_defs by (intro hoare)+

lemma sends_keep_clock [hoare]:
  "keeps clock (telegram_send E tk bu ci m)" "keeps clock (webhook_send E u sc b)"
  "keeps clock (twilio E nc d m)" "keeps clock (callmebot E nc d m)"
  unfolding send_defs by (intro hoare)+

lemma sends_keep_pg [hoare]:
  "keeps pg (telegram_send E tk bu ci m)" "keeps pg (webhook_send E u sc b)"
  "keeps pg (twilio E nc d m)" "keeps pg (callmebot E nc d m)"
  unfolding send_defs by (intro hoare)+

text \<open>A loop keeps what the log operations and the sends keep.\<close>

lemma deliver_all_keeps:
  assumes "\<And>i j. keeps f (InsertDeliveryLog E i j ch)" and "\<And>i. keeps f (MarkDelivered E i)"
    and "\<And>i e. keeps f (MarkFailed E i e)" and "\<And>s. keeps f (send s)"
  shows "keeps f (deliver_all E ch target send job ss e)"
  using assms by (induction ss arbitrary: e) (auto intro!: keeps_bind keeps_pair keeps_sum keeps_return)

lemma copy_all_keeps:
  assumes "\<And>i j. keeps f (InsertDeliveryLog E i j ''mt4'')" and "\<And>i. keeps f (MarkDelivered E i)"
  shows "keeps f (copy_all E job ss e)"
  using assms by (induction ss arbitrary: e) (auto intro!: keeps_bind keeps_pair keeps_sum keeps_return)

lemmas handle_defs = telegram_Handle_def webhook_Handle_def whatsapp_Handle_def mt4copier_Handle_def

lemma handlers_keep:
  fixes E :: "('r, 'l, 'd) env" and f :: "('r, 'l, 'd) world \<Rightarrow> 'v"
  assumes log: "\<And>i j ch. keeps f (InsertDeliveryLog E i j ch)" "\<And>i. keeps f (MarkDelivered E i)"
      "\<And>i e. keeps f (MarkFailed E i e)" "keeps f (ListActiveSubscribers E)" "keeps f time_now"
    and send: "\<And>tk bu ci m. keeps f (telegram_send E tk bu ci m)" "\<And>u sc b. keeps f (webhook_send E u sc b)"
      "\<And>d m. keeps f (twilio E ncfg d m)" "\<And>d m. keeps f (callmebot E ncfg d m)"
    and h: "h \<in> set (con_handlers (worker_consumer E wcfg ncfg))"
  shows "keeps f (h job)"
proof -
  have "keeps f (telegram_Handle E tk bu job)" for tk bu
    unfolding handle_defs Let_def by (intro keeps_if keeps_bind keeps_sum keeps_return deliver_all_keeps log send)
  moreover have "keeps f (webhook_Handle E job)"
    unfolding handle_defs Let_def by (intro keeps_bind keeps_sum keeps_return deliver_all_keeps log send)
  moreover have "keeps f (whatsapp_Handle E ncfg job)"
    unfolding handle_defs Let_def by (intro keeps_if keeps_bind keeps_sum keeps_return deliver_all_keeps log send)
  moreover have "keeps f (mt4copier_Handle E job)"
    unfolding handle_defs Let_def by (intro keeps_bind keeps_sum keeps_return copy_all_keeps log)
  ultimately show ?thesis using h by (auto simp: worker_consumer_def RegisterHandler_def NewConsumer_def)
qed

lemma handlers_keep_off:
  assumes "h \<in> set (con_handlers (worker_consumer E wcfg ncfg))"
  shows "keeps crit (h job)" "keeps lru (h job)" "keeps clock (h job)"
  by (rule handlers_keep [OF _ _ _ _ _ _ _ _ _ assms],
      (intro store_update_keeps store_query_keeps off_pg_proj time_now_keeps sends_keep sends_keep_lru sends_keep_clock)+)+

context deployment
begin

lemma DB_frame:
  assumes "\<And>now t. f (snd (sql_step D now c t)) = f t"
  shows "keeps (\<lambda>w. f (ad (pg w))) (DB E (Auto c))"
  unfolding keeps_def using update_any assms by (metis prod.collapse)

lemma log_frame:
  assumes "\<And>t l. f (t\<lparr>delivery_log := l\<rparr>) = f t"
  shows "keeps (\<lambda>w. f (ad (pg w))) (InsertDeliveryLog E i j ch)" "keeps (\<lambda>w. f (ad (pg w))) (MarkDelivered E i)"
    "keeps (\<lambda>w. f (ad (pg w))) (MarkFailed E i e)"
  unfolding InsertDeliveryLog_def MarkDelivered_def MarkFailed_def
  by (intro keeps_bind keeps_return DB_frame keeps_comp [OF uuid_New_keeps(3)]; simp add: assms)+

lemma handlers_keep_tables:
  assumes "\<And>t l. f (t\<lparr>delivery_log := l\<rparr>) = f t" and "h \<in> set (con_handlers (worker_consumer E wcfg ncfg))"
  shows "keeps (\<lambda>w. f (ad (pg w))) (h job)"
proof (rule handlers_keep [OF _ _ _ _ _ _ _ _ _ assms(2)])
  show "keeps (\<lambda>w. f (ad (pg w))) (ListActiveSubscribers E)"
    by (rule keeps_comp [OF store_queries_pure(12), of f])
  show "keeps (\<lambda>w. f (ad (pg w))) time_now" by (rule keeps_comp [OF time_now_keeps])
qed (rule log_frame assms(1) keeps_comp [OF sends_keep_pg(1)] keeps_comp [OF sends_keep_pg(2)]
    keeps_comp [OF sends_keep_pg(3)] keeps_comp [OF sends_keep_pg(4)])+

end

lemma handlers_off_crit_worker [simp]: "handlers_off_crit (worker_consumer E wcfg ncfg)"
  using handlers_keep_off(1,3) by (auto simp: handlers_off_crit_def)

text \<open>
  A notification handler writes nothing but the delivery log: whatever the servers and the
  services it calls answer, it leaves both Redis servers and every other table as they were.
\<close>

theorem notify_frame:
  assumes "deployment E ac al ad D" and "h \<in> set (con_handlers (worker_consumer E wcfg ncfg))"
    and "run_state (h job) w = (x, w')"
  shows "crit w' = crit w \<and> lru w' = lru w
    \<and> ad (pg w') = (ad (pg w))\<lparr>delivery_log := delivery_log (ad (pg w'))\<rparr>"
proof -
  have "keeps (\<lambda>w. (ad (pg w))\<lparr>delivery_log := []\<rparr>) (h job)"
    by (rule deployment.handlers_keep_tables [OF assms(1) _ assms(2), where f = "\<lambda>t. t\<lparr>delivery_log := []\<rparr>"]) simp
  from keepsD [OF this assms(3)]
  have "(ad (pg w'))\<lparr>delivery_log := []\<rparr>\<lparr>delivery_log := delivery_log (ad (pg w'))\<rparr>
      = (ad (pg w))\<lparr>delivery_log := []\<rparr>\<lparr>delivery_log := delivery_log (ad (pg w'))\<rparr>" by (rule arg_cong)
  then show ?thesis
    using keepsD [OF handlers_keep_off(1) [OF assms(2)] assms(3)] keepsD [OF handlers_keep_off(2) [OF assms(2)] assms(3)] by simp
qed

definition demo_ncfg :: NotifyConfig where
  "demo_ncfg = \<lparr>TelegramToken = ''t'', TelegramBaseURL = ''https://api.telegram.org'', WhatsAppProvider = ''twilio'',
     TwilioSID = ''sid'', TwilioToken = ''tk'', TwilioFrom = ''+1'', CallMeBotAPIKey = []\<rparr>"

definition demo_sub :: "uuid \<Rightarrow> string \<Rightarrow> (string \<times> json) list \<Rightarrow> sub_row" where
  "demo_sub i ch obj = \<lparr>br_id = i, br_key = 7, br_channel = ch, br_config = JObj obj, br_active = True, br_created = 0\<rparr>"

definition sub_tables :: tables where
  "sub_tables = (demo_tables [] ''active'' None)\<lparr>subscribers := [demo_sub 20 ''mt4'' [],
     demo_sub 21 ''telegram'' [(''chat_id'', JStr ''99'')], demo_sub 22 ''telegram'' []]\<rparr>"

theorem notify_frame_witness:
  "\<exists>x w'. run_state (mt4copier_Handle calm_env demo_job) (calm_world sub_tables demo_time) = (x, w')
    \<and> pg w' = sub_tables\<lparr>delivery_log := delivery_log (pg w')\<rparr>"
proof -
  obtain x w' where r: "run_state (mt4copier_Handle calm_env demo_job) (calm_world sub_tables demo_time) = (x, w')"
    by (metis surj_pair)
  have h: "mt4copier_Handle calm_env \<in> set (con_handlers (worker_consumer calm_env demo_worker demo_ncfg))"
    by (simp add: worker_consumer_def RegisterHandler_def NewConsumer_def)
  from notify_frame [OF calm_deployment h r] r show ?thesis by simp
qed

subsection \<open>The delivery log\<close>

text \<open>The final row of an attempt.\<close>

definition final_row :: "uuid \<Rightarrow> Job \<Rightarrow> Subscriber \<Rightarrow> string \<Rightarrow> int \<Rightarrow> goerr option \<Rightarrow> log_row" where
  "final_row i job s ch now e = \<lparr>lr_id = i, lr_signal = SignalID job, lr_sub = sub_ID s, lr_channel = ch,
     lr_status = (case e of None \<Rightarrow> ''delivered'' | Some _ \<Rightarrow> ''failed''), lr_attempts = 1, lr_attempted = Some now,
     lr_error = e, lr_created = now\<rparr>"

text \<open>UUIDs not used yet, as far as a run needs them.\<close>

definition new_ids :: "('r, 'l, 'd) env \<Rightarrow> nat \<Rightarrow> nat \<Rightarrow> tables \<Rightarrow> bool" where
  "new_ids E n k t \<longleftrightarrow> inj_on (new_uuid E) {n..<n + k} \<and> new_uuid E ` {n..<n + k} \<inter> lr_id ` set (delivery_log t) = {}"

lemma upd_new: "i \<notin> lr_id ` set l \<Longrightarrow> lr_id r = i \<Longrightarrow> upd (\<lambda>r. lr_id r = i) f (l @ [r]) = l @ [f r]"
  by (induction l) (auto simp: upd_def)

context deployment
begin

lemma log_insert:
  assumes "reliable_db E" and "new_uuid E (seed w) \<notin> lr_id ` set (delivery_log (ad (pg w)))"
    and "sb \<in> br_id ` set (subscribers (ad (pg w)))"
  shows "\<exists>w'. run_state (InsertDeliveryLog E sg sb ch) w = ((new_uuid E (seed w), Inr ()), w')
    \<and> ad (pg w') = (ad (pg w))\<lparr>delivery_log := delivery_log (ad (pg w)) @ [\<lparr>lr_id = new_uuid E (seed w), lr_signal = sg,
        lr_sub = sb, lr_channel = ch, lr_status = ''pending'', lr_attempts = 0, lr_attempted = None, lr_error = None,
        lr_created = clock w\<rparr>]\<rparr> \<and> clock w' = clock w \<and> seed w' = Suc (seed w)"
  using reliable_DB [OF assms(1), of "InsertLog (new_uuid E (seed w)) sg sb ch" "w\<lparr>seed := Suc (seed w)\<rparr>"] assms(2,3)
  by (auto simp: InsertDeliveryLog_def exec_result_def)

lemma log_mark:
  assumes "reliable_db E" and "i \<notin> lr_id ` set l" and "delivery_log (ad (pg w)) = l @ [r]" and "lr_id r = i"
  shows "\<exists>w'. run_state (MarkDelivered E i) w = (Inr (), w') \<and> ad (pg w') = (ad (pg w))\<lparr>delivery_log :=
      l @ [r\<lparr>lr_status := ''delivered'', lr_attempted := Some (clock w), lr_attempts := lr_attempts r + 1\<rparr>]\<rparr>
      \<and> clock w' = clock w \<and> seed w' = seed w"
    and "\<exists>w'. run_state (MarkFailed E i e) w = (Inr (), w') \<and> ad (pg w') = (ad (pg w))\<lparr>delivery_log :=
      l @ [r\<lparr>lr_status := ''failed'', lr_attempted := Some (clock w), lr_attempts := lr_attempts r + 1, lr_error := Some e\<rparr>]\<rparr>
      \<and> clock w' = clock w \<and> seed w' = seed w"
  using reliable_DB [OF assms(1), of "UpdateDelivered i" w] reliable_DB [OF assms(1), of "UpdateFailed e i" w]
    upd_new [OF assms(2,4)] assms(3)
  by (auto simp: MarkDelivered_def MarkFailed_def exec_result_def hits_def)

end

text \<open>A send that disturbs neither the database nor the clock and draws at most one number.\<close>

definition quiet :: "('r, 'l, 'd, 'a) io \<Rightarrow> bool" where
  "quiet m \<longleftrightarrow> (\<forall>w x w'. run_state m w = (x, w') \<longrightarrow> pg w' = pg w \<and> clock w' = clock w \<and> seed w' \<in> {seed w, Suc (seed w)})"

lemma quiet_ret [simp]: "quiet (ret x)"
  by (simp add: quiet_def)

lemma quiet_send [simp]:
  "quiet (telegram_send E tk bu ci m)" "quiet (webhook_send E u sc b)" "quiet (twilio E nc d m)" "quiet (callmebot E nc d m)"
  by (auto simp: quiet_def send_defs new_request_def http_Do_def split: option.splits)

lemma quietD:
  assumes "quiet m" and "run_state m w = (x, w')"
  shows "pg w' = pg w" "clock w' = clock w" "seed w' \<in> {seed w, Suc (seed w)}"
  using assms unfolding quiet_def by blast+

text \<open>The row that a handler leaves for a subscriber, and the error the whole run returns.\<close>

definition logged :: "Job \<Rightarrow> string \<Rightarrow> int \<Rightarrow> Subscriber \<Rightarrow> log_row \<Rightarrow> bool" where
  "logged job ch now s r \<longleftrightarrow> (\<exists>i e. r = final_row i job s ch now e)"

fun last_error :: "log_row list \<Rightarrow> goerr option \<Rightarrow> goerr option" where
  "last_error [] e = e"
| "last_error (r # rs) e = last_error rs (case lr_error r of None \<Rightarrow> e | Some x \<Rightarrow> Some x)"

lemma last_error_None: "last_error rs e = None \<longleftrightarrow> e = None \<and> (\<forall>r \<in> set rs. lr_error r = None)"
  by (induction rs arbitrary: e) (auto split: option.splits)

lemma disjoint_insert: "x \<notin> A \<Longrightarrow> A \<inter> B = {} \<Longrightarrow> C \<subseteq> insert x B \<Longrightarrow> A \<inter> C = {}"
  by blast

lemma new_ids_later:
  assumes "new_ids E n k t" and "n < n'" and "n' + k' \<le> n + k"
    and "lr_id ` set (delivery_log t') \<subseteq> insert (new_uuid E n) (lr_id ` set (delivery_log t))"
  shows "new_ids E n' k' t'"
proof -
  have s: "{n'..<n' + k'} \<subseteq> {n..<n + k}" using assms(2,3) by auto
  have "new_uuid E n \<notin> new_uuid E ` {n'..<n' + k'}"
  proof (cases "k' = 0")
    case False
    then have "n \<in> {n..<n + k}" using assms(2,3) by auto
    moreover have "inj_on (new_uuid E) {n..<n + k}" using assms(1) by (simp add: new_ids_def)
    moreover have "n \<notin> {n'..<n' + k'}" using assms(2) by simp
    ultimately show ?thesis using inj_on_image_mem_iff s by metis
  qed simp
  moreover have "new_uuid E ` {n'..<n' + k'} \<inter> lr_id ` set (delivery_log t) = {}"
    using assms(1) image_mono [OF s, of "new_uuid E"] unfolding new_ids_def by blast
  moreover have "inj_on (new_uuid E) {n'..<n' + k'}"
    using assms(1) inj_on_subset [OF _ s, of "new_uuid E"] by (simp add: new_ids_def)
  ultimately show ?thesis unfolding new_ids_def using disjoint_insert [OF _ _ assms(4)] by simp
qed

lemma new_ids_fewer: "new_ids E n k t \<Longrightarrow> k' \<le> k \<Longrightarrow> new_ids E n k' t"
proof -
  assume n: "new_ids E n k t" and "k' \<le> k"
  then have s: "{n..<n + k'} \<subseteq> {n..<n + k}" by auto
  show ?thesis
    using n inj_on_subset [OF _ s, of "new_uuid E"] image_mono [OF s, of "new_uuid E"] unfolding new_ids_def by blast
qed

context deployment
begin

lemma deliver_all_log:
  assumes "reliable_db E" and q: "\<And>s. quiet (send s)"
  shows "new_ids E (seed w) (2 * length ss) (ad (pg w)) \<Longrightarrow> sub_ID ` set ss \<subseteq> br_id ` set (subscribers (ad (pg w))) \<Longrightarrow>
    run_state (deliver_all E ch target send job ss e) w = (x, w') \<Longrightarrow>
    \<exists>rows. ad (pg w') = (ad (pg w))\<lparr>delivery_log := delivery_log (ad (pg w)) @ rows\<rparr> \<and> x = last_error rows e
      \<and> list_all2 (logged job ch (clock w)) (filter (\<lambda>s. Channel s = ch \<and> target s \<noteq> []) ss) rows"
proof (induction ss arbitrary: w e)
  case Nil
  then show ?case by auto
next
  case (Cons s ss)
  show ?case
  proof (cases "Channel s = ch \<and> target s \<noteq> []")
    case False
    then have "run_state (deliver_all E ch target send job ss e) w = (x, w')" using Cons.prems(3) by auto
    from Cons.IH [OF new_ids_fewer [OF Cons.prems(1)] _ this] Cons.prems(2) show ?thesis using False by auto
  next
    case True
    let ?i = "new_uuid E (seed w)" and ?l = "delivery_log (ad (pg w))"
    have i: "?i \<notin> lr_id ` set ?l" using Cons.prems(1) by (force simp: new_ids_def)
    have sb: "sub_ID s \<in> br_id ` set (subscribers (ad (pg w)))" using Cons.prems(2) by simp
    define r where "r = \<lparr>lr_id = ?i, lr_signal = SignalID job, lr_sub = sub_ID s, lr_channel = ch, lr_status = ''pending'',
        lr_attempts = 0, lr_attempted = None, lr_error = None, lr_created = clock w\<rparr>"
    obtain w1 where w1: "run_state (InsertDeliveryLog E (SignalID job) (sub_ID s) ch) w = ((?i, Inr ()), w1)"
      "ad (pg w1) = (ad (pg w))\<lparr>delivery_log := ?l @ [r]\<rparr>" "clock w1 = clock w" "seed w1 = Suc (seed w)"
      using log_insert [OF assms(1) i sb, of "SignalID job" ch] unfolding r_def by blast
    obtain y w2 where w2: "run_state (send s) w1 = (y, w2)" by (metis surj_pair)
    have q2: "pg w2 = pg w1" "clock w2 = clock w" "seed w2 \<in> {Suc (seed w), Suc (Suc (seed w))}"
      using quietD [OF q w2] w1 by simp_all
    define f where "f = final_row ?i job s ch (clock w) (case y of Inl err \<Rightarrow> Some err | Inr _ \<Rightarrow> None)"
    have "\<exists>w3. run_state (case y of Inl err \<Rightarrow> MarkFailed E ?i err | Inr _ \<Rightarrow> MarkDelivered E ?i) w2 = (Inr (), w3)
        \<and> ad (pg w3) = (ad (pg w))\<lparr>delivery_log := ?l @ [f]\<rparr> \<and> clock w3 = clock w \<and> seed w3 = seed w2"
      using log_mark(1) [OF assms(1) i, of w2 r] log_mark(2) [OF assms(1) i, of w2 r] w1(2) q2(1,2)
      by (cases y) (simp_all add: r_def f_def final_row_def)
    then obtain w3 where w3: "run_state (case y of Inl err \<Rightarrow> MarkFailed E ?i err | Inr _ \<Rightarrow> MarkDelivered E ?i) w2 = (Inr (), w3)"
      "ad (pg w3) = (ad (pg w))\<lparr>delivery_log := ?l @ [f]\<rparr>" "clock w3 = clock w" "seed w3 = seed w2" by blast
    have rest: "run_state (deliver_all E ch target send job ss (case lr_error f of None \<Rightarrow> e | Some z \<Rightarrow> Some z)) w3 = (x, w')"
      using Cons.prems(3) True w1(1) w2 w3(1) by (cases y) (simp_all add: f_def final_row_def)
    have "new_ids E (seed w3) (2 * length ss) (ad (pg w3))"
      by (rule new_ids_later [OF Cons.prems(1)]) (use q2(3) w3 in \<open>auto simp: f_def final_row_def\<close>)
    from Cons.IH [OF this _ rest] Cons.prems(2) w3 obtain rows where
      "ad (pg w') = (ad (pg w))\<lparr>delivery_log := ?l @ f # rows\<rparr>" "x = last_error (f # rows) e"
      "list_all2 (logged job ch (clock w)) (filter (\<lambda>s. Channel s = ch \<and> target s \<noteq> []) ss) rows" by auto
    moreover have "logged job ch (clock w) s f" by (auto simp: logged_def f_def)
    ultimately show ?thesis using True by (intro exI [of _ "f # rows"]) simp
  qed
qed

lemma copy_all_log:
  assumes "reliable_db E"
  shows "new_ids E (seed w) (2 * length ss) (ad (pg w)) \<Longrightarrow> sub_ID ` set ss \<subseteq> br_id ` set (subscribers (ad (pg w))) \<Longrightarrow>
    run_state (copy_all E job ss e) w = (x, w') \<Longrightarrow>
    \<exists>rows. ad (pg w') = (ad (pg w))\<lparr>delivery_log := delivery_log (ad (pg w)) @ rows\<rparr> \<and> x = last_error rows e
      \<and> list_all2 (logged job ''mt4'' (clock w))
          (filter (\<lambda>s. Channel s = ''mt4'' \<and> wants_symbol s (Symbol (Signal job))) ss) rows"
proof -
  let ?t = "\<lambda>s. if wants_symbol s (Symbol (Signal job)) then ''x'' else []"
  have eq: "run_state (copy_all E job ss e) w = run_state (deliver_all E ''mt4'' ?t (\<lambda>s. ret (Inr ())) job ss e) w"
    if "new_ids E (seed w) (2 * length ss) (ad (pg w))" "sub_ID ` set ss \<subseteq> br_id ` set (subscribers (ad (pg w)))" for e w ss
    using that
  proof (induction ss arbitrary: e w)
    case (Cons s ss)
    show ?case
    proof (cases "Channel s = ''mt4'' \<and> wants_symbol s (Symbol (Signal job))")
      case False
      then show ?thesis using Cons.IH [OF new_ids_fewer [OF Cons.prems(1)]] Cons.prems(2) by auto
    next
      case True
      let ?i = "new_uuid E (seed w)" and ?l = "delivery_log (ad (pg w))"
      have i: "?i \<notin> lr_id ` set ?l" using Cons.prems(1) by (force simp: new_ids_def)
      have sb: "sub_ID s \<in> br_id ` set (subscribers (ad (pg w)))" using Cons.prems(2) by simp
      define r where "r = \<lparr>lr_id = ?i, lr_signal = SignalID job, lr_sub = sub_ID s, lr_channel = ''mt4'', lr_status = ''pending'',
        lr_attempts = 0, lr_attempted = None, lr_error = None, lr_created = clock w\<rparr>"
      have ri: "lr_id r = ?i" by (simp add: r_def)
      obtain w1 where w1: "run_state (InsertDeliveryLog E (SignalID job) (sub_ID s) ''mt4'') w = ((?i, Inr ()), w1)"
        "ad (pg w1) = (ad (pg w))\<lparr>delivery_log := ?l @ [r]\<rparr>" "seed w1 = Suc (seed w)"
        using log_insert [OF assms i sb, of "SignalID job" "''mt4''"] unfolding r_def by blast
      have "delivery_log (ad (pg w1)) = ?l @ [r]" using w1(2) by simp
      from log_mark(1) [OF assms i this ri] obtain w2 where w2: "run_state (MarkDelivered E ?i) w1 = (Inr (), w2)"
        "ad (pg w2) = (ad (pg w))\<lparr>delivery_log := ?l @ [r\<lparr>lr_status := ''delivered'', lr_attempted := Some (clock w1),
          lr_attempts := lr_attempts r + 1\<rparr>]\<rparr>" "seed w2 = Suc (seed w)"
        using w1(2,3) by auto
      have "new_ids E (seed w2) (2 * length ss) (ad (pg w2))"
        by (rule new_ids_later [OF Cons.prems(1)]) (use w2 ri in auto)
      from Cons.IH [OF this] Cons.prems(2) w2 True w1 show ?thesis by simp
    qed
  qed simp
  assume n: "new_ids E (seed w) (2 * length ss) (ad (pg w))"
    and s: "sub_ID ` set ss \<subseteq> br_id ` set (subscribers (ad (pg w)))" and r: "run_state (copy_all E job ss e) w = (x, w')"
  have t: "(\<lambda>s. Channel s = ''mt4'' \<and> ?t s \<noteq> []) = (\<lambda>s. Channel s = ''mt4'' \<and> wants_symbol s (Symbol (Signal job)))"
    by auto
  have "run_state (deliver_all E ''mt4'' ?t (\<lambda>s. ret (Inr ())) job ss e) w = (x, w')" using eq [OF n s] r by simp
  from deliver_all_log [OF assms quiet_ret n s this] show ?thesis unfolding t .
qed

end

text \<open>The four channels: the handler of each, and the subscribers it is for.\<close>

definition handler_of :: "('r, 'l, 'd) env \<Rightarrow> NotifyConfig \<Rightarrow> string \<Rightarrow> ('r, 'l, 'd) handler" where
  "handler_of E ncfg ch =
     (if ch = ''telegram'' then telegram_Handle E (TelegramToken ncfg) (TelegramBaseURL ncfg)
      else if ch = ''webhook'' then webhook_Handle E
      else if ch = ''whatsapp'' then whatsapp_Handle E ncfg else mt4copier_Handle E)"

definition addressed :: "string \<Rightarrow> string \<Rightarrow> Subscriber \<Rightarrow> bool" where
  "addressed ch symbol s \<longleftrightarrow> Channel s = ch \<and>
     (if ch = ''telegram'' then config_string (Config s) ''chat_id'' \<noteq> []
      else if ch = ''webhook'' then config_string (Config s) ''url'' \<noteq> []
      else if ch = ''whatsapp'' then config_string (Config s) ''phone'' \<noteq> [] else wants_symbol s symbol)"

definition active_subs :: "tables \<Rightarrow> Subscriber list" where
  "active_subs t = map scan_sub_row (filter br_active (subscribers t))"

context deployment
begin

lemma ListActiveSubscribers_ok:
  assumes "reliable_db E"
  shows "\<exists>w'. run_state (ListActiveSubscribers E) w = (Inr (active_subs (ad (pg w))), w')
    \<and> ad (pg w') = ad (pg w) \<and> clock w' = clock w \<and> seed w' = seed w"
  using reliable_DB [OF assms, of ActiveSubs w]
  by (auto simp: ListActiveSubscribers_def collectSubscribers_def active_subs_def)

lemma delivery_rows:
  assumes "reliable_db E" and "ch \<in> set channels" and "ch = ''telegram'' \<Longrightarrow> TelegramToken ncfg \<noteq> []"
    and n: "new_ids E (seed w) (2 * length (active_subs (ad (pg w)))) (ad (pg w))"
    and r: "run_state (handler_of E ncfg ch job) w = (x, w')"
  shows "\<exists>rows. ad (pg w') = (ad (pg w))\<lparr>delivery_log := delivery_log (ad (pg w)) @ rows\<rparr>
    \<and> list_all2 (logged job ch (clock w)) (filter (addressed ch (Symbol (Signal job))) (active_subs (ad (pg w)))) rows
    \<and> x = error_of (last_error rows None)"
proof -
  let ?subs = "active_subs (ad (pg w))"
  obtain w1 where l: "run_state (ListActiveSubscribers E) w = (Inr ?subs, w1)"
    and w1: "ad (pg w1) = ad (pg w)" "clock w1 = clock w" "seed w1 = seed w"
    using ListActiveSubscribers_ok [OF assms(1)] by blast
  have n1: "new_ids E (seed w1) (2 * length ?subs) (ad (pg w1))" using n w1 by simp
  have s1: "sub_ID ` set ?subs \<subseteq> br_id ` set (subscribers (ad (pg w1)))"
    by (auto simp: active_subs_def w1 scan_sub_row_def)
  have fin: ?thesis if d: "run_state (deliver_all E ch target send job ?subs None) w1 = (e, w')" "x = error_of e"
      and q: "\<And>s. quiet (send s)" and a: "\<And>s. addressed ch (Symbol (Signal job)) s \<longleftrightarrow> Channel s = ch \<and> target s \<noteq> []"
    for target send e
  proof -
    have "filter (addressed ch (Symbol (Signal job))) ?subs = filter (\<lambda>s. Channel s = ch \<and> target s \<noteq> []) ?subs"
      by (rule filter_cong [OF refl]) (rule a)
    with deliver_all_log [OF assms(1) q n1 s1 d(1)] d(2) w1 show ?thesis by auto
  qed
  from assms(2) consider "ch = ''telegram''" | "ch = ''webhook''" | "ch = ''whatsapp''" | "ch = ''mt4''"
    by (auto simp: channels_def)
  then show ?thesis
  proof cases
    case 1
    obtain e where "run_state (deliver_all E ch (\<lambda>s. config_string (Config s) ''chat_id'') (\<lambda>s. telegram_send E
        (TelegramToken ncfg) (TelegramBaseURL ncfg) (config_string (Config s) ''chat_id'') (formatMessage (Signal job)))
        job ?subs None) w1 = (e, w')" "x = error_of e"
      using r l assms(3) [OF 1] 1 by (auto simp: handler_of_def telegram_Handle_def Let_def split: prod.splits)
    then show ?thesis by (rule fin) (simp_all add: 1 addressed_def)
  next
    case 2
    obtain e where "run_state (deliver_all E ch (\<lambda>s. config_string (Config s) ''url'') (\<lambda>s. webhook_send E
        (config_string (Config s) ''url'') (config_string (Config s) ''secret'') (webhook_payload E job (clock w1)))
        job ?subs None) w1 = (e, w')" "x = error_of e"
      using r l 2 by (auto simp: handler_of_def webhook_Handle_def Let_def split: prod.splits)
    then show ?thesis by (rule fin) (simp_all add: 2 addressed_def)
  next
    case 3
    let ?phone = "\<lambda>s. config_string (Config s) ''phone''" and ?m = "formatPlain (Signal job)"
    obtain e where "run_state (deliver_all E ch ?phone
        (\<lambda>s. if WhatsAppProvider ncfg = ''twilio'' then twilio E ncfg (?phone s) ?m
             else if WhatsAppProvider ncfg = ''callmebot'' then callmebot E ncfg (?phone s) ?m
             else ret (Inl (EMsg (''unknown provider: '' @ WhatsAppProvider ncfg))))
        job ?subs None) w1 = (e, w')" "x = error_of e"
      using r l 3 by (auto simp: handler_of_def whatsapp_Handle_def Let_def split: prod.splits)
    then show ?thesis by (rule fin) (simp_all add: 3 addressed_def)
  next
    case 4
    then obtain e where "run_state (copy_all E job ?subs None) w1 = (e, w')" "x = error_of e"
      using r l by (auto simp: handler_of_def mt4copier_Handle_def split: prod.splits)
    with copy_all_log [OF assms(1) n1 s1 this(1)] w1 4 show ?thesis by (auto simp: addressed_def [abs_def])
  qed
qed

end



end
