(* ===== verification/Symbols.thy ===== *)
theory Symbols
  imports Notify
begin

text \<open>
  \<open>internal/symbols/manager.go\<close>: the manager that keeps one goroutine running per watched symbol.
  The lemmas say that a sync leaves exactly one running goroutine for every loaded symbol and
  none for any other, and that the manager itself returns once its context is cancelled.
\<close>

subsection \<open>State\<close>

text \<open>
  The goroutines the manager has started, in order, each with the time at which its cancel
  function was called, if it was. \<open>running\<close> maps a symbol to the number of its goroutine, which
  stands for the cancel function.
\<close>

record goroutine =
  g_symbol :: string
  g_cancel :: "int option"

record ('r, 'l, 'd) Manager =
  mgr_consumer :: "('r, 'l, 'd) Consumer"
  running :: "(string \<times> nat) list"
  launched :: "goroutine list"

definition cacheTTL :: int where
  "cacheTTL = 5 * Minute"

definition NewManager :: "('r, 'l, 'd) Consumer \<Rightarrow> ('r, 'l, 'd) Manager" where
  "NewManager c = \<lparr>mgr_consumer = c, running = [], launched = []\<rparr>"

definition NewLoader :: "('r, 'l, 'd) Consumer \<Rightarrow> ('r, 'l, 'd) Manager" where
  "NewLoader c = NewManager c"

subsection \<open>Operations\<close>

definition load :: "('r, 'l, 'd) env \<Rightarrow> ('r, 'l, 'd, string list result) io" where
  "load E = do {
     x \<leftarrow> GetSymbolList E;
     let cached = (case x of Inl _ \<Rightarrow> [] | Inr l \<Rightarrow> l);
     if cached \<noteq> [] then ret (Inr cached)
     else do {
       y \<leftarrow> ListActiveSymbols E;
       case y of
         Inl e \<Rightarrow> ret (Inl e)
       | Inr syms \<Rightarrow> do { _ \<leftarrow> SetSymbolList E syms cacheTTL; ret (Inr syms) } } }"

definition startLocked :: "string \<Rightarrow> ('r, 'l, 'd) Manager \<Rightarrow> ('r, 'l, 'd) Manager" where
  "startLocked sy m = (if map_of (running m) sy \<noteq> None then m
     else m\<lparr>running := running m @ [(sy, length (launched m))],
       mgr_consumer := Queue.AddSymbol sy (mgr_consumer m),
       launched := launched m @ [\<lparr>g_symbol = sy, g_cancel = None\<rparr>]\<rparr>)"

definition startSymbol :: "string \<Rightarrow> ('r, 'l, 'd) Manager \<Rightarrow> ('r, 'l, 'd) Manager" where
  "startSymbol sy m = startLocked sy m"

text \<open>
  The two loops of \<open>sync\<close>. Go visits the keys of a map in any order; here the order is that of
  the lists.
\<close>

fun start_missing :: "string list \<Rightarrow> ('r, 'l, 'd) Manager \<Rightarrow> ('r, 'l, 'd) Manager" where
  "start_missing [] m = m"
| "start_missing (sy # sys) m = start_missing sys (if map_of (running m) sy = None then startLocked sy m else m)"

definition cancel :: "int \<Rightarrow> nat \<Rightarrow> goroutine list \<Rightarrow> goroutine list" where
  "cancel now i gs = gs[i := (gs ! i)\<lparr>g_cancel := Some now\<rparr>]"

fun stop_unwanted :: "int \<Rightarrow> string list \<Rightarrow> (string \<times> nat) list \<Rightarrow> ('r, 'l, 'd) Manager \<Rightarrow> ('r, 'l, 'd) Manager" where
  "stop_unwanted now desired [] m = m"
| "stop_unwanted now desired ((sy, i) # rs) m = stop_unwanted now desired rs
     (if sy \<in> set desired then m
      else m\<lparr>launched := cancel now i (launched m), running := filter (\<lambda>(s, j). s \<noteq> sy) (running m)\<rparr>)"

definition sync :: "('r, 'l, 'd) env \<Rightarrow> ('r, 'l, 'd) Manager \<Rightarrow> ('r, 'l, 'd, ('r, 'l, 'd) Manager) io" where
  "sync E m = do {
     x \<leftarrow> load E;
     case x of
       Inl _ \<Rightarrow> ret m
     | Inr symbols \<Rightarrow> do {
         now \<leftarrow> time_now;
         let m1 = start_missing (remdups symbols) m;
         ret (stop_unwanted now symbols (running m1) m1) } }"

fun start_all :: "string list \<Rightarrow> ('r, 'l, 'd) Manager \<Rightarrow> ('r, 'l, 'd) Manager" where
  "start_all [] m = m"
| "start_all (sy # sys) m = start_all sys (startSymbol sy m)"

text \<open>The loop of \<open>Start\<close>: a sync at every tick, until the context is cancelled.\<close>

partial_function (option) watch :: "('r, 'l, 'd) env \<Rightarrow> ctx \<Rightarrow> ('r, 'l, 'd) Manager \<Rightarrow> ('r, 'l, 'd) world
    \<Rightarrow> (('r, 'l, 'd) Manager \<times> ('r, 'l, 'd) world) option" where
  "watch E ctx m w = (case run_state (wait_or_done ctx cacheTTL) w of
     (stopped, w1) \<Rightarrow> if stopped then Some (m, w1)
       else (case run_state (sync E m) w1 of (m', w2) \<Rightarrow> watch E ctx m' w2))"

definition Start :: "('r, 'l, 'd) env \<Rightarrow> ctx \<Rightarrow> ('r, 'l, 'd) Manager \<Rightarrow> ('r, 'l, 'd) world
    \<Rightarrow> (('r, 'l, 'd) Manager \<times> ('r, 'l, 'd) world) option" where
  "Start E ctx m w = (case run_state (load E) w of
     (x, w1) \<Rightarrow> watch E ctx (start_all (case x of Inl _ \<Rightarrow> [] | Inr symbols \<Rightarrow> symbols) m) w1)"

text \<open>A goroutine of the manager runs the consumer until its own context or the manager's is cancelled.\<close>

definition earlier :: "ctx \<Rightarrow> ctx \<Rightarrow> ctx" where
  "earlier a b = (case a of None \<Rightarrow> b | Some s \<Rightarrow> (case b of None \<Rightarrow> a | Some t \<Rightarrow> Some (min s t)))"

definition run_goroutine :: "('r, 'l, 'd) env \<Rightarrow> ('r, 'l, 'd) Manager \<Rightarrow> ctx \<Rightarrow> goroutine
    \<Rightarrow> ('r, 'l, 'd) world \<Rightarrow> ('r, 'l, 'd) world option" where
  "run_goroutine E m ctx g w = ConsumeOne E (mgr_consumer m) (earlier ctx (g_cancel g)) (g_symbol g) w"

subsection \<open>One goroutine per symbol\<close>

text \<open>
  The invariant: \<open>running\<close> has a symbol at most once, and its entries are exactly the goroutines
  that have not been cancelled.
\<close>

definition consuming :: "nat \<Rightarrow> goroutine list \<Rightarrow> bool" where
  "consuming i gs \<longleftrightarrow> i < length gs \<and> g_cancel (gs ! i) = None"

definition mgr_ok :: "('r, 'l, 'd) Manager \<Rightarrow> bool" where
  "mgr_ok m \<longleftrightarrow> distinct (map fst (running m)) \<and>
     (\<forall>sy i. (sy, i) \<in> set (running m) \<longleftrightarrow> consuming i (launched m) \<and> g_symbol (launched m ! i) = sy)"

definition watched :: "('r, 'l, 'd) Manager \<Rightarrow> string set" where
  "watched m = fst ` set (running m)"

lemma map_of_running: "map_of (running m) sy = None \<longleftrightarrow> sy \<notin> watched m"
  by (auto simp: watched_def map_of_eq_None_iff)

lemma mgr_ok_New [simp]: "mgr_ok (NewManager c)"
  by (simp add: mgr_ok_def NewManager_def consuming_def)

lemma startLocked_ok:
  assumes "mgr_ok m"
  shows "mgr_ok (startLocked sy m)"
  using assms
  by (auto simp: startLocked_def mgr_ok_def consuming_def map_of_eq_None_iff nth_append less_Suc_eq split: if_splits)

lemma startLocked_watched [simp]: "watched (startLocked sy m) = insert sy (watched m)"
  using map_of_running [of m sy] by (auto simp: startLocked_def watched_def)

lemma startLocked_keeps: "i < length (launched m) \<Longrightarrow> launched (startLocked sy m) ! i = launched m ! i
    \<and> i < length (launched (startLocked sy m))"
  by (simp add: startLocked_def nth_append)

lemma start_missing_ok:
  "mgr_ok m \<Longrightarrow> mgr_ok (start_missing sys m) \<and> watched (start_missing sys m) = watched m \<union> set sys
    \<and> (\<forall>i < length (launched m). i < length (launched (start_missing sys m))
         \<and> launched (start_missing sys m) ! i = launched m ! i)"
proof (induction sys arbitrary: m)
  case (Cons sy sys)
  define m1 where "m1 = (if map_of (running m) sy = None then startLocked sy m else m)"
  have "mgr_ok m1" "watched m1 = insert sy (watched m)"
    using Cons.prems startLocked_ok map_of_running [of m sy] by (auto simp: m1_def)
  moreover have "i < length (launched m) \<Longrightarrow> launched m1 ! i = launched m ! i \<and> i < length (launched m1)" for i
    using startLocked_keeps [of i m sy] by (simp add: m1_def)
  ultimately show ?case using Cons.IH [of m1] by (auto simp: m1_def [symmetric])
qed simp

lemma start_all_missing: "start_all sys m = start_missing sys m"
  by (induction sys arbitrary: m) (auto simp: startSymbol_def startLocked_def)

lemma cancel_simps [simp]:
  "length (cancel now i gs) = length gs" "i < length gs \<Longrightarrow> g_symbol (cancel now i gs ! j) = g_symbol (gs ! j)"
  "i < length gs \<Longrightarrow> consuming j (cancel now i gs) \<longleftrightarrow> consuming j gs \<and> j \<noteq> i" "j \<noteq> i \<Longrightarrow> cancel now i gs ! j = gs ! j"
  by (auto simp: cancel_def consuming_def nth_list_update)

lemma running_unique:
  assumes "mgr_ok m" and "(sy, i) \<in> set (running m)" and "(sy, j) \<in> set (running m)"
  shows "i = j"
  using eq_key_imp_eq_value [of "running m" sy i j] assms by (simp add: mgr_ok_def)

lemma stop_one:
  assumes "mgr_ok m" and "(sy, i) \<in> set (running m)"
  shows "mgr_ok (m\<lparr>launched := cancel now i (launched m), running := filter (\<lambda>(s, j). s \<noteq> sy) (running m)\<rparr>)"
proof -
  have i: "i < length (launched m)" "g_symbol (launched m ! i) = sy" and d: "distinct (map fst (running m))"
    using assms by (auto simp: mgr_ok_def consuming_def)
  have u: "j = i" if "(sy, j) \<in> set (running m)" for j
    by (rule running_unique [OF assms(1) that assms(2)])
  show ?thesis
    using assms(1) i u d unfolding mgr_ok_def
    by (auto simp: distinct_map_filter split_def intro!: distinct_map_filter)
qed

lemma stop_unwanted_ok:
  "mgr_ok m \<Longrightarrow> distinct (map fst rs) \<Longrightarrow> set rs \<subseteq> set (running m) \<Longrightarrow>
    mgr_ok (stop_unwanted now des rs m) \<and> watched (stop_unwanted now des rs m) = watched m - (fst ` set rs - set des)
    \<and> mgr_consumer (stop_unwanted now des rs m) = mgr_consumer m
    \<and> length (launched (stop_unwanted now des rs m)) = length (launched m)
    \<and> (\<forall>i < length (launched m). g_symbol (launched m ! i) \<in> set des
         \<longrightarrow> launched (stop_unwanted now des rs m) ! i = launched m ! i)"
proof (induction rs arbitrary: m)
  case (Cons r rs)
  obtain sy i where r: "r = (sy, i)" by (cases r)
  show ?case
  proof (cases "sy \<in> set des")
    case True
    then show ?thesis using Cons.IH [of m] Cons.prems by (auto simp: r)
  next
    case False
    define m1 where "m1 = m\<lparr>launched := cancel now i (launched m), running := filter (\<lambda>(s, j). s \<noteq> sy) (running m)\<rparr>"
    have i: "i < length (launched m)" "g_symbol (launched m ! i) = sy"
      using Cons.prems by (auto simp: r mgr_ok_def consuming_def)
    have "mgr_ok m1" using stop_one Cons.prems unfolding m1_def r by auto
    moreover have "sy \<notin> fst ` set rs" using Cons.prems(2) by (simp add: r)
    then have "set rs \<subseteq> set (running m1)" using Cons.prems(3) by (force simp: m1_def)
    moreover have "watched m1 = watched m - {sy}" by (auto simp: m1_def watched_def)
    moreover have "launched m1 ! j = launched m ! j" if "g_symbol (launched m ! j) \<in> set des" for j
      using that False i by (cases "j = i") (auto simp: m1_def)
    moreover have "g_symbol (launched m1 ! j) = g_symbol (launched m ! j)" "length (launched m1) = length (launched m)"
      "mgr_consumer m1 = mgr_consumer m" for j
      using i by (simp_all add: m1_def)
    ultimately show ?thesis
      using Cons.IH [of m1] Cons.prems(2) False by (auto simp: r m1_def [symmetric])
  qed
qed simp

text \<open>How many goroutines consume the queue of a symbol.\<close>

definition consumers_of :: "string \<Rightarrow> ('r, 'l, 'd) Manager \<Rightarrow> nat" where
  "consumers_of sy m = length (filter (\<lambda>g. g_symbol g = sy \<and> g_cancel g = None) (launched m))"

lemma consumers_ok:
  assumes "mgr_ok m"
  shows "consumers_of sy m = (if sy \<in> watched m then 1 else 0)"
proof -
  let ?I = "{i. i < length (launched m) \<and> g_symbol (launched m ! i) = sy \<and> g_cancel (launched m ! i) = None}"
  have c: "consumers_of sy m = card ?I" by (simp add: consumers_of_def length_filter_conv_card)
  have I: "i \<in> ?I \<longleftrightarrow> (sy, i) \<in> set (running m)" for i
    using assms by (auto simp: mgr_ok_def consuming_def)
  show ?thesis
  proof (cases "sy \<in> watched m")
    case True
    then obtain i where i: "(sy, i) \<in> set (running m)" by (auto simp: watched_def)
    have "?I = {i}"
    proof (rule set_eqI)
      fix j
      show "j \<in> ?I \<longleftrightarrow> j \<in> {i}" unfolding I using running_unique [OF assms i, of j] i by blast
    qed
    then show ?thesis using c True by simp
  next
    case False
    have "?I = {}"
    proof (rule set_eqI)
      fix j
      show "j \<in> ?I \<longleftrightarrow> j \<in> {}" unfolding I using False by (force simp: watched_def)
    qed
    then show ?thesis using c False by simp
  qed
qed

lemma start_missing_symbols:
  "set (con_symbols (mgr_consumer m)) \<subseteq> set (con_symbols (mgr_consumer (start_missing sys m)))"
proof (induction sys arbitrary: m)
  case (Cons sy sys)
  have "set (con_symbols (mgr_consumer m)) \<subseteq> set (con_symbols (mgr_consumer (startLocked sy m)))"
    by (auto simp: startLocked_def Queue.AddSymbol_def)
  with Cons.IH [of m] Cons.IH [of "startLocked sy m"] show ?case by (simp add: subset_trans [of _ "set (con_symbols (mgr_consumer (startLocked sy m)))"])
qed simp

definition synced :: "string list \<Rightarrow> ('r, 'l, 'd) Manager \<Rightarrow> ('r, 'l, 'd) Manager \<Rightarrow> bool" where
  "synced syms m m' \<longleftrightarrow> mgr_ok m' \<and> watched m' = set syms
     \<and> (\<forall>sy. consumers_of sy m' = (if sy \<in> set syms then 1 else 0))
     \<and> (\<forall>i < length (launched m). g_symbol (launched m ! i) \<in> set syms \<longrightarrow> launched m' ! i = launched m ! i)
     \<and> set (con_symbols (mgr_consumer m)) \<subseteq> set (con_symbols (mgr_consumer m'))"

lemma sync_step:
  assumes "mgr_ok m"
  shows "synced syms m (stop_unwanted now syms (running (start_missing (remdups syms) m)) (start_missing (remdups syms) m))"
proof -
  define m1 where "m1 = start_missing (remdups syms) m"
  have m1: "mgr_ok m1" "watched m1 = watched m \<union> set syms"
    "\<And>i. i < length (launched m) \<Longrightarrow> i < length (launched m1) \<and> launched m1 ! i = launched m ! i"
    using start_missing_ok [OF assms, of "remdups syms"] by (auto simp: m1_def)
  have "distinct (map fst (running m1))" using m1(1) by (simp add: mgr_ok_def)
  from stop_unwanted_ok [OF m1(1) this, of now syms]
  have s: "mgr_ok (stop_unwanted now syms (running m1) m1)"
    "watched (stop_unwanted now syms (running m1) m1) = set syms"
    "\<forall>i < length (launched m1). g_symbol (launched m1 ! i) \<in> set syms
       \<longrightarrow> launched (stop_unwanted now syms (running m1) m1) ! i = launched m1 ! i"
    "mgr_consumer (stop_unwanted now syms (running m1) m1) = mgr_consumer m1"
    using m1(2) by (auto simp: watched_def)
  moreover have "set (con_symbols (mgr_consumer m)) \<subseteq> set (con_symbols (mgr_consumer m1))"
    unfolding m1_def by (rule start_missing_symbols)
  ultimately show ?thesis using consumers_ok [OF s(1)] m1(3) unfolding m1_def [symmetric] by (auto simp: synced_def)
qed

lemma sync_result:
  assumes "mgr_ok m" and "run_state (sync E m) w = (m', w')"
  shows "case fst (run_state (load E) w) of Inl e \<Rightarrow> m' = m | Inr syms \<Rightarrow> synced syms m m'"
proof -
  obtain x w1 where x: "run_state (load E) w = (x, w1)" by (metis surj_pair)
  then show ?thesis
    using assms(2) sync_step [OF assms(1)] by (cases x) (auto simp: sync_def Let_def)
qed

text \<open>
  C23: A sync leaves exactly one consuming goroutine for every symbol it has loaded and none for any
  other, does not restart the goroutines of symbols that stay, and never takes a symbol away from
  the consumer's own list; when the list cannot be loaded nothing changes.
\<close>

theorem sync_exact:
  assumes "mgr_ok m" and "run_state (sync E m) w = (m', w')"
  shows "case fst (run_state (load E) w) of Inl e \<Rightarrow> m' = m | Inr syms \<Rightarrow> synced syms m m'"
  using sync_result [OF assms] .

subsection \<open>What is loaded\<close>

definition active_or_default :: "tables \<Rightarrow> string list" where
  "active_or_default t = (let syms = map yr_symbol (sort_key yr_symbol (filter yr_active (watched_symbols t)))
     in if syms = [] then defaultSymbols else syms)"

lemma load_keeps [hoare]: "keeps clock (load E)" "keeps lru (load E)"
  unfolding load_def Let_def by (intro hoare off_pg_proj)+

lemma sync_keeps [hoare]: "keeps clock (sync E m)" "keeps lru (sync E m)"
  unfolding sync_def Let_def by (intro hoare)+

context deployment
begin

lemma load_fresh:
  assumes "reliable_db E" and "live (clock w) (ac (crit w)) symbolCacheKey = None"
  shows "fst (run_state (load E) w) = Inr (active_or_default (ad (pg w)))"
proof -
  obtain x w1 where x: "run_state (Critical E (GET symbolCacheKey)) w = (x, w1)" by (metis surj_pair)
  have "x = Inr r \<Longrightarrow> r = RNil" for r
    using Critical_ok [of "GET symbolCacheKey" w r w1] x assms(2) redis_okD(1) by fastforce
  then have g: "run_state (GetSymbolList E) w = (case x of Inl e \<Rightarrow> Inl e | Inr _ \<Rightarrow> Inr [], w1)"
    using x by (cases x) (auto simp: GetSymbolList_def bytes_or_nil_def)
  have "ad (pg w1) = ad (pg w)" using keepsD [OF Critical_keeps(2) x] by simp
  then obtain w2 where "run_state (ListActiveSymbols E) w1 = (Inr (active_or_default (ad (pg w))), w2)"
    using reliable_DB [OF assms(1), of ActiveSymbols w1]
    by (auto simp: ListActiveSymbols_def active_or_default_def)
  with g show ?thesis by (cases x) (simp_all add: load_def Let_def split: prod.splits)
qed

end

subsection \<open>The loop of the manager\<close>

lemma sync_ok:
  assumes "mgr_ok m" and "run_state (sync E m) w = (m', w')"
  shows "mgr_ok m'"
proof -
  obtain x w1 where x: "run_state (load E) w = (x, w1)" by (metis surj_pair)
  then show ?thesis
    using assms sync_step [OF assms(1)] by (cases x) (auto simp: sync_def Let_def synced_def)
qed

lemma watch_returns:
  "mgr_ok m \<Longrightarrow> \<exists>m' w'. watch E (Some t) m w = Some (m', w') \<and> mgr_ok m'"
proof (induction "nat (t - clock w)" arbitrary: m w rule: less_induct)
  case less
  obtain b w1 where b: "run_state (wait_or_done (Some t) cacheTTL) w = (b, w1)" by (metis surj_pair)
  show ?case
  proof (cases b)
    case True
    then show ?thesis using b less.prems by (simp add: watch.simps [of E "Some t" m w])
  next
    case False
    have c: "clock w1 = clock w + cacheTTL" "clock w1 < t"
      using b False by (auto simp: wait_or_done_def ctx_done_def Let_def cacheTTL_def Minute_def Second_def split: if_splits)
    obtain m' w2 where m': "run_state (sync E m) w1 = (m', w2)" by (metis surj_pair)
    have "clock w2 = clock w1" by (rule keepsD [OF sync_keeps(1) m'])
    then have "nat (t - clock w2) < nat (t - clock w)"
      using c by (simp add: cacheTTL_def Minute_def Second_def)
    from less.hyps [OF this sync_ok [OF less.prems m']] show ?thesis
      using b False m' by (simp add: watch.simps [of E "Some t" m w])
  qed
qed

lemma start_all_ok: "mgr_ok (start_all ss (NewManager c))"
  unfolding start_all_missing using start_missing_ok [OF mgr_ok_New, of ss c] by blast

text \<open>
  The manager stops: started with no symbols and a context that is cancelled at some time, it
  returns, whatever the servers answer or fail to, with one consuming goroutine per symbol still.
\<close>

theorem manager_stops:
  "\<exists>m' w'. Symbols.Start E (Some t) (NewManager c) w = Some (m', w') \<and> mgr_ok m'
    \<and> (\<forall>sy. consumers_of sy m' = (if sy \<in> watched m' then 1 else 0))"
proof -
  obtain x w1 where x: "run_state (load E) w = (x, w1)" by (metis surj_pair)
  have "mgr_ok (start_all ss (NewManager c))" for ss
    by (rule start_all_ok)
  then obtain m' w' where "watch E (Some t) (start_all (case x of Inl _ \<Rightarrow> [] | Inr symbols \<Rightarrow> symbols) (NewManager c)) w1
      = Some (m', w')" "mgr_ok m'"
    using watch_returns by blast
  then show ?thesis using x consumers_ok [of m'] by (simp add: Symbols.Start_def)
qed

subsection \<open>A run\<close>

definition demo_manager :: "(rview, rview, tables) Manager" where
  "demo_manager = start_all [''EURUSD''] (NewManager (NewConsumer demo_worker))"

lemma demo_manager_ok [simp]: "mgr_ok demo_manager"
  unfolding demo_manager_def by (rule start_all_ok)

definition symbol_tables :: "symbol_row list \<Rightarrow> tables" where
  "symbol_tables ys = empty_tables\<lparr>watched_symbols := ys\<rparr>"

theorem sync_exact_witness:
  "\<exists>m' w'. run_state (sync calm_env demo_manager)
      (calm_world (symbol_tables [\<lparr>yr_id = 1, yr_symbol = ''XAUUSD'', yr_active = True, yr_created = 0\<rparr>]) demo_time) = (m', w')
    \<and> consumers_of ''XAUUSD'' m' = 1 \<and> consumers_of ''EURUSD'' m' = 0"
proof -
  let ?w = "calm_world (symbol_tables [\<lparr>yr_id = 1, yr_symbol = ''XAUUSD'', yr_active = True, yr_created = 0\<rparr>]) demo_time"
  obtain m' w' where r: "run_state (sync calm_env demo_manager) ?w = (m', w')" by (metis surj_pair)
  have "fst (run_state (load calm_env) ?w) = Inr [''XAUUSD'']"
    using calm.load_fresh [OF reliable_calm, of ?w] by (simp add: active_or_default_def symbol_tables_def)
  with sync_exact [OF demo_manager_ok r] show ?thesis using r by (auto simp: synced_def)
qed

end
