(* ===== verification/Admin.thy ===== *)
theory Admin
  imports Symbols
begin

text \<open>
  \<open>internal/admin/admin.go\<close>: the handlers of the administration API, each with every check in the
  order of the code, its calls of the store and of the cache, and the document it answers with
  (the members of a Go map are marshalled in order of their names). What they touch, how a change
  of the symbols reaches the worker, and that an issued key opens the API.
\<close>

subsection \<open>Requests and responses\<close>

text \<open>A value that cannot be marshalled leaves the body empty.\<close>

definition writeJSON :: "nat \<Rightarrow> json option \<Rightarrow> response" where
  "writeJSON code v = \<lparr>status = code, headers = json_type, rbody = (case v of Some d \<Rightarrow> Doc d | None \<Rightarrow> NoBody)\<rparr>"

definition writeError :: "goerr \<Rightarrow> nat \<Rightarrow> response" where
  "writeError err code = \<lparr>status = code, headers = json_type, rbody = ErrorText err\<rparr>"

text \<open>A panic ends the handler; the server closes the connection.\<close>

definition aborted :: response where
  "aborted = \<lparr>status = 0, headers = [], rbody = Aborted\<rparr>"

definition Decode :: "'a decoder \<Rightarrow> 'a \<Rightarrow> request \<Rightarrow> 'a option" where
  "Decode d z r = (case rq_body r of None \<Rightarrow> None | Some v \<Rightarrow> d z v)"

text \<open>
  \<open>Decode\<close> with its error ignored: a member of the wrong type leaves the field, the others are
  still assigned.
\<close>

fun assign_lenient :: "'a decoder \<Rightarrow> 'a \<Rightarrow> json list \<Rightarrow> 'a" where
  "assign_lenient d old [] = old"
| "assign_lenient d old (v # vs) = assign_lenient d (case d old v of None \<Rightarrow> old | Some x \<Rightarrow> x) vs"

definition Decode_string :: "string \<Rightarrow> request \<Rightarrow> string" where
  "Decode_string name r = (case rq_body r of Some (JObj obj) \<Rightarrow> assign_lenient dec_string [] (members name obj) | _ \<Rightarrow> [])"

text \<open>The value that \<open>strconv.Atoi\<close> returns beside its error: the nearest bound, or 0.\<close>

definition Atoi_value :: "string \<Rightarrow> int" where
  "Atoi_value s = (let neg = HasPrefix s ''-''; t = (if neg \<or> HasPrefix s ''+'' then tl s else s) in
     if t = [] \<or> \<not> list_all is_digit t then 0 else sat64 (if neg then - digits_val t else digits_val t))"

subsection \<open>Documents\<close>

text \<open>A nil slice is marshalled as \<open>null\<close>; the lists here are nil when they are empty.\<close>

definition enc_slice :: "('a \<Rightarrow> json option) \<Rightarrow> 'a list \<Rightarrow> json option" where
  "enc_slice f xs = (if xs = [] then Some JNull else map_option JArr (those (map f xs)))"

definition enc_ptr :: "('a \<Rightarrow> json) \<Rightarrow> 'a option \<Rightarrow> json" where
  "enc_ptr f x = (case x of None \<Rightarrow> JNull | Some y \<Rightarrow> f y)"

text \<open>Times of the database and of the clock are in UTC.\<close>

definition enc_time :: "int \<Rightarrow> json option" where
  "enc_time t = json_time \<lparr>inst = t, zone = 0\<rparr>"

definition enc_strings :: "string list \<Rightarrow> json" where
  "enc_strings ss = (if ss = [] then JNull else JArr (map JStr ss))"

definition omitempty_time :: "string \<Rightarrow> int option \<Rightarrow> (string \<times> json) list option" where
  "omitempty_time name t = (case t of None \<Rightarrow> Some [] | Some x \<Rightarrow> map_option (\<lambda>d. [(name, d)]) (enc_time x))"

definition enc_key_view :: "('r, 'l, 'd) env \<Rightarrow> APIKey \<Rightarrow> json option" where
  "enc_key_view E k = do {
     rot \<leftarrow> omitempty_time ''rotate_at'' (RotateAt k);
     cr \<leftarrow> enc_time (CreatedAt k);
     lu \<leftarrow> omitempty_time ''last_used_at'' (LastUsedAt k);
     Some (JObj ([(''id'', JStr (uuid_str E (ID k))), (''owner'', JStr (Owner k)), (''scopes'', enc_strings (Scopes k)),
       (''status'', JStr (Status k)), (''note'', JStr (Note k)), (''max_machines'', enc_ptr JInt (MaxMachines k))]
       @ rot @ [(''created_at'', cr)] @ lu)) }"

definition enc_machine :: "('r, 'l, 'd) env \<Rightarrow> KeyMachine \<Rightarrow> json option" where
  "enc_machine E m = do {
     rg \<leftarrow> enc_time (mr_registered m);
     ls \<leftarrow> enc_time (mr_seen m);
     Some (JObj [(''ID'', JStr (uuid_str E (mr_id m))), (''KeyID'', JStr (uuid_str E (mr_key m))),
       (''AccountNumber'', JStr (mr_account m)), (''RegisteredAt'', rg), (''LastSeenAt'', ls)]) }"

definition enc_subscriber :: "('r, 'l, 'd) env \<Rightarrow> Subscriber \<Rightarrow> json option" where
  "enc_subscriber E s = do {
     cr \<leftarrow> enc_time (sub_CreatedAt s);
     Some (JObj [(''ID'', JStr (uuid_str E (sub_ID s))), (''KeyID'', JStr (uuid_str E (sub_KeyID s))),
       (''Channel'', JStr (Channel s)), (''Config'', enc_config (Config s)), (''Active'', JBool (Active s)),
       (''CreatedAt'', cr)]) }"

definition enc_symbol :: "('r, 'l, 'd) env \<Rightarrow> WatchedSymbol \<Rightarrow> json option" where
  "enc_symbol E y = do {
     cr \<leftarrow> enc_time (yr_created y);
     Some (JObj [(''ID'', JStr (uuid_str E (yr_id y))), (''Symbol'', JStr (yr_symbol y)),
       (''Active'', JBool (yr_active y)), (''CreatedAt'', cr)]) }"

definition enc_signal :: "('r, 'l, 'd) env \<Rightarrow> signal_row \<Rightarrow> json option" where
  "enc_signal E s = do {
     rc \<leftarrow> enc_time (sr_received s);
     Some (JObj [(''ID'', JStr (uuid_str E (sr_id s))), (''TicketID'', JInt (sr_ticket s)),
       (''SignalType'', JStr (sr_type s)), (''Symbol'', JStr (sr_symbol s)), (''Direction'', JStr (sr_direction s)),
       (''Price'', json_float (sr_price s)), (''SL'', enc_ptr json_float (sr_sl s)), (''TP'', enc_ptr json_float (sr_tp s)),
       (''Lot'', json_float (sr_lot s)), (''SourceKeyID'', enc_ptr (\<lambda>u. JStr (uuid_str E u)) (sr_source s)),
       (''ReceivedAt'', rc)]) }"

subsection \<open>Tokens\<close>

definition login_fields :: "string \<times> string \<Rightarrow> (string \<times> json) list \<Rightarrow> (string \<times> string) option" where
  "login_fields q obj = do {
     u \<leftarrow> field ''username'' dec_string (fst q) obj;
     p \<leftarrow> field ''password'' dec_string (snd q) obj;
     Some (u, p) }"

definition Login :: "('r, 'l, 'd) env \<Rightarrow> AuthConfig \<Rightarrow> request \<Rightarrow> ('r, 'l, 'd, response) io" where
  "Login E cfg r = (case Decode (dec_struct login_fields) ([], []) r of
     None \<Rightarrow> ret (writeError (EMsg ''invalid payload'') 400)
   | Some (username, password) \<Rightarrow> do {
       x \<leftarrow> AdminLogin E cfg username password;
       ret (case x of
         Inl _ \<Rightarrow> writeError (EMsg ''invalid credentials'') 401
       | Inr (access, refresh) \<Rightarrow> writeJSON 200 (Some (JObj [(''access_token'', JStr access),
           (''refresh_token'', JStr refresh), (''token_type'', JStr ''Bearer'')]))) })"

definition Refresh :: "('r, 'l, 'd) env \<Rightarrow> AuthConfig \<Rightarrow> request \<Rightarrow> ('r, 'l, 'd, response) io" where
  "Refresh E cfg r = (case Decode (dec_struct (field ''refresh_token'' dec_string)) [] r of
     None \<Rightarrow> ret (writeError (EMsg ''invalid payload'') 400)
   | Some token \<Rightarrow> do {
       x \<leftarrow> RefreshAdminToken E cfg token;
       ret (case x of
         Inl e \<Rightarrow> if e = EPanic then aborted else writeError (EMsg ''invalid or expired refresh token'') 401
       | Inr access \<Rightarrow> writeJSON 200 (Some (JObj [(''access_token'', JStr access), (''token_type'', JStr ''Bearer'')]))) })"

definition Logout :: "('r, 'l, 'd) env \<Rightarrow> AuthConfig \<Rightarrow> request \<Rightarrow> ('r, 'l, 'd, response) io" where
  "Logout E cfg r = (let token = Decode_string ''refresh_token'' r in do {
     x \<leftarrow> (if token \<noteq> [] then RevokeAdminToken E cfg token else ret (Inr ()));
     ret (if x = Inl EPanic then aborted else writeJSON 200 (Some (JObj [(''status'', JStr ''logged out'')]))) })"

subsection \<open>API keys\<close>

record issue_request =
  iq_owner :: string
  iq_scopes :: "string list"
  iq_note :: string
  iq_max :: "int option"

definition issue_fields :: "issue_request \<Rightarrow> (string \<times> json) list \<Rightarrow> issue_request option" where
  "issue_fields q obj = do {
     ow \<leftarrow> field ''owner'' dec_string (iq_owner q) obj;
     sc \<leftarrow> field ''scopes'' (dec_slice [] dec_string) (iq_scopes q) obj;
     nt \<leftarrow> field ''note'' dec_string (iq_note q) obj;
     mx \<leftarrow> field ''max_machines'' (dec_ptr 0 dec_int) (iq_max q) obj;
     Some \<lparr>iq_owner = ow, iq_scopes = sc, iq_note = nt, iq_max = mx\<rparr> }"

definition issue_warning :: string where
  "issue_warning = ''store this key securely '' @ utf8 [0xE2, 0x80, 0x94] @ '' it will not be shown again''"

definition issued :: "('r, 'l, 'd) env \<Rightarrow> APIKey \<Rightarrow> string \<Rightarrow> json option" where
  "issued E key plaintext = do {
     cr \<leftarrow> enc_time (CreatedAt key);
     Some (JObj [(''api_key'', JStr plaintext), (''created_at'', cr), (''key_id'', JStr (uuid_str E (ID key))),
       (''max_machines'', enc_ptr JInt (MaxMachines key)), (''note'', JStr (Note key)), (''owner'', JStr (Owner key)),
       (''scopes'', enc_strings (Scopes key)), (''warning'', JStr issue_warning)]) }"

text \<open>A store call that returns neither a key nor an error makes the handler dereference nil.\<close>

definition IssueKey :: "('r, 'l, 'd) env \<Rightarrow> request \<Rightarrow> ('r, 'l, 'd, response) io" where
  "IssueKey E r = (case Decode (dec_struct issue_fields) \<lparr>iq_owner = [], iq_scopes = [], iq_note = [], iq_max = None\<rparr> r of
     None \<Rightarrow> ret (writeError (EMsg ''owner required'') 400)
   | Some req \<Rightarrow>
       if iq_owner req = [] then ret (writeError (EMsg ''owner required'') 400)
       else (let scopes = (if iq_scopes req = [] then [ScopeCopyReceive] else iq_scopes req) in
         if (case iq_max req of None \<Rightarrow> False | Some n \<Rightarrow> n < 1)
         then ret (writeError (EMsg ''max_machines must be >= 1 or null for unlimited'') 400)
         else do {
           g \<leftarrow> GenerateKey E;
           case g of
             Inl _ \<Rightarrow> ret (writeError (EMsg ''key generation failed'') 500)
           | Inr (plaintext, hash) \<Rightarrow> do {
               k \<leftarrow> CreateAPIKey E hash (iq_owner req) (iq_note req) scopes (iq_max req);
               ret (case k of
                 Inl _ \<Rightarrow> writeError (EMsg ''store error'') 500
               | Inr None \<Rightarrow> aborted
               | Inr (Some key) \<Rightarrow> writeJSON 201 (issued E key plaintext)) } }))"

definition ListKeys :: "('r, 'l, 'd) env \<Rightarrow> ('r, 'l, 'd, response) io" where
  "ListKeys E = do {
     x \<leftarrow> ListAPIKeys E;
     ret (case x of
       Inl _ \<Rightarrow> writeError (EMsg ''store error'') 500
     | Inr keys \<Rightarrow> writeJSON 200 (enc_slice (enc_key_view E) keys)) }"

definition SetKeyStatus :: "('r, 'l, 'd) env \<Rightarrow> request \<Rightarrow> ('r, 'l, 'd, response) io" where
  "SetKeyStatus E r = (case uuid_prs E (rq_value r ''id'') of
     None \<Rightarrow> ret (writeError (EMsg ''invalid key id'') 400)
   | Some i \<Rightarrow>
       (case Decode (dec_struct (field ''status'' dec_string)) [] r of
          None \<Rightarrow> ret (writeError (EMsg ''invalid payload'') 400)
        | Some st \<Rightarrow>
            if st \<notin> set [APIKeyActive, APIKeyRevoked, APIKeySuspended]
            then ret (writeError (EMsg ''status must be active|revoked|suspended'') 400)
            else do {
              k \<leftarrow> GetAPIKeyByID E i;
              case k of
                Inr (Some key) \<Rightarrow> do {
                  x \<leftarrow> SetAPIKeyStatus E i st;
                  case x of
                    Inl _ \<Rightarrow> ret (writeError (EMsg ''store error'') 500)
                  | Inr _ \<Rightarrow> do {
                      _ \<leftarrow> DeleteAPIKeyCache E (KeyHash key);
                      ret (writeJSON 200 (Some (JObj [(''key_id'', JStr (uuid_str E i)), (''status'', JStr st)]))) } }
              | _ \<Rightarrow> ret (writeError (EMsg ''key not found'') 404) }))"

definition SetKeyMaxMachines :: "('r, 'l, 'd) env \<Rightarrow> request \<Rightarrow> ('r, 'l, 'd, response) io" where
  "SetKeyMaxMachines E r = (case uuid_prs E (rq_value r ''id'') of
     None \<Rightarrow> ret (writeError (EMsg ''invalid key id'') 400)
   | Some i \<Rightarrow>
       (case Decode (dec_struct (field ''max_machines'' (dec_ptr 0 dec_int))) None r of
          None \<Rightarrow> ret (writeError (EMsg ''invalid payload'') 400)
        | Some mx \<Rightarrow>
            if (case mx of None \<Rightarrow> False | Some n \<Rightarrow> n < 1)
            then ret (writeError (EMsg ''max_machines must be >= 1 or null for unlimited'') 400)
            else do {
              k \<leftarrow> GetAPIKeyByID E i;
              case k of
                Inr (Some key) \<Rightarrow> do {
                  x \<leftarrow> SetAPIKeyMaxMachines E i mx;
                  case x of
                    Inl _ \<Rightarrow> ret (writeError (EMsg ''store error'') 500)
                  | Inr _ \<Rightarrow> do {
                      _ \<leftarrow> DeleteAPIKeyCache E (KeyHash key);
                      ret (writeJSON 200 (Some (JObj [(''key_id'', JStr (uuid_str E i)), (''max_machines'', enc_ptr JInt mx)]))) } }
              | _ \<Rightarrow> ret (writeError (EMsg ''key not found'') 404) }))"

definition RotateKey :: "('r, 'l, 'd) env \<Rightarrow> request \<Rightarrow> ('r, 'l, 'd, response) io" where
  "RotateKey E r = (case uuid_prs E (rq_value r ''id'') of
     None \<Rightarrow> ret (writeError (EMsg ''invalid key id'') 400)
   | Some i \<Rightarrow> (let given = Decode_string ''rotate_after'' r in
       (case ParseDuration (if given = [] then ''24h'' else given) of
          None \<Rightarrow> ret (writeError (EMsg ''invalid rotate_after'') 400)
        | Some dur \<Rightarrow> do {
            k \<leftarrow> GetAPIKeyByID E i;
            case k of
              Inr (Some old) \<Rightarrow> do {
                g \<leftarrow> GenerateKey E;
                case g of
                  Inl _ \<Rightarrow> ret (writeError (EMsg ''key generation failed'') 500)
                | Inr (plaintext, hash) \<Rightarrow> do {
                    now \<leftarrow> time_now;
                    let rotateAt = now + dur;
                    x \<leftarrow> RotateAPIKey E i hash (Owner old) (Note old) (Scopes old) (MaxMachines old) rotateAt;
                    ret (case x of
                      Inl _ \<Rightarrow> writeError (EMsg ''store error'') 500
                    | Inr None \<Rightarrow> aborted
                    | Inr (Some newKey) \<Rightarrow> writeJSON 201 (map_option (\<lambda>ra. JObj [(''api_key'', JStr plaintext),
                        (''message'', JStr ''old key remains valid until rotate_at''),
                        (''new_key_id'', JStr (uuid_str E (ID newKey))), (''rotate_at'', ra)]) (enc_time rotateAt))) } }
            | _ \<Rightarrow> ret (writeError (EMsg ''key not found'') 404) })))"

subsection \<open>Machines\<close>

definition ListAllMachines :: "('r, 'l, 'd) env \<Rightarrow> ('r, 'l, 'd, response) io" where
  "ListAllMachines E = do {
     x \<leftarrow> Store.ListMachines E None;
     ret (case x of
       Inl _ \<Rightarrow> writeError (EMsg ''store error'') 500
     | Inr ms \<Rightarrow> writeJSON 200 (enc_slice (enc_machine E) ms)) }"

definition ListKeyMachines :: "('r, 'l, 'd) env \<Rightarrow> request \<Rightarrow> ('r, 'l, 'd, response) io" where
  "ListKeyMachines E r = (case uuid_prs E (rq_value r ''id'') of
     None \<Rightarrow> ret (writeError (EMsg ''invalid key id'') 400)
   | Some i \<Rightarrow> do {
       x \<leftarrow> Store.ListMachines E (Some i);
       case x of
         Inl _ \<Rightarrow> ret (writeError (EMsg ''store error'') 500)
       | Inr ms \<Rightarrow> do {
           c \<leftarrow> CountMachines E i;
           k \<leftarrow> GetAPIKeyByID E i;
           ret (writeJSON 200 (map_option (\<lambda>d. JObj [(''count'', JInt (case c of Inl _ \<Rightarrow> 0 | Inr n \<Rightarrow> n)), (''machines'', d),
               (''max_machines'', (case k of Inr (Some key) \<Rightarrow> enc_ptr JInt (MaxMachines key) | _ \<Rightarrow> JNull))])
             (enc_slice (enc_machine E) ms))) } })"

definition RemoveMachine :: "('r, 'l, 'd) env \<Rightarrow> request \<Rightarrow> ('r, 'l, 'd, response) io" where
  "RemoveMachine E r = (case uuid_prs E (rq_value r ''id'') of
     None \<Rightarrow> ret (writeError (EMsg ''invalid key id'') 400)
   | Some i \<Rightarrow> (let account = rq_value r ''account'' in
       if account = [] then ret (writeError (EMsg ''account number required'') 400)
       else do {
         x \<leftarrow> Store.RemoveMachine E i account;
         ret (case x of
           Inl e \<Rightarrow> writeError e 404
         | Inr _ \<Rightarrow> writeJSON 200 (Some (JObj [(''account'', JStr account), (''status'', JStr ''removed'')]))) }))"

definition ListMachines :: "('r, 'l, 'd) env \<Rightarrow> request \<Rightarrow> ('r, 'l, 'd, response) io" where
  "ListMachines E r = ListKeyMachines E r"

text \<open>No route leads here. The loop of \<open>InvalidateMachineCache\<close> may not end, so neither may this.\<close>

definition SetMaxMachines :: "('r, 'l, 'd) env \<Rightarrow> request \<Rightarrow> ('r, 'l, 'd) world
    \<Rightarrow> (response \<times> ('r, 'l, 'd) world) option" where
  "SetMaxMachines E r w = (case uuid_prs E (rq_value r ''id'') of
     None \<Rightarrow> Some (writeError (EMsg ''invalid key id'') 400, w)
   | Some i \<Rightarrow>
       (case Decode (dec_struct (field ''max_machines'' (dec_ptr 0 dec_int))) None r of
          None \<Rightarrow> Some (writeError (EMsg ''invalid payload'') 400, w)
        | Some mx \<Rightarrow>
            if (case mx of None \<Rightarrow> False | Some n \<Rightarrow> n < 0)
            then Some (writeError (EMsg ''max_machines must be >= 0 or null (unlimited)'') 400, w)
            else (case run_state (SetAPIKeyMaxMachines E i mx) w of
              (Inl _, w1) \<Rightarrow> Some (writeError (EMsg ''store error'') 500, w1)
            | (Inr _, w1) \<Rightarrow> (case InvalidateMachineCache E (uuid_str E i) w1 of
                None \<Rightarrow> None
              | Some (_, w2) \<Rightarrow> Some (writeJSON 200 (Some (JObj [(''key_id'', JStr (uuid_str E i)),
                  (''max_machines'', enc_ptr JInt mx)])), w2)))))"

subsection \<open>Subscribers\<close>

record sub_request =
  sq_key :: string
  sq_channel :: string
  sq_config :: config_map

definition sub_fields :: "sub_request \<Rightarrow> (string \<times> json) list \<Rightarrow> sub_request option" where
  "sub_fields q obj = do {
     k \<leftarrow> field ''key_id'' dec_string (sq_key q) obj;
     ch \<leftarrow> field ''channel'' dec_string (sq_channel q) obj;
     c \<leftarrow> field ''config'' dec_config (sq_config q) obj;
     Some \<lparr>sq_key = k, sq_channel = ch, sq_config = c\<rparr> }"

definition CreateSubscriber :: "('r, 'l, 'd) env \<Rightarrow> request \<Rightarrow> ('r, 'l, 'd, response) io" where
  "CreateSubscriber E r = (case Decode (dec_struct sub_fields) \<lparr>sq_key = [], sq_channel = [], sq_config = None\<rparr> r of
     None \<Rightarrow> ret (writeError (EMsg ''invalid payload'') 400)
   | Some req \<Rightarrow>
       (case uuid_prs E (sq_key req) of
          None \<Rightarrow> ret (writeError (EMsg ''invalid key_id'') 400)
        | Some keyID \<Rightarrow> do {
            x \<leftarrow> Store.CreateSubscriber E keyID (sq_channel req) (sq_config req);
            ret (case x of
              Inl _ \<Rightarrow> writeError (EMsg ''store error'') 500
            | Inr s \<Rightarrow> writeJSON 201 (case s of None \<Rightarrow> Some JNull | Some sb \<Rightarrow> enc_subscriber E sb)) }))"

definition ListSubscribers :: "('r, 'l, 'd) env \<Rightarrow> ('r, 'l, 'd, response) io" where
  "ListSubscribers E = do {
     x \<leftarrow> ListAllSubscribers E;
     ret (case x of
       Inl _ \<Rightarrow> writeError (EMsg ''store error'') 500
     | Inr subs \<Rightarrow> writeJSON 200 (enc_slice (enc_subscriber E) subs)) }"

definition SetSubscriberActive :: "('r, 'l, 'd) env \<Rightarrow> request \<Rightarrow> ('r, 'l, 'd, response) io" where
  "SetSubscriberActive E r = (case uuid_prs E (rq_value r ''id'') of
     None \<Rightarrow> ret (writeError (EMsg ''invalid id'') 400)
   | Some i \<Rightarrow>
       (case Decode (dec_struct (field ''active'' dec_bool)) False r of
          None \<Rightarrow> ret (writeError (EMsg ''invalid payload'') 400)
        | Some b \<Rightarrow> do {
            x \<leftarrow> Store.SetSubscriberActive E i b;
            ret (case x of
              Inl _ \<Rightarrow> writeError (EMsg ''store error'') 500
            | Inr _ \<Rightarrow> writeJSON 200 (Some (JObj [(''active'', JBool b), (''id'', JStr (uuid_str E i))]))) }))"

subsection \<open>Symbols\<close>

definition ListSymbols :: "('r, 'l, 'd) env \<Rightarrow> ('r, 'l, 'd, response) io" where
  "ListSymbols E = do {
     x \<leftarrow> ListAllSymbols E;
     ret (case x of
       Inl _ \<Rightarrow> writeError (EMsg ''store error'') 500
     | Inr ys \<Rightarrow> writeJSON 200 (enc_slice (enc_symbol E) ys)) }"

definition AddSymbol :: "('r, 'l, 'd) env \<Rightarrow> request \<Rightarrow> ('r, 'l, 'd, response) io" where
  "AddSymbol E r = (case Decode (dec_struct (field ''symbol'' dec_string)) [] r of
     None \<Rightarrow> ret (writeError (EMsg ''invalid payload'') 400)
   | Some s \<Rightarrow> (let symbol = ToUpper (TrimSpace s) in
       if symbol = [] then ret (writeError (EMsg ''symbol required'') 400)
       else do {
         x \<leftarrow> Store.AddSymbol E symbol;
         case x of
           Inl _ \<Rightarrow> ret (writeError (EMsg ''store error'') 500)
         | Inr _ \<Rightarrow> do {
             _ \<leftarrow> InvalidateSymbolList E;
             ret (writeJSON 201 (Some (JObj [(''status'', JStr ''added''), (''symbol'', JStr symbol)]))) } }))"

definition SetSymbolActive :: "('r, 'l, 'd) env \<Rightarrow> request \<Rightarrow> ('r, 'l, 'd, response) io" where
  "SetSymbolActive E r = (let symbol = ToUpper (rq_value r ''symbol'') in
     if symbol = [] then ret (writeError (EMsg ''symbol required'') 400)
     else (case Decode (dec_struct (field ''active'' dec_bool)) False r of
       None \<Rightarrow> ret (writeError (EMsg ''invalid payload'') 400)
     | Some b \<Rightarrow> do {
         x \<leftarrow> Store.SetSymbolActive E symbol b;
         case x of
           Inl e \<Rightarrow> ret (writeError e 404)
         | Inr _ \<Rightarrow> do {
             _ \<leftarrow> InvalidateSymbolList E;
             ret (writeJSON 200 (Some (JObj [(''active'', JBool b), (''symbol'', JStr symbol)]))) } }))"

definition DeleteSymbol :: "('r, 'l, 'd) env \<Rightarrow> request \<Rightarrow> ('r, 'l, 'd, response) io" where
  "DeleteSymbol E r = (let symbol = ToUpper (rq_value r ''symbol'') in
     if symbol = [] then ret (writeError (EMsg ''symbol required'') 400)
     else do {
       x \<leftarrow> Store.DeleteSymbol E symbol;
       case x of
         Inl e \<Rightarrow> ret (writeError e 404)
       | Inr _ \<Rightarrow> do {
           _ \<leftarrow> InvalidateSymbolList E;
           ret (writeJSON 200 (Some (JObj [(''status'', JStr ''deleted''), (''symbol'', JStr symbol)]))) } })"

subsection \<open>Metrics and signals\<close>

definition GetMetrics :: "('r, 'l, 'd) env \<Rightarrow> ('r, 'l, 'd, response) io" where
  "GetMetrics E = do {
     x \<leftarrow> Store.GetMetrics E;
     case x of
       Inl _ \<Rightarrow> ret (writeError (EMsg ''store error'') 500)
     | Inr m \<Rightarrow> do {
         d \<leftarrow> DeadLetterDepth E;
         ret (writeJSON 200 (Some (JObj [(''active_api_keys'', JInt (ActiveAPIKeys m)),
           (''active_subscribers'', JInt (ActiveSubscribers m)), (''dead_count'', JInt (DeadCount m)),
           (''dead_letter_queue'', JInt (case d of Inl _ \<Rightarrow> 0 | Inr n \<Rightarrow> n)),
           (''delivered_count'', JInt (DeliveredCount m)), (''failed_count'', JInt (FailedCount m)),
           (''total_api_keys'', JInt (TotalAPIKeys m)), (''total_signals'', JInt (TotalSignals m))]))) } }"

definition page_limit :: "string \<Rightarrow> int" where
  "page_limit q = (let l = Atoi_value q in if l \<le> 0 \<or> l > 200 then 50 else l)"

definition ListSignals :: "('r, 'l, 'd) env \<Rightarrow> request \<Rightarrow> ('r, 'l, 'd, response) io" where
  "ListSignals E r = do {
     x \<leftarrow> Store.ListSignals E (page_limit (rq_query r ''limit'')) (Atoi_value (rq_query r ''offset''));
     ret (case x of
       Inl _ \<Rightarrow> writeError (EMsg ''store error'') 500
     | Inr ss \<Rightarrow> writeJSON 200 (enc_slice (enc_signal E) ss)) }"

subsection \<open>What the handlers touch\<close>

lemma GenerateKey_keeps [hoare]:
  "keeps crit (GenerateKey E)" "keeps lru (GenerateKey E)" "keeps pg (GenerateKey E)" "keeps clock (GenerateKey E)"
  unfolding GenerateKey_def by (intro hoare)+

lemmas key_admin_defs = IssueKey_def ListKeys_def SetKeyStatus_def SetKeyMaxMachines_def RotateKey_def ListAllMachines_def
  ListKeyMachines_def Admin.RemoveMachine_def

lemmas other_admin_defs = Admin.CreateSubscriber_def ListSubscribers_def Admin.SetSubscriberActive_def
  ListSymbols_def Admin.AddSymbol_def Admin.SetSymbolActive_def Admin.DeleteSymbol_def Admin.GetMetrics_def
  Admin.ListSignals_def

lemma key_admin_keep_lru [hoare]:
  "keeps lru (IssueKey E r)" "keeps lru (ListKeys E)" "keeps lru (RotateKey E r)" "keeps lru (ListAllMachines E)"
  "keeps lru (ListKeyMachines E r)" "keeps lru (Admin.RemoveMachine E r)"
  unfolding key_admin_defs Let_def by (intro hoare off_pg_proj)+

lemma other_admin_keep_lru [hoare]:
  "keeps lru (Admin.CreateSubscriber E r)" "keeps lru (ListSubscribers E)" "keeps lru (Admin.SetSubscriberActive E r)"
  "keeps lru (ListSymbols E)" "keeps lru (Admin.AddSymbol E r)" "keeps lru (Admin.SetSymbolActive E r)"
  "keeps lru (Admin.DeleteSymbol E r)" "keeps lru (Admin.GetMetrics E)" "keeps lru (Admin.ListSignals E r)"
  unfolding other_admin_defs Let_def by (intro hoare off_pg_proj)+

subsection \<open>A change of the symbols\<close>

definition actives :: "tables \<Rightarrow> string set" where
  "actives t = yr_symbol ` {r \<in> set (watched_symbols t). yr_active r}"

lemma set_active_or_default:
  "set (active_or_default t) = (if actives t = {} then set defaultSymbols else actives t)"
proof -
  have "actives t = yr_symbol ` set (sort_key yr_symbol (filter yr_active (watched_symbols t)))"
    by (simp add: actives_def)
  moreover from this have "actives t = {} \<longleftrightarrow> sort_key yr_symbol (filter yr_active (watched_symbols t)) = []"
    by (metis image_is_empty set_empty)
  ultimately show ?thesis by (simp add: active_or_default_def Let_def del: set_sort)
qed

lemma actives_upd:
  "actives (t\<lparr>watched_symbols := upd (\<lambda>r. yr_symbol r = s) (\<lambda>r. r\<lparr>yr_active := b\<rparr>) (watched_symbols t)\<rparr>)
     = (if b \<and> s \<in> yr_symbol ` set (watched_symbols t) then insert s (actives t) else actives t - {s})"
  (is "actives ?t = ?A")
proof (rule set_eqI)
  fix x
  define f where "f q = (if yr_symbol q = s then q\<lparr>yr_active := b\<rparr> else q)" for q :: symbol_row
  have f: "yr_symbol (f q) = yr_symbol q" "yr_active (f q) \<longleftrightarrow> (if yr_symbol q = s then b else yr_active q)" for q
    by (simp_all add: f_def)
  have "watched_symbols ?t = map f (watched_symbols t)" by (simp add: upd_def f_def)
  then have "x \<in> actives ?t \<longleftrightarrow> (\<exists>q \<in> set (watched_symbols t). yr_symbol (f q) = x \<and> yr_active (f q))"
    unfolding actives_def by fastforce
  also have "\<dots> \<longleftrightarrow> (\<exists>q \<in> set (watched_symbols t). yr_symbol q = x \<and> (if x = s then b else yr_active q))"
    unfolding f by metis
  also have "\<dots> \<longleftrightarrow> x \<in> ?A" unfolding actives_def by (cases "x = s") auto
  finally show "x \<in> actives ?t \<longleftrightarrow> x \<in> ?A" .
qed

lemma upper_trim [simp]: "ToUpper (TrimSpace (ToUpper (TrimSpace s))) = ToUpper (TrimSpace s)"
  by (simp add: TrimSpace_ToUpper)

lemma actives_upsert:
  assumes "sql_step D now (UpsertSymbol i s) t = (PDone n, t')"
  shows "actives t' = insert s (actives t)"
proof (cases "s \<in> yr_symbol ` set (watched_symbols t)")
  case True
  then have t': "t' = t\<lparr>watched_symbols := upd (\<lambda>r. yr_symbol r = s) (\<lambda>r. r\<lparr>yr_active := True\<rparr>) (watched_symbols t)\<rparr>"
    using assms by auto
  show ?thesis unfolding t' actives_upd using True by simp
next
  case False
  then show ?thesis using assms by (force simp: actives_def unique_violation_def split: if_splits)
qed

lemma actives_update:
  assumes "sql_step D now (UpdateSymbolActive b s) t = (PDone n, t')" and "n \<noteq> 0"
  shows "actives t' = (if b then insert s (actives t) else actives t - {s})"
proof -
  from assms have "\<exists>r \<in> set (watched_symbols t). yr_symbol r = s"
    by (auto simp: hits_def filter_empty_conv)
  moreover have t': "t' = t\<lparr>watched_symbols := upd (\<lambda>r. yr_symbol r = s) (\<lambda>r. r\<lparr>yr_active := b\<rparr>) (watched_symbols t)\<rparr>"
    using assms by auto
  ultimately show ?thesis unfolding t' actives_upd by auto
qed

lemma actives_delete:
  "sql_step D now (DeleteSymbolRow s) t = (x, t') \<Longrightarrow> actives t' = actives t - {s}"
  by (auto simp: actives_def)

context deployment
begin

lemma symbols_invalidated:
  assumes "reliable_crit E" and "run_state (InvalidateSymbolList E) w = (x, w')"
  shows "ad (pg w') = ad (pg w)" "live (clock w') (ac (crit w')) symbolCacheKey = None"
proof -
  obtain y w1 where w1: "run_state (Critical E (DEL [symbolCacheKey])) w = (y, w1)"
    "agrees (clock w) (ac (crit w1)) (unset [symbolCacheKey] (ac (crit w)))" "same_but_crit w w1"
    using reliable_Critical [OF assms(1), of "DEL [symbolCacheKey]" w] by auto
  then have w': "w' = w1" using assms(2) by (simp add: InvalidateSymbolList_def InvalidateSymbolCache_def)
  show "ad (pg w') = ad (pg w)" "live (clock w') (ac (crit w')) symbolCacheKey = None"
    using w1(3) agreesD(2) [OF w1(2), of "clock w" symbolCacheKey]
    by (simp_all add: w' same_but_crit_def live_def unset_def)
qed

end

context deployment
begin

lemma sql_answer:
  assumes "run_state (DB E (Auto c)) w = (Inr x, w')"
  shows "sql_step D (clock w) c (ad (pg w)) = (x, ad (pg w'))"
  using query_answer [OF assms] by (metis prod.collapse)

lemma AddSymbol_ok:
  assumes "reliable_crit E" and "run_state (Admin.AddSymbol E r) w = (resp, w1)" and "status resp < 300"
  shows "\<exists>s. Decode (dec_struct (field ''symbol'' dec_string)) [] r = Some s
    \<and> actives (ad (pg w1)) = insert (ToUpper (TrimSpace s)) (actives (ad (pg w)))
    \<and> live (clock w1) (ac (crit w1)) symbolCacheKey = None"
proof -
  obtain s where s: "Decode (dec_struct (field ''symbol'' dec_string)) [] r = Some s"
    and ne: "ToUpper (TrimSpace s) \<noteq> []"
    using assms(2,3) by (auto simp: Admin.AddSymbol_def writeError_def Let_def split: option.splits if_splits)
  define i where "i = new_uuid E (seed w)"
  obtain x v where x: "run_state (DB E (Auto (UpsertSymbol i (ToUpper (TrimSpace s))))) (w\<lparr>seed := Suc (seed w)\<rparr>) = (x, v)"
    by (metis surj_pair)
  obtain z where z: "x = Inr z"
    using assms(2,3) s ne x by (cases x) (auto simp: Admin.AddSymbol_def Store.AddSymbol_def i_def exec_result_def writeError_def Let_def)
  then obtain y where y: "run_state (InvalidateSymbolList E) v = (y, w1)"
    using assms(2) s ne x by (auto simp: Admin.AddSymbol_def Store.AddSymbol_def i_def exec_result_def Let_def split: prod.splits)
  have st: "sql_step D (clock w) (UpsertSymbol i (ToUpper (TrimSpace s))) (ad (pg w)) = (z, ad (pg v))"
    using sql_answer [of "UpsertSymbol i (ToUpper (TrimSpace s))" "w\<lparr>seed := Suc (seed w)\<rparr>" z v] x z by simp
  have "z \<noteq> PErr m" for m using DB_no_error x z by metis
  with st have "z = PDone 1" by (auto simp: unique_violation_def split: if_splits)
  with st actives_upsert s symbols_invalidated [OF assms(1) y] show ?thesis by metis
qed

lemma SetSymbolActive_ok:
  assumes "reliable_crit E" and "run_state (Admin.SetSymbolActive E r) w = (resp, w1)" and "status resp < 300"
  shows "\<exists>b. Decode (dec_struct (field ''active'' dec_bool)) False r = Some b
    \<and> actives (ad (pg w1)) = (if b then insert (ToUpper (rq_value r ''symbol'')) (actives (ad (pg w)))
        else actives (ad (pg w)) - {ToUpper (rq_value r ''symbol'')})
    \<and> live (clock w1) (ac (crit w1)) symbolCacheKey = None"
proof -
  let ?s = "ToUpper (rq_value r ''symbol'')"
  have ne: "?s \<noteq> []"
    using assms(2,3) by (auto simp: Admin.SetSymbolActive_def writeError_def Let_def split: if_splits)
  then obtain b where b: "Decode (dec_struct (field ''active'' dec_bool)) False r = Some b"
    using assms(2,3) by (cases "Decode (dec_struct (field ''active'' dec_bool)) False r")
      (auto simp: Admin.SetSymbolActive_def writeError_def Let_def split: if_splits)
  obtain x v where x: "run_state (DB E (Auto (UpdateSymbolActive b ?s))) w = (x, v)" by (metis surj_pair)
  obtain z where z: "x = Inr z" "rows_affected z \<noteq> 0"
    using assms(2,3) b ne x
    by (cases x) (auto simp: Admin.SetSymbolActive_def Store.SetSymbolActive_def symbol_found_def writeError_def Let_def split: if_splits)
  then obtain y where y: "run_state (InvalidateSymbolList E) v = (y, w1)"
    using assms(2) b ne x
    by (auto simp: Admin.SetSymbolActive_def Store.SetSymbolActive_def symbol_found_def Let_def split: prod.splits)
  have st: "sql_step D (clock w) (UpdateSymbolActive b ?s) (ad (pg w)) = (z, ad (pg v))"
    using sql_answer x z(1) by blast
  moreover from st z(2) obtain n where "z = PDone n" "n \<noteq> 0" by (auto simp: hits_def rows_affected_def)
  ultimately have "actives (ad (pg v)) = (if b then insert ?s (actives (ad (pg w))) else actives (ad (pg w)) - {?s})"
    using actives_update by blast
  with b symbols_invalidated [OF assms(1) y] show ?thesis by metis
qed

lemma DeleteSymbol_ok:
  assumes "reliable_crit E" and "run_state (Admin.DeleteSymbol E r) w = (resp, w1)" and "status resp < 300"
  shows "actives (ad (pg w1)) = actives (ad (pg w)) - {ToUpper (rq_value r ''symbol'')}
    \<and> live (clock w1) (ac (crit w1)) symbolCacheKey = None"
proof -
  let ?s = "ToUpper (rq_value r ''symbol'')"
  have ne: "?s \<noteq> []"
    using assms(2,3) by (auto simp: Admin.DeleteSymbol_def writeError_def Let_def split: if_splits)
  obtain x v where x: "run_state (DB E (Auto (DeleteSymbolRow ?s))) w = (x, v)" by (metis surj_pair)
  obtain z where z: "x = Inr z" "rows_affected z \<noteq> 0"
    using assms(2,3) ne x
    by (cases x) (auto simp: Admin.DeleteSymbol_def Store.DeleteSymbol_def symbol_found_def writeError_def Let_def split: if_splits)
  then obtain y where y: "run_state (InvalidateSymbolList E) v = (y, w1)"
    using assms(2) ne x
    by (auto simp: Admin.DeleteSymbol_def Store.DeleteSymbol_def symbol_found_def Let_def split: prod.splits)
  have "actives (ad (pg v)) = actives (ad (pg w)) - {?s}"
    using actives_delete [OF sql_answer [OF x [unfolded z(1)]]] .
  with symbols_invalidated [OF assms(1) y] show ?thesis by simp
qed

end

subsection \<open>An issued key\<close>

definition granted :: "issue_request \<Rightarrow> string list" where
  "granted req = (if iq_scopes req = [] then [ScopeCopyReceive] else iq_scopes req)"

definition no_issue :: issue_request where
  "no_issue = \<lparr>iq_owner = [], iq_scopes = [], iq_note = [], iq_max = None\<rparr>"

context deployment
begin

lemma CreateAPIKey_ok:
  assumes "run_state (CreateAPIKey E h ow nt sc mx) w = (Inr k, w')"
  shows "h \<notin> kr_hash ` set (api_keys (ad (pg w))) \<and> (\<exists>i sc'. array_canon D (scopesToArray sc) = Some sc'
    \<and> ad (pg w') = (ad (pg w))\<lparr>api_keys := api_keys (ad (pg w)) @ [successor_row i h ow nt sc' mx (clock w)]\<rparr>)"
proof -
  define i where "i = new_uuid E (seed w)"
  define c where "c = InsertKey i h ow (scopesToArray sc) nt mx"
  obtain x v where x: "run_state (DB E (Auto c)) (w\<lparr>seed := Suc (seed w)\<rparr>) = (x, v)" by (metis surj_pair)
  obtain z where z: "x = Inr z" and g: "run_state (GetAPIKeyByID E i) v = (Inr k, w')"
    using assms x by (cases x) (auto simp: CreateAPIKey_def i_def c_def)
  have st: "sql_step D (clock w) c (ad (pg w)) = (z, ad (pg v))"
    using sql_answer [of c "w\<lparr>seed := Suc (seed w)\<rparr>" z v] x z by simp
  have ne: "z \<noteq> PErr m" for m using DB_no_error x z by metis
  have "ad (pg w') = ad (pg v)" by (rule keepsD [OF store_queries_pure(2) g])
  with st ne have "h \<notin> kr_hash ` set (api_keys (ad (pg w))) \<and> (\<exists>sc'. array_canon D (scopesToArray sc) = Some sc'
    \<and> ad (pg w') = (ad (pg w))\<lparr>api_keys := api_keys (ad (pg w)) @ [successor_row i h ow nt sc' mx (clock w)]\<rparr>)"
    by (auto simp: c_def successor_row_def unique_violation_def out_of_range_def split: option.splits if_splits)
  then show ?thesis by blast
qed

lemma IssueKey_ok:
  assumes "run_state (IssueKey E r) w = (resp, w')" and "rbody resp = Doc (JObj ((''api_key'', JStr p) # rest))"
  shows "\<exists>req i sc'. Decode (dec_struct issue_fields) no_issue r = Some req \<and> iq_owner req \<noteq> []
    \<and> HashKey p \<notin> kr_hash ` set (api_keys (ad (pg w))) \<and> array_canon D (scopesToArray (granted req)) = Some sc'
    \<and> ad (pg w') = (ad (pg w))\<lparr>api_keys := api_keys (ad (pg w))
        @ [successor_row i (HashKey p) (iq_owner req) (iq_note req) sc' (iq_max req) (clock w)]\<rparr>"
proof -
  obtain req where req: "Decode (dec_struct issue_fields) no_issue r = Some req" "iq_owner req \<noteq> []"
    using assms by (auto simp: IssueKey_def no_issue_def writeError_def split: option.splits if_splits)
  obtain g w1 where g: "run_state (GenerateKey E) w = (g, w1)" by (metis surj_pair)
  obtain q where q: "g = Inr (q, HashKey q)"
    using assms g req by (cases g) (auto simp: IssueKey_def no_issue_def GenerateKey_def writeError_def Let_def
        split: option.splits if_splits prod.splits sum.splits)
  obtain k w2 where k: "run_state (CreateAPIKey E (HashKey q) (iq_owner req) (iq_note req) (granted req) (iq_max req)) w1 = (k, w2)"
    by (metis surj_pair)
  have "\<exists>key. k = Inr (Some key) \<and> w2 = w' \<and> q = p"
    using assms g req q k by (auto simp: IssueKey_def no_issue_def granted_def writeError_def writeJSON_def aborted_def
        issued_def Let_def split: option.splits if_splits sum.splits bind_splits)
  then obtain key where key: "k = Inr (Some key)" "w2 = w'" "q = p" by blast
  have "pg w1 = pg w" "clock w1 = clock w" using keepsD [OF GenerateKey_keeps(3) g] keepsD [OF GenerateKey_keeps(4) g] by simp_all
  with CreateAPIKey_ok [OF k [unfolded key(1)]] req show ?thesis unfolding key by auto
qed

lemma issued_key_valid:
  assumes "run_state (IssueKey E r) w = (resp, w1)" and "rbody resp = Doc (JObj ((''api_key'', JStr p) # rest))"
    and req: "Decode (dec_struct issue_fields) no_issue r = Some req" and "list_all plain_scope (iq_scopes req)"
    and canon: "array_canon D (scopesToArray (granted req)) = Some (scopesToArray (granted req))"
    and "cache_inv al w2" and "api_keys (ad (pg w2)) = api_keys (ad (pg w1))"
    and "run_state (ValidateKey E cfg p) w2 = (Inr v, w3)"
  shows "\<exists>ck. v = Some ck \<and> ck_Owner ck = iq_owner req \<and> ck_Scopes ck = granted req \<and> ck_Status ck = APIKeyActive"
proof -
  obtain i where fresh: "HashKey p \<notin> kr_hash ` set (api_keys (ad (pg w)))" and
    t: "api_keys (ad (pg w1)) = api_keys (ad (pg w))
        @ [successor_row i (HashKey p) (iq_owner req) (iq_note req) (scopesToArray (granted req)) (iq_max req) (clock w)]"
    using IssueKey_ok [OF assms(1,2)] req canon by auto
  have "filter (\<lambda>r. kr_hash r = HashKey p) (api_keys (ad (pg w))) = []"
    using fresh by (metis (mono_tags, lifting) filter_empty_conv imageI)
  then have k: "key_by_hash (HashKey p) (ad (pg w2)) = Some (scan_key_row
      (successor_row i (HashKey p) (iq_owner req) (iq_note req) (scopesToArray (granted req)) (iq_max req) (clock w)))"
    using t assms(7) by (simp add: key_by_hash_def first_key_def successor_row_def)
  have "parsePostgresArray (scopesToArray (granted req)) = granted req"
    using assms(4) by (intro parse_scopes) (simp add: granted_def ScopeCopyReceive_def plain_scope_def TrimSpace_def is_space_def)
  with k have "\<exists>ck. key_decision E (clock w2) p (ad (pg w2)) = Some ck \<and> ck_Owner ck = iq_owner req
      \<and> ck_Scopes ck = granted req \<and> ck_Status ck = APIKeyActive"
    by (simp add: key_decision_def key_of_row_def scan_key_row_def successor_row_def APIKeyActive_def)
  with ValidateKey_decides [OF assms(6,8)] show ?thesis by simp
qed

end

end
