(* ===== verification/Server.thy ===== *)
theory Server
  imports Admin
begin

text \<open>
  \<open>cmd/server/main.go\<close>, \<open>internal/health/health.go\<close> and the start-up that \<open>cmd/server\<close> and
  \<open>cmd/worker\<close> share: the initialisation of the services, the routing table with the matching of
  \<open>http.ServeMux\<close>, the CORS and logging wrappers, and every endpoint behind its middleware. What a
  request without credentials cannot change, and what every sequence of requests keeps.
\<close>

subsection \<open>Start-up\<close>

text \<open>Each failure ends the process (\<open>os.Exit(1)\<close>) after a line in the log, here the result.\<close>

definition init :: "('r, 'l, 'd) env \<Rightarrow> (string \<Rightarrow> string option) \<Rightarrow> Config.Config \<Rightarrow> string + dir_entry list
    \<Rightarrow> ('r, 'l, 'd, unit result) io" where
  "init E dsn_error cfg migrations = do {
     x \<leftarrow> NewStore E dsn_error (DSN (Postgres cfg));
     case x of
       Inl e \<Rightarrow> ret (Inl (EWrap ''postgres init'' e))
     | Inr _ \<Rightarrow> do {
         y \<leftarrow> CacheLayer.Ping E;
         case y of
           Inl e \<Rightarrow> ret (Inl (EWrap ''redis init'' e))
         | Inr _ \<Rightarrow> do {
             z \<leftarrow> Migrate E migrations;
             ret (case z of Inl e \<Rightarrow> Inl (EWrap ''migration failed'' e) | Inr _ \<Rightarrow> Inr ()) } } }"

subsection \<open>Health\<close>

text \<open>The text of an error that a ping returns: one of a driver, possibly wrapped.\<close>

fun error_text :: "goerr \<Rightarrow> string" where
  "error_text (EMsg s) = s"
| "error_text (EWrap s e) = s @ '': '' @ error_text e"
| "error_text (ESvc s) = s"
| "error_text _ = []"

definition check_text :: "unit result \<Rightarrow> string" where
  "check_text x = (case x of Inl e \<Rightarrow> ''error: '' @ error_text e | Inr _ \<Rightarrow> ''ok'')"

definition Check :: "('r, 'l, 'd) env \<Rightarrow> ('r, 'l, 'd, response) io" where
  "Check E = do {
     p \<leftarrow> StorePing E;
     c \<leftarrow> CacheLayer.Ping E;
     now \<leftarrow> time_now;
     let ok = (p = Inr () \<and> c = Inr ());
     ret \<lparr>status = (if ok then 200 else 503), headers = json_type,
       rbody = (case enc_time now of None \<Rightarrow> NoBody
         | Some ts \<Rightarrow> Doc (JObj [(''checks'', JObj [(''postgres'', JStr (check_text p)), (''redis'', JStr (check_text c))]),
             (''status'', JStr (if ok then ''ok'' else ''degraded'')), (''timestamp'', ts)]))\<rparr> }"

subsection \<open>Routes\<close>

datatype endpoint =
    HealthCheck | AuthLogin | AuthRefresh | AuthLogout | SignalIn | Pending
  | KeyIssue | KeyList | KeyStatus | KeyRotate | SubCreate | SubList | SubActive
  | MetricsGet | SignalList | MachineListAll | MachineListKey | MachineRemove | KeyMaxMachines
  | SymbolList | SymbolAdd | SymbolActive | SymbolDelete | Dashboard

datatype segment = Lit string | Var string

definition routes :: "(string \<times> segment list \<times> endpoint) list" where
  "routes = [
     (''GET'', [Lit ''health''], HealthCheck),
     (''POST'', [Lit ''auth'', Lit ''login''], AuthLogin),
     (''POST'', [Lit ''auth'', Lit ''refresh''], AuthRefresh),
     (''POST'', [Lit ''auth'', Lit ''logout''], AuthLogout),
     (''POST'', [Lit ''signal''], SignalIn),
     (''GET'', [Lit ''pending'', Var ''symbol''], Pending),
     (''POST'', [Lit ''admin'', Lit ''keys''], KeyIssue),
     (''GET'', [Lit ''admin'', Lit ''keys''], KeyList),
     (''PATCH'', [Lit ''admin'', Lit ''keys'', Var ''id'', Lit ''status''], KeyStatus),
     (''POST'', [Lit ''admin'', Lit ''keys'', Var ''id'', Lit ''rotate''], KeyRotate),
     (''POST'', [Lit ''admin'', Lit ''subscribers''], SubCreate),
     (''GET'', [Lit ''admin'', Lit ''subscribers''], SubList),
     (''PATCH'', [Lit ''admin'', Lit ''subscribers'', Var ''id'', Lit ''active''], SubActive),
     (''GET'', [Lit ''admin'', Lit ''metrics''], MetricsGet),
     (''GET'', [Lit ''admin'', Lit ''signals''], SignalList),
     (''GET'', [Lit ''admin'', Lit ''machines''], MachineListAll),
     (''GET'', [Lit ''admin'', Lit ''keys'', Var ''id'', Lit ''machines''], MachineListKey),
     (''DELETE'', [Lit ''admin'', Lit ''keys'', Var ''id'', Lit ''machines'', Var ''account''], MachineRemove),
     (''PATCH'', [Lit ''admin'', Lit ''keys'', Var ''id'', Lit ''max-machines''], KeyMaxMachines),
     (''GET'', [Lit ''admin'', Lit ''symbols''], SymbolList),
     (''POST'', [Lit ''admin'', Lit ''symbols''], SymbolAdd),
     (''PATCH'', [Lit ''admin'', Lit ''symbols'', Var ''symbol''], SymbolActive),
     (''DELETE'', [Lit ''admin'', Lit ''symbols'', Var ''symbol''], SymbolDelete),
     (''GET'', [Lit ''dashboard''], Dashboard)]"

text \<open>
  The matching of \<open>http.ServeMux\<close>: a wildcard matches one segment that is not empty and is
  unescaped; \<open>GET\<close> matches \<open>HEAD\<close> too. Of several patterns that match, the most specific counts;
  no two of these match one request (\<open>one_route\<close>), and \<open>GET /\<close>, which matches every path, comes last.
\<close>

fun unhex :: "char \<Rightarrow> nat option" where
  "unhex c = (let n = (of_char c :: nat) in
     if 48 \<le> n \<and> n \<le> 57 then Some (n - 48) else if 65 \<le> n \<and> n \<le> 70 then Some (n - 55)
     else if 97 \<le> n \<and> n \<le> 102 then Some (n - 87) else None)"

fun unescape :: "string \<Rightarrow> string" where
  "unescape [] = []"
| "unescape (c # a # b # s) = (if c = CHR ''%'' then
     (case (unhex a, unhex b) of (Some x, Some y) \<Rightarrow> char_of (16 * x + y) # unescape s | _ \<Rightarrow> c # unescape (a # b # s))
     else c # unescape (a # b # s))"
| "unescape (c # s) = c # unescape s"

fun match_segments :: "segment list \<Rightarrow> string list \<Rightarrow> (string \<times> string) list option" where
  "match_segments [] [] = Some []"
| "match_segments (Lit l # ps) (s # ss) = (if unescape s = l then match_segments ps ss else None)"
| "match_segments (Var v # ps) (s # ss) = (if s = [] then None else map_option ((#) (v, unescape s)) (match_segments ps ss))"
| "match_segments _ _ = None"

definition method_matches :: "string \<Rightarrow> string \<Rightarrow> bool" where
  "method_matches p m \<longleftrightarrow> p = m \<or> p = ''GET'' \<and> m = ''HEAD''"

fun find_route :: "(string \<times> segment list \<times> endpoint) list \<Rightarrow> string \<Rightarrow> string list
    \<Rightarrow> (endpoint \<times> (string \<times> string) list) option" where
  "find_route [] m ss = None"
| "find_route ((p, segs, ep) # rs) m ss = (if \<not> method_matches p m then find_route rs m ss
     else (case match_segments segs ss of Some vals \<Rightarrow> Some (ep, vals) | None \<Rightarrow> find_route rs m ss))"

text \<open>
  \<open>rq_path\<close> is the escaped path. A path that \<open>cleanPath\<close> would change is redirected, but for
  \<open>CONNECT\<close>.
\<close>

definition path_segments :: "string \<Rightarrow> string list" where
  "path_segments p = Split (tl p) CHR ''/''"

definition clean_path :: "string \<Rightarrow> bool" where
  "clean_path p \<longleftrightarrow> HasPrefix p ''/'' \<and> (let ss = path_segments p in
     [] \<notin> set (butlast ss) \<and> ''.'' \<notin> set ss \<and> ''..'' \<notin> set ss)"

subsection \<open>Serving a request\<close>

definition admin_endpoint :: "endpoint \<Rightarrow> bool" where
  "admin_endpoint ep \<longleftrightarrow> ep \<notin> set [HealthCheck, AuthLogin, AuthRefresh, AuthLogout, SignalIn, Pending, Dashboard]"

text \<open>The handlers of the administration API, without their middleware.\<close>

fun admin_handler :: "('r, 'l, 'd) env \<Rightarrow> endpoint \<Rightarrow> request \<Rightarrow> ('r, 'l, 'd, response) io" where
  "admin_handler E KeyIssue r = IssueKey E r"
| "admin_handler E KeyList r = ListKeys E"
| "admin_handler E KeyStatus r = SetKeyStatus E r"
| "admin_handler E KeyRotate r = RotateKey E r"
| "admin_handler E SubCreate r = Admin.CreateSubscriber E r"
| "admin_handler E SubList r = ListSubscribers E"
| "admin_handler E SubActive r = Admin.SetSubscriberActive E r"
| "admin_handler E MetricsGet r = Admin.GetMetrics E"
| "admin_handler E SignalList r = Admin.ListSignals E r"
| "admin_handler E MachineListAll r = ListAllMachines E"
| "admin_handler E MachineListKey r = ListKeyMachines E r"
| "admin_handler E MachineRemove r = Admin.RemoveMachine E r"
| "admin_handler E KeyMaxMachines r = SetKeyMaxMachines E r"
| "admin_handler E SymbolList r = ListSymbols E"
| "admin_handler E SymbolAdd r = Admin.AddSymbol E r"
| "admin_handler E SymbolActive r = Admin.SetSymbolActive E r"
| "admin_handler E SymbolDelete r = Admin.DeleteSymbol E r"
| "admin_handler E _ r = ret \<lparr>status = 404, headers = [], rbody = Page ''404 page not found''\<rparr>"

text \<open>\<open>http.ServeFile\<close> of \<open>web/dashboard.html\<close>, for a plain request that finds the file.\<close>

definition dashboard_page :: response where
  "dashboard_page = \<lparr>status = 200, headers = [], rbody = Page ''web/dashboard.html''\<rparr>"

definition endpoint_handler :: "('r, 'l, 'd) env \<Rightarrow> AuthConfig \<Rightarrow> endpoint \<Rightarrow> request \<Rightarrow> ('r, 'l, 'd, response) io" where
  "endpoint_handler E cfg ep r =
     (if ep = HealthCheck then Check E
      else if ep = AuthLogin then Login E cfg r
      else if ep = AuthRefresh then Refresh E cfg r
      else if ep = AuthLogout then JWTMiddleware E cfg (\<lambda>_ r. Logout E cfg r) r
      else if ep = SignalIn then Receive E cfg r
      else if ep = Pending then APIKeyMiddleware E cfg ScopeCopyReceive (\<lambda>_ r. GetPending E r) r
      else if ep = Dashboard then ret dashboard_page
      else JWTMiddleware E cfg (\<lambda>_ r. admin_handler E ep r) r)"

definition path_value :: "(string \<times> string) list \<Rightarrow> string \<Rightarrow> string" where
  "path_value vals name = (case map_of vals name of None \<Rightarrow> [] | Some v \<Rightarrow> v)"

text \<open>The handler of \<open>GET /\<close>.\<close>

definition root_handler :: "request \<Rightarrow> response" where
  "root_handler r = (if rq_path r = ''/'' then \<lparr>status = 302, headers = [(''Location'', ''/dashboard'')], rbody = Page ''Found''\<rparr>
     else \<lparr>status = 404, headers = [], rbody = Page ''404 page not found''\<rparr>)"

definition mux :: "('r, 'l, 'd) env \<Rightarrow> AuthConfig \<Rightarrow> request \<Rightarrow> ('r, 'l, 'd, response) io" where
  "mux E cfg r = (if rq_method r \<noteq> ''CONNECT'' \<and> \<not> clean_path (rq_path r)
     then ret \<lparr>status = 301, headers = [], rbody = Page ''cleaned path''\<rparr>
     else (case find_route routes (rq_method r) (path_segments (rq_path r)) of
       Some (ep, vals) \<Rightarrow> endpoint_handler E cfg ep (r\<lparr>rq_value := path_value vals\<rparr>)
     | None \<Rightarrow> ret (if method_matches ''GET'' (rq_method r) then root_handler r
         else \<lparr>status = 405, headers = [], rbody = Page ''Method Not Allowed''\<rparr>)))"

text \<open>The wrapper sets its headers before the handler runs; no handler sets one of these.\<close>

definition cors_headers :: "(string \<times> string) list" where
  "cors_headers = [(''Access-Control-Allow-Origin'', ''*''),
     (''Access-Control-Allow-Methods'', ''GET, POST, PATCH, DELETE, OPTIONS''),
     (''Access-Control-Allow-Headers'', ''Content-Type, Authorization, X-API-Key'')]"

definition with_cors :: "response \<Rightarrow> response" where
  "with_cors resp = resp\<lparr>headers := cors_headers @ headers resp\<rparr>"

lemma with_cors_simps [simp]: "status (with_cors resp) = status resp" "rbody (with_cors resp) = rbody resp"
  "headers (with_cors resp) = cors_headers @ headers resp"
  by (simp_all add: with_cors_def)

definition corsMiddleware :: "(request \<Rightarrow> ('r, 'l, 'd, response) io) \<Rightarrow> request \<Rightarrow> ('r, 'l, 'd, response) io" where
  "corsMiddleware nxt r = (if rq_method r = ''OPTIONS'' then ret (with_cors \<lparr>status = 204, headers = [], rbody = NoBody\<rparr>)
     else do { resp \<leftarrow> nxt r; ret (with_cors resp) })"

text \<open>The line of the log, with the status that the wrapper \<open>rw\<close> has recorded; a panic passes it by.\<close>

record log_line =
  ll_method :: string
  ll_path :: string
  ll_status :: nat
  ll_ms :: int

definition loggingMiddleware :: "(request \<Rightarrow> ('r, 'l, 'd, response) io) \<Rightarrow> request
    \<Rightarrow> ('r, 'l, 'd, response \<times> log_line option) io" where
  "loggingMiddleware nxt r = do {
     start \<leftarrow> time_now;
     resp \<leftarrow> nxt r;
     now \<leftarrow> time_now;
     ret (resp, if rbody resp = Aborted then None
       else Some \<lparr>ll_method = rq_method r, ll_path = rq_path r, ll_status = status resp,
         ll_ms = Sub now start div Millisecond\<rparr>) }"

definition serve :: "('r, 'l, 'd) env \<Rightarrow> AuthConfig \<Rightarrow> request \<Rightarrow> ('r, 'l, 'd, response \<times> log_line option) io" where
  "serve E cfg = loggingMiddleware (corsMiddleware (mux E cfg))"

subsection \<open>No request has two routes\<close>

fun overlap :: "segment list \<Rightarrow> segment list \<Rightarrow> bool" where
  "overlap [] [] = True"
| "overlap (Lit a # ps) (Lit b # qs) = (a = b \<and> overlap ps qs)"
| "overlap (p # ps) (q # qs) = overlap ps qs"
| "overlap _ _ = False"

lemma match_overlap: "match_segments ps ss = Some u \<Longrightarrow> match_segments qs ss = Some v \<Longrightarrow> overlap ps qs"
proof (induction ps arbitrary: qs ss u v)
  case Nil
  then show ?case by (cases ss; cases qs; cases "hd qs") auto
next
  case (Cons p ps)
  then show ?case by (cases ss; cases qs; cases p; cases "hd qs") (auto split: if_splits)
qed

definition route_matches :: "string \<Rightarrow> string list \<Rightarrow> string \<times> segment list \<times> endpoint \<Rightarrow> bool" where
  "route_matches m ss rt \<longleftrightarrow> method_matches (fst rt) m \<and> match_segments (fst (snd rt)) ss \<noteq> None"

lemma routes_apart: "sorted_wrt (\<lambda>a b. \<not> (fst a = fst b \<and> overlap (fst (snd a)) (fst (snd b)))) routes"
  by code_simp

lemma routes_methods: "list_all (\<lambda>a. fst a \<noteq> ''HEAD'') routes"
  by code_simp

lemma one_route:
  assumes "i < j" and "j < length routes" and "route_matches m ss (routes ! i)" and "route_matches m ss (routes ! j)"
  shows False
proof -
  have "fst (routes ! i) \<noteq> ''HEAD''" "fst (routes ! j) \<noteq> ''HEAD''"
    using routes_methods assms(1,2) by (simp_all add: list_all_length)
  then have "fst (routes ! i) = fst (routes ! j)"
    using assms(3,4) by (auto simp: route_matches_def method_matches_def)
  moreover have "overlap (fst (snd (routes ! i))) (fst (snd (routes ! j)))"
    using assms(3,4) match_overlap by (auto simp: route_matches_def)
  ultimately show False using sorted_wrt_nth_less [OF routes_apart assms(1,2)] by simp
qed

subsection \<open>A change of the symbols reaches the worker\<close>

text \<open>What the three handlers make of the set of active symbols.\<close>

fun symbol_change :: "endpoint \<Rightarrow> request \<Rightarrow> string set \<Rightarrow> string set" where
  "symbol_change SymbolAdd r A = (case Decode (dec_struct (field ''symbol'' dec_string)) [] r of
     None \<Rightarrow> A | Some s \<Rightarrow> insert (ToUpper (TrimSpace s)) A)"
| "symbol_change SymbolActive r A = (case Decode (dec_struct (field ''active'' dec_bool)) False r of
     None \<Rightarrow> A | Some b \<Rightarrow> let s = ToUpper (rq_value r ''symbol'') in if b then insert s A else A - {s})"
| "symbol_change SymbolDelete r A = A - {ToUpper (rq_value r ''symbol'')}"
| "symbol_change _ r A = A"

context deployment
begin

lemma symbols_follow:
  assumes "reliable_db E" and "reliable_crit E" and "ep \<in> {SymbolAdd, SymbolActive, SymbolDelete}" and "mgr_ok m"
    and "run_state (admin_handler E ep r) w = (resp, w1)" and "status resp < 300"
    and "run_state (sync E m) w1 = (m', w2)"
  shows "watched m' = (let A = symbol_change ep r (actives (ad (pg w))) in if A = {} then set defaultSymbols else A)"
proof -
  have "actives (ad (pg w1)) = symbol_change ep r (actives (ad (pg w))) \<and> live (clock w1) (ac (crit w1)) symbolCacheKey = None"
    using assms(3,5,6) AddSymbol_ok [OF assms(2), of r w resp w1] SetSymbolActive_ok [OF assms(2), of r w resp w1]
      DeleteSymbol_ok [OF assms(2), of r w resp w1]
    by (auto simp: Let_def)
  then show ?thesis
    using load_fresh [OF assms(1), of w1] sync_result [OF assms(4,7)]
    by (simp add: synced_def set_active_or_default Let_def)
qed

end

subsection \<open>What a request without a token cannot do\<close>

definition token_refused :: "('r, 'l, 'd) env \<Rightarrow> AuthConfig \<Rightarrow> request \<Rightarrow> ('r, 'l, 'd) world \<Rightarrow> bool" where
  "token_refused E cfg r w \<longleftrightarrow> extractBearer r = []
     \<or> (\<exists>e. fst (run_state (ValidateAdminToken E cfg (extractBearer r)) w) = Inl e)"

lemma JWT_refused:
  assumes "token_refused E cfg r w" and "run_state (JWTMiddleware E cfg nxt r) w = (resp, w')"
  shows "status resp = 401 \<and> pg w' = pg w \<and> crit w' = crit w \<and> clock w' = clock w"
proof (cases "extractBearer r = []")
  case True
  then show ?thesis using assms(2) by (auto simp: JWTMiddleware_def writeJSONError_def)
next
  case False
  obtain v w1 where v: "run_state (ValidateAdminToken E cfg (extractBearer r)) w = (v, w1)" by (metis surj_pair)
  then obtain e where "v = Inl e" using assms(1) False by (auto simp: token_refused_def)
  then have "resp = writeJSONError (EMsg ''invalid or expired token'') 401" "w' = w1"
    using assms(2) False v by (auto simp: JWTMiddleware_def Let_def)
  then show ?thesis
    using keepsD [OF auth_keeps_pg(3) v] keepsD [OF auth_keeps_crit(7) v] keepsD [OF auth_keeps_clock(7) v]
    by (simp add: writeJSONError_def)
qed

lemma public_keep_pg:
  "keeps pg (Login E cfg r)" "keeps pg (Refresh E cfg r)" "keeps pg (Logout E cfg r)" "keeps pg (CacheLayer.Ping E)"
  "keeps pg (GetPending E r)"
  unfolding Login_def Refresh_def Logout_def CacheLayer.Ping_def GetPending_def Let_def by (intro hoare)+

context deployment
begin

lemma Check_pure: "keeps (\<lambda>w. ad (pg w)) (Check E)"
proof -
  define F where "F w = ad (pg w)" for w :: "('r, 'l, 'd) world"
  have k: "keeps F m" if "keeps pg m" for m :: "('r, 'l, 'd, 'x) io"
    using that by (simp add: keeps_def F_def)
  have "keeps F (StorePing E)" using store_queries_pure(15) by (simp add: F_def [abs_def])
  then have "keeps F (Check E)"
    unfolding Check_def Let_def by (intro keeps_bind keeps_return k [OF public_keep_pg(4)] time_now_keeps)
  then show ?thesis by (simp add: F_def [abs_def])
qed

lemma Receive_frame: "keeps (\<lambda>w. (ad (pg w))\<lparr>signals := []\<rparr>) (Receive E cfg r)"
proof -
  define F where "F w = (ad (pg w))\<lparr>signals := []\<rparr>" for w :: "('r, 'l, 'd) world"
  have k: "keeps F m" if "keeps pg m" for m :: "('r, 'l, 'd, 'x) io"
    using that by (simp add: keeps_def F_def)
  have "keeps F (InsertSignal E sg)" for sg
    unfolding InsertSignal_def F_def [abs_def]
    by (intro keeps_bind keeps_return DB_frame keeps_comp [OF uuid_New_keeps(3)]) (simp add: no_partition_def)
  then have "keeps F (AcceptSignal E cfg sg)" for sg
    unfolding AcceptSignal_def Let_def
    by (intro keeps_bind keeps_if keeps_pair keeps_sum keeps_return k [OF critical_keeps(1)] k [OF critical_keeps(3)]
        k [OF critical_keeps(4)] k [OF uuid_New_keeps(3)] time_now_keeps)
  then have "keeps F (Receive E cfg r)"
    unfolding Receive_def Let_def by (intro keeps_bind keeps_if keeps_option keeps_sum keeps_return time_now_keeps)
  then show ?thesis by (simp add: F_def [abs_def])
qed

lemma Pending_frame: "keeps (\<lambda>w. (ad (pg w))\<lparr>key_machines := []\<rparr>) (APIKeyMiddleware E cfg sc (\<lambda>_ r. GetPending E r) r)"
proof -
  define F where "F w = (ad (pg w))\<lparr>key_machines := []\<rparr>" for w :: "('r, 'l, 'd) world"
  have k: "keeps F m" if "keeps pg m" for m :: "('r, 'l, 'd, 'x) io"
    using that by (simp add: keeps_def F_def)
  have p: "keeps F m" if "keeps (\<lambda>w. ad (pg w)) m" for m :: "('r, 'l, 'd, 'x) io"
    using that by (simp add: keeps_def F_def)
  have DBF: "keeps F (DB E (Auto (InsertMachine i kk a)))" for i kk a
    unfolding F_def [abs_def] by (rule DB_frame) simp
  have "keeps F (InsertNewMachine E kk a)" for kk a
    unfolding InsertNewMachine_def by (intro keeps_bind keeps_return DBF k [OF uuid_New_keeps(3)])
  then have "keeps F (RegisterMachine E kk a mx)" for kk a mx
    unfolding RegisterMachine_def
    by (intro keeps_bind keeps_return keeps_sum keeps_pgreply keeps_list keeps_option keeps_if k [OF spawn_keeps(3)]
        p [OF pure_queries(4)] p [OF pure_queries(5)])
  then have "keeps F (CheckMachineDB E ck kk a)" for ck kk a
    unfolding CheckMachineDB_def Let_def
    by (intro keeps_bind keeps_return keeps_sum keeps_bool keeps_goerr k [OF spawn_keeps(3)] k [OF lru_keeps(9)]
        p [OF store_queries_pure(6)] p [OF store_queries_pure(7)])
  then have "keeps F (CheckMachineBinding E ck a)" for ck a
    unfolding CheckMachineBinding_def
    by (intro keeps_bind keeps_return keeps_sum keeps_option keeps_if keeps_pair keeps_bool k [OF spawn_keeps(3)]
        k [OF lru_keeps(8)] p [OF store_queries_pure(5)])
  then have "keeps F (APIKeyMiddleware E cfg sc (\<lambda>_ r. GetPending E r) r)"
    unfolding APIKeyMiddleware_def Let_def
    by (intro keeps_bind keeps_return keeps_sum keeps_option keeps_if k [OF lru_keeps(5)] k [OF auth_keeps_pg(6)]
        k [OF public_keep_pg(5)] p [OF ValidateKey_pure])
  then show ?thesis by (simp add: F_def [abs_def])
qed

end

text \<open>The endpoint a request is routed to.\<close>

definition routed :: "request \<Rightarrow> (endpoint \<times> (string \<times> string) list) option" where
  "routed r = (if rq_method r = ''OPTIONS'' \<or> (rq_method r \<noteq> ''CONNECT'' \<and> \<not> clean_path (rq_path r)) then None
     else find_route routes (rq_method r) (path_segments (rq_path r)))"

lemma serve_cases:
  assumes "run_state (serve E cfg r) w = ((resp, l), w')"
  shows "case routed r of None \<Rightarrow> w' = w
    | Some (ep, vals) \<Rightarrow> (\<exists>resp0. resp = with_cors resp0
        \<and> run_state (endpoint_handler E cfg ep (r\<lparr>rq_value := path_value vals\<rparr>)) w = (resp0, w'))"
  using assms
  by (auto simp: serve_def loggingMiddleware_def corsMiddleware_def mux_def routed_def split: if_splits option.splits prod.splits)

lemma token_refused_value [simp]: "token_refused E cfg (r\<lparr>rq_value := f\<rparr>) w \<longleftrightarrow> token_refused E cfg r w"
  by (simp add: token_refused_def extractBearer_def)

context deployment
begin

lemma endpoint_guarded:
  assumes "token_refused E cfg r w" and "run_state (endpoint_handler E cfg ep r) w = (resp, w')"
  shows "if admin_endpoint ep \<or> ep = AuthLogout then status resp = 401 \<and> ad (pg w') = ad (pg w) \<and> crit w' = crit w
    else if ep = SignalIn then (ad (pg w'))\<lparr>signals := []\<rparr> = (ad (pg w))\<lparr>signals := []\<rparr>
    else if ep = Pending then (ad (pg w'))\<lparr>key_machines := []\<rparr> = (ad (pg w))\<lparr>key_machines := []\<rparr>
    else ad (pg w') = ad (pg w)"
proof (cases "admin_endpoint ep \<or> ep = AuthLogout")
  case True
  then obtain nxt where "run_state (JWTMiddleware E cfg nxt r) w = (resp, w')"
    using assms(2) by (auto simp: endpoint_handler_def admin_endpoint_def)
  from JWT_refused [OF assms(1) this] True show ?thesis by simp
next
  case False
  then have "ep \<in> {HealthCheck, AuthLogin, AuthRefresh, SignalIn, Pending, Dashboard}"
    by (auto simp: admin_endpoint_def)
  then show ?thesis
    using False assms(2) keepsD [OF Check_pure, of w resp w'] keepsD [OF public_keep_pg(1), of E cfg r w resp w']
      keepsD [OF public_keep_pg(2), of E cfg r w resp w'] keepsD [OF Receive_frame, of cfg r w resp w']
      keepsD [OF Pending_frame, of cfg ScopeCopyReceive r w resp w']
    by (auto simp: endpoint_handler_def)
qed

end

subsection \<open>What every request keeps\<close>

lemma SignalHandler_keep_lru: "keeps lru (Receive E cfg r)" "keeps lru (GetPending E r)" "keeps lru (StorePing E)"
  unfolding Receive_def AcceptSignal_def GetPending_def Let_def by (intro hoare off_pg_proj time_now_keeps)+

lemma preserves_bool:
  "(x \<Longrightarrow> preserves P m) \<Longrightarrow> (\<not> x \<Longrightarrow> preserves P n) \<Longrightarrow> preserves P (case x of True \<Rightarrow> m | False \<Rightarrow> n)"
  by (cases x) simp_all

lemma preserves_goerr:
  "(\<And>a. preserves P (g1 a)) \<Longrightarrow> (\<And>a b. preserves P (g2 a b)) \<Longrightarrow> (\<And>a. preserves P (g3 a)) \<Longrightarrow> (\<And>a. preserves P (g4 a))
    \<Longrightarrow> (\<And>a b. preserves P (g5 a b)) \<Longrightarrow> preserves P g6 \<Longrightarrow> preserves P g7
    \<Longrightarrow> preserves P (case_goerr g1 g2 g3 g4 g5 g6 g7 x)"
  by (cases x) simp_all

lemma login_keeps_lru: "keeps lru (Login E cfg r)"
  unfolding Login_def AdminLogin_def makeToken_def Let_def by (intro hoare time_now_keeps)+

context deployment
begin

lemma cache_inv_auth:
  "preserves (cache_inv al) (ValidateAdminToken E cfg tk)" "preserves (cache_inv al) (RefreshAdminToken E cfg tk)"
  "preserves (cache_inv al) (RevokeAdminToken E cfg tk)" "preserves (cache_inv al) (recordFailure E cfg ip)"
proof -
  define P where "P w \<longleftrightarrow> cache_inv al w" for w :: "('r, 'l, 'd) world"
  have Pe: "cache_inv al = P" by (simp add: P_def [abs_def])
  have k: "preserves P m" if "keeps lru m" for m :: "('r, 'l, 'd, 'x) io"
    using cache_inv_off [OF that, of al] by (simp add: Pe)
  note ops = cache_inv_ops [unfolded Pe]
  have v: "preserves P (ValidateAdminToken E cfg tk)" for tk
    unfolding ValidateAdminToken_def by (intro preserves_bind preserves_return preserves_sum preserves_prod preserves_if
        k [OF time_now_keeps] ops)
  have "preserves P (makeToken E cfg u ttl ty)" for u ttl ty
    unfolding makeToken_def Let_def by (intro preserves_bind preserves_return k [OF uuid_New_keeps(2)] k [OF time_now_keeps])
  then show "preserves (cache_inv al) (RefreshAdminToken E cfg tk)"
    unfolding RefreshAdminToken_def Let_def Pe by (intro preserves_bind preserves_return preserves_sum preserves_option
        preserves_if k [OF time_now_keeps] ops v)
  show "preserves (cache_inv al) (RevokeAdminToken E cfg tk)"
    unfolding RevokeAdminToken_def Let_def Pe by (intro preserves_bind preserves_return preserves_sum preserves_option
        preserves_if k [OF time_now_keeps] ops v)
  show "preserves (cache_inv al) (ValidateAdminToken E cfg tk)" using v by (simp add: Pe)
  show "preserves (cache_inv al) (recordFailure E cfg ip)"
    unfolding recordFailure_def Pe by (intro preserves_bind preserves_return ops)
qed

lemma cache_inv_binding: "preserves (cache_inv al) (CheckMachineBinding E ck a)"
proof -
  define P where "P w \<longleftrightarrow> cache_inv al w" for w :: "('r, 'l, 'd) world"
  have Pe: "cache_inv al = P" by (simp add: P_def [abs_def])
  have k: "preserves P m" if "keeps lru m" for m :: "('r, 'l, 'd, 'x) io"
    using cache_inv_off [OF that, of al] by (simp add: Pe)
  note ops = cache_inv_ops [unfolded Pe]
  note q = store_query_keeps [OF off_pg_proj(2)]
  have "preserves P (CheckMachineDB E ck i a)" for i a
    unfolding CheckMachineDB_def Let_def by (intro preserves_bind preserves_return preserves_sum preserves_bool preserves_goerr
        ops k [OF q(6)] k [OF q(7)] k [OF spawn_keeps(2)] k [OF store_update_keeps(7) [OF off_pg_proj(2)]])
  then have "preserves P (CheckMachineBinding E ck a)"
    unfolding CheckMachineBinding_def by (intro preserves_bind preserves_return preserves_sum preserves_option preserves_if
        preserves_prod preserves_bool ops k [OF q(5)] k [OF spawn_keeps(2)])
  then show ?thesis by (simp add: Pe)
qed

lemma cache_inv_admin: "preserves (cache_inv al) (admin_handler E ep r)"
proof -
  define P where "P w \<longleftrightarrow> cache_inv al w" for w :: "('r, 'l, 'd) world"
  have Pe: "cache_inv al = P" by (simp add: P_def [abs_def])
  have k: "preserves P m" if "keeps lru m" for m :: "('r, 'l, 'd, 'x) io"
    using cache_inv_off [OF that, of al] by (simp add: Pe)
  note ops = cache_inv_ops [unfolded Pe]
  have "preserves P (SetKeyStatus E r)"
    unfolding SetKeyStatus_def by (intro preserves_bind preserves_return preserves_sum preserves_option preserves_if
        ops k [OF store_query_keeps(2) [OF off_pg_proj(2)]] k [OF store_update_keeps(2) [OF off_pg_proj(2)]])
  moreover have "preserves P (SetKeyMaxMachines E r)"
    unfolding SetKeyMaxMachines_def by (intro preserves_bind preserves_return preserves_sum preserves_option preserves_if
        ops k [OF store_query_keeps(2) [OF off_pg_proj(2)]] k [OF store_update_keeps(3) [OF off_pg_proj(2)]])
  ultimately have "preserves P (admin_handler E ep r)"
    by (cases ep) (simp_all add: k [OF key_admin_keep_lru(1)] k [OF key_admin_keep_lru(2)] k [OF key_admin_keep_lru(3)]
        k [OF key_admin_keep_lru(4)] k [OF key_admin_keep_lru(5)] k [OF key_admin_keep_lru(6)]
        k [OF other_admin_keep_lru(1)] k [OF other_admin_keep_lru(2)] k [OF other_admin_keep_lru(3)]
        k [OF other_admin_keep_lru(4)] k [OF other_admin_keep_lru(5)] k [OF other_admin_keep_lru(6)]
        k [OF other_admin_keep_lru(7)] k [OF other_admin_keep_lru(8)] k [OF other_admin_keep_lru(9)])
  then show ?thesis by (simp add: Pe)
qed

end

text \<open>
  What happens to the world of a running server: it serves a request, one of the updates it has
  left to the background runs, time passes, or another process (the worker, an operator) does
  something that leaves the cache server alone.
\<close>

inductive server_step :: "('r, 'l, 'd) env \<Rightarrow> AuthConfig \<Rightarrow> ('r, 'l, 'd) world \<Rightarrow> ('r, 'l, 'd) world \<Rightarrow> bool"
  for E cfg where
  Request: "run_state (serve E cfg r) w = (x, w') \<Longrightarrow> server_step E cfg w w'"
| Background: "run_state (run_async E a) w = (u, w') \<Longrightarrow> server_step E cfg w w'"
| Elsewhere: "lru w' = lru w \<Longrightarrow> clock w \<le> clock w' \<Longrightarrow> server_step E cfg w w'"

lemma run_async_keeps_lru: "keeps lru (run_async E a)"
  by (cases a) (auto intro!: store_update_keeps keeps_bind off_pg_prims off_pg_proj)

context deployment
begin

lemma cache_inv_endpoint: "preserves (cache_inv al) (endpoint_handler E cfg ep r)"
proof -
  define P where "P w \<longleftrightarrow> cache_inv al w" for w :: "('r, 'l, 'd) world"
  have Pe: "cache_inv al = P" by (simp add: P_def [abs_def])
  have k: "preserves P m" if "keeps lru m" for m :: "('r, 'l, 'd, 'x) io"
    using cache_inv_off [OF that, of al] by (simp add: Pe)
  note ops = cache_inv_ops [unfolded Pe] and auth = cache_inv_auth [unfolded Pe]
  have ping: "preserves P (Cache E PING)" using cache_inv_cmd [of PING] by (simp add: Pe)
  have check: "preserves P (Check E)"
    unfolding Check_def CacheLayer.Ping_def Let_def
    by (intro preserves_bind preserves_return preserves_sum ping k [OF Critical_keeps(1)] k [OF time_now_keeps]
        k [OF SignalHandler_keep_lru(3)])
  have refresh: "preserves P (Refresh E cfg r)" for r
    unfolding Refresh_def by (intro preserves_bind preserves_return preserves_option auth)
  have logout: "preserves P (Logout E cfg r)" for r
    unfolding Logout_def Let_def by (intro preserves_bind preserves_return preserves_if auth)
  have jwt: "preserves P (JWTMiddleware E cfg (\<lambda>_. h) r)" if "\<And>r. preserves P (h r)" for h r
    unfolding JWTMiddleware_def Let_def by (intro preserves_bind preserves_return preserves_if preserves_sum auth that)
  have api: "preserves P (APIKeyMiddleware E cfg sc (\<lambda>_ r. GetPending E r) r)" for sc r
    unfolding APIKeyMiddleware_def Let_def
    by (intro preserves_bind preserves_return preserves_if preserves_sum preserves_option ops auth
        cache_inv_binding [unfolded Pe] cache_inv_ValidateKey [unfolded Pe] k [OF SignalHandler_keep_lru(2)])
  have "preserves P (endpoint_handler E cfg ep r)"
    unfolding endpoint_handler_def
    by (intro preserves_if preserves_return check refresh jwt logout api cache_inv_admin [unfolded Pe]
        k [OF login_keeps_lru] k [OF SignalHandler_keep_lru(1)])
  then show ?thesis by (simp add: Pe)
qed

lemma cache_inv_step:
  assumes "server_step E cfg w w'" and "cache_inv al w"
  shows "cache_inv al w'"
  using assms(1)
proof (cases rule: server_step.cases)
  case (Request r x)
  obtain resp l where x: "x = (resp, l)" by (cases x)
  show ?thesis
    using serve_cases [OF Request [unfolded x]] preservesD [OF cache_inv_endpoint _ assms(2)] assms(2)
    by (auto split: option.splits)
next
  case (Background a u)
  then show ?thesis using preservesD [OF cache_inv_off [OF run_async_keeps_lru] _ assms(2)] by blast
next
  case Elsewhere
  then show ?thesis using assms(2) by (simp add: cache_inv_def)
qed

lemma cache_inv_run: "(server_step E cfg)\<^sup>*\<^sup>* w w' \<Longrightarrow> cache_inv al w \<Longrightarrow> cache_inv al w'"
  by (induction rule: rtranclp_induct) (auto intro: cache_inv_step)

end

subsection \<open>The worker\<close>

text \<open>
  \<open>cmd/worker\<close>: a missing required variable panics in \<open>Load\<close>; else the services are initialised and
  the manager runs until a signal cancels the context. The cleanup of \<open>Consumer.Start\<close> is not started.
\<close>

definition worker_main :: "('r, 'l, 'd) env \<Rightarrow> getenv \<Rightarrow> (string \<Rightarrow> string option) \<Rightarrow> string + dir_entry list \<Rightarrow> ctx
    \<Rightarrow> ('r, 'l, 'd) world \<Rightarrow> (('r, 'l, 'd) Manager result \<times> ('r, 'l, 'd) world) option" where
  "worker_main E g dsn_error migrations ctx w = (case Load g of
     Inl key \<Rightarrow> Some (Inl (EMsg (''required env var not set: '' @ key)), w)
   | Inr cfg \<Rightarrow> (case run_state (init E dsn_error cfg migrations) w of
       (Inl e, w1) \<Rightarrow> Some (Inl e, w1)
     | (Inr _, w1) \<Rightarrow> map_option (\<lambda>(m, w2). (Inr m, w2))
         (Symbols.Start E ctx (NewManager (worker_consumer E (Worker cfg) (Config.Notify cfg))) w1)))"

end
