(* ===== verification/Integrity.thy ===== *)
theory Integrity
  imports Server
begin

text \<open>
  What the tables always satisfy: a typing of every row, that the constraints of the schema and the
  checks of the handlers together keep in every state that the server, its background updates and
  the workers reach.
\<close>

subsection \<open>Well-typed tables\<close>

definition max_ok :: "int option \<Rightarrow> bool" where
  "max_ok m = (case m of None \<Rightarrow> True | Some n \<Rightarrow> 1 \<le> n)"

definition key_row_ok :: "uuid set \<Rightarrow> key_row \<Rightarrow> bool" where
  "key_row_ok ids r \<longleftrightarrow> length (kr_hash r) = 64 \<and> kr_status r \<in> set key_statuses \<and> max_ok (kr_max r)
     \<and> (kr_successor r = None \<longleftrightarrow> kr_rotate_at r = None) \<and> (\<forall>s. kr_successor r = Some s \<longrightarrow> s \<in> ids)"

definition keys_ok :: "key_row list \<Rightarrow> bool" where
  "keys_ok ks \<longleftrightarrow> distinct (map kr_id ks) \<and> distinct (map kr_hash ks) \<and> (\<forall>r \<in> set ks. key_row_ok (kr_id ` set ks) r)"

definition machines_ok :: "uuid set \<Rightarrow> machine_row list \<Rightarrow> bool" where
  "machines_ok ids ms \<longleftrightarrow> distinct (map mr_id ms) \<and> distinct (map (\<lambda>r. (mr_key r, mr_account r)) ms)
     \<and> (\<forall>r \<in> set ms. mr_key r \<in> ids \<and> mr_account r \<noteq> [])"

definition symbol_ok :: "string \<Rightarrow> bool" where
  "symbol_ok s \<longleftrightarrow> s \<noteq> [] \<and> ToUpper (TrimSpace s) = s"

lemma symbol_ok_norm [simp]: "symbol_ok s \<Longrightarrow> symbol_ok (ToUpper (TrimSpace s))"
  by (simp add: symbol_ok_def)

definition symbols_ok :: "symbol_row list \<Rightarrow> bool" where
  "symbols_ok ys \<longleftrightarrow> distinct (map yr_id ys) \<and> distinct (map yr_symbol ys) \<and> (\<forall>r \<in> set ys. symbol_ok (yr_symbol r))"

definition signals_ok :: "signal_row list \<Rightarrow> bool" where
  "signals_ok ss \<longleftrightarrow> distinct (map (\<lambda>r. (sr_id r, sr_received r)) ss)
     \<and> (\<forall>r \<in> set ss. 0 < sr_ticket r \<and> sr_type r \<in> {SignalOpen, SignalModify, SignalClose, SignalPartial}
       \<and> sr_direction r \<in> {''BUY'', ''SELL''} \<and> 0 \<le> sr_price r \<and> 0 \<le> sr_lot r \<and> sr_source r = None
       \<and> CHR ''.'' \<notin> set (sr_symbol r) \<and> ToUpper (sr_symbol r) = sr_symbol r)"

definition subs_ok :: "uuid set \<Rightarrow> sub_row list \<Rightarrow> bool" where
  "subs_ok ids bs \<longleftrightarrow> distinct (map br_id bs) \<and> (\<forall>r \<in> set bs. br_key r \<in> ids \<and> br_channel r \<in> set channels)"

definition log_ok :: "uuid set \<Rightarrow> log_row list \<Rightarrow> bool" where
  "log_ok ids ls \<longleftrightarrow> distinct (map lr_id ls) \<and> (\<forall>r \<in> set ls. lr_sub r \<in> ids \<and> lr_channel r \<in> set channels
     \<and> lr_status r \<in> {''pending'', ''delivered'', ''failed''}
     \<and> (if lr_status r = ''pending'' then lr_attempts r = 0 \<and> lr_attempted r = None else 1 \<le> lr_attempts r \<and> lr_attempted r \<noteq> None))"

definition tables_ok :: "tables \<Rightarrow> bool" where
  "tables_ok t \<longleftrightarrow> keys_ok (api_keys t) \<and> machines_ok (kr_id ` set (api_keys t)) (key_machines t)
     \<and> symbols_ok (watched_symbols t) \<and> signals_ok (signals t) \<and> subs_ok (kr_id ` set (api_keys t)) (subscribers t)
     \<and> log_ok (br_id ` set (subscribers t)) (delivery_log t) \<and> distinct (map dr_id (dead_letter t))"

text \<open>The statements that keep them.\<close>

definition good_sql :: "sql \<Rightarrow> bool" where
  "good_sql c = (case c of
       InsertKey i h ow sc nt mx \<Rightarrow> length h = 64 \<and> max_ok mx
     | UpdateKeyMax mx i \<Rightarrow> max_ok mx
     | InsertMachine i k a \<Rightarrow> a \<noteq> []
     | UpsertSymbol i s \<Rightarrow> symbol_ok s
     | InsertSignalRow i tid ty smb dir pr sl tp lot src \<Rightarrow> 0 < tid \<and> 0 \<le> pr \<and> 0 \<le> lot \<and> src = None
         \<and> CHR ''.'' \<notin> set smb \<and> ToUpper smb = smb
     | InsertLog i sg sb ch \<Rightarrow> ch \<in> set channels
     | UpdateDead e i \<Rightarrow> False
     | RunScript s \<Rightarrow> False
     | _ \<Rightarrow> True)"

lemma map_upd: "(\<And>r. g (f r) = g r) \<Longrightarrow> map g (upd P f rs) = map g rs"
  by (simp add: upd_def)

lemma all_upd: "(\<And>r. r \<in> set rs \<Longrightarrow> Q r) \<Longrightarrow> (\<And>r. r \<in> set rs \<Longrightarrow> Q r \<Longrightarrow> Q (f r)) \<Longrightarrow> \<forall>r \<in> set (upd P f rs). Q r"
  by (auto simp: upd_def)

lemma ids_upd: "(\<And>r. g (f r) = g r) \<Longrightarrow> g ` set (upd P f rs) = g ` set rs"
  using map_upd [of g f P rs] by (metis set_map)

lemma keys_ok_insert:
  assumes "keys_ok ks" and "kr_id r \<notin> kr_id ` set ks" and "kr_hash r \<notin> kr_hash ` set ks" and "key_row_ok {} r"
  shows "keys_ok (ks @ [r])"
  using assms unfolding keys_ok_def by (auto simp: key_row_ok_def)

lemma keys_ok_upd:
  assumes "keys_ok ks" and "\<And>r. kr_id (f r) = kr_id r \<and> kr_hash (f r) = kr_hash r"
    and "\<And>r ids. r \<in> set ks \<Longrightarrow> P r \<Longrightarrow> key_row_ok (kr_id ` set ks) r \<Longrightarrow> key_row_ok (kr_id ` set ks) (f r)"
  shows "keys_ok (upd P f ks)"
proof -
  have m: "map kr_id (upd P f ks) = map kr_id ks" "map kr_hash (upd P f ks) = map kr_hash ks"
    "kr_id ` set (upd P f ks) = kr_id ` set ks"
    using assms(2) by (simp_all add: map_upd ids_upd)
  show ?thesis unfolding keys_ok_def m using assms by (auto simp: upd_def keys_ok_def)
qed

lemma numeric_round_nonneg: "0 \<le> x \<Longrightarrow> 0 \<le> numeric_round p x"
  unfolding numeric_round_def by (intro divide_nonneg_nonneg mult_nonneg_nonneg) (simp_all add: sgn_if)

lemma tables_ok_key_upd:
  assumes "tables_ok t" and "keys_ok (upd P f (api_keys t))" and "\<And>r. kr_id (f r) = kr_id r"
  shows "tables_ok (t\<lparr>api_keys := upd P f (api_keys t)\<rparr>)"
  using assms by (simp add: tables_ok_def ids_upd)

lemma sql_typed:
  assumes "tables_ok t" and "good_sql c"
  shows "tables_ok (snd (sql_step D now c t))"
proof -
  have k: "keys_ok (api_keys t)" using assms(1) by (simp add: tables_ok_def)
  note ok = assms(1) [unfolded tables_ok_def]
  show ?thesis
  proof (cases c)
    case (InsertKey i h ow sc nt mx)
    then show ?thesis
      using assms(2) ok keys_ok_insert [OF k]
      by (auto simp: good_sql_def tables_ok_def has_key_def key_row_ok_def key_statuses_def machines_ok_def subs_ok_def
          unique_violation_def out_of_range_def split: option.splits)
  next
    case (UpdateKeyStatus st i)
    have "has_key i t \<longrightarrow> st \<in> set key_statuses \<Longrightarrow> keys_ok (upd (\<lambda>r. kr_id r = i) (\<lambda>r. r\<lparr>kr_status := st\<rparr>) (api_keys t))"
      by (rule keys_ok_upd [OF k]) (auto simp: has_key_def key_row_ok_def)
    then show ?thesis using tables_ok_key_upd [OF assms(1)] assms(1) UpdateKeyStatus by auto
  next
    case (UpdateKeyMax mx i)
    have "keys_ok (upd (\<lambda>r. kr_id r = i) (\<lambda>r. r\<lparr>kr_max := mx\<rparr>) (api_keys t))"
      by (rule keys_ok_upd [OF k]) (use assms(2) UpdateKeyMax in \<open>auto simp: good_sql_def key_row_ok_def\<close>)
    then show ?thesis using tables_ok_key_upd [OF assms(1)] assms(1) UpdateKeyMax by auto
  next
    case (TouchKey i)
    have "keys_ok (upd (\<lambda>r. kr_id r = i) (\<lambda>r. r\<lparr>kr_last_used := Some now\<rparr>) (api_keys t))"
      by (rule keys_ok_upd [OF k]) (auto simp: key_row_ok_def)
    then show ?thesis using tables_ok_key_upd [OF assms(1)] TouchKey by simp
  next
    case (LinkSuccessor new rot old)
    have "has_key old t \<longrightarrow> has_key new t \<Longrightarrow> keys_ok (upd (\<lambda>r. kr_id r = old)
          (\<lambda>r. r\<lparr>kr_successor := Some new, kr_rotate_at := Some rot\<rparr>) (api_keys t))"
      by (rule keys_ok_upd [OF k]) (auto simp: has_key_def key_row_ok_def)
    then show ?thesis using tables_ok_key_upd [OF assms(1)] assms(1) LinkSuccessor by auto
  next
    case (InsertMachine i kk a)
    then show ?thesis
      using assms(2) ok by (auto simp: good_sql_def tables_ok_def machines_ok_def has_key_def unique_violation_def fk_violation_def)
  next
    case (InsertSignalRow i tid ty smb dir pr sl tp lot src)
    then show ?thesis
      using assms(2) ok
      by (auto simp: good_sql_def tables_ok_def signals_ok_def numeric_round_nonneg check_violation_def out_of_range_def
          no_partition_def fk_violation_def unique_violation_def)
  next
    case (UpsertSymbol i s)
    then show ?thesis
      using assms(2) ok by (auto simp: good_sql_def tables_ok_def symbols_ok_def map_upd unique_violation_def) (auto simp: upd_def)
  next
    case (InsertSub i kk ch cfg)
    then show ?thesis
      using ok by (auto simp: tables_ok_def subs_ok_def has_key_def check_violation_def unique_violation_def fk_violation_def log_ok_def)
  next
    case (InsertLog i sg sb ch)
    then show ?thesis
      using assms(2) ok by (auto simp: good_sql_def tables_ok_def log_ok_def unique_violation_def fk_violation_def)
  next
    case (TouchMachineId i)
    then show ?thesis using ok by (auto simp: tables_ok_def machines_ok_def map_upd) (auto simp: upd_def)
  next
    case (TouchMachine kk a)
    then show ?thesis using ok by (auto simp: tables_ok_def machines_ok_def map_upd) (auto simp: upd_def)
  next
    case (DeleteMachine kk a)
    then show ?thesis using ok by (auto simp: tables_ok_def machines_ok_def distinct_map_filter)
  next
    case (UpdateSymbolActive b s)
    then show ?thesis using ok by (auto simp: tables_ok_def symbols_ok_def map_upd) (auto simp: upd_def)
  next
    case (DeleteSymbolRow s)
    then show ?thesis using ok by (auto simp: tables_ok_def symbols_ok_def distinct_map_filter)
  next
    case (UpdateSubActive b i)
    then show ?thesis using ok by (auto simp: tables_ok_def subs_ok_def map_upd ids_upd) (auto simp: upd_def)
  next
    case (UpdateDelivered i)
    then show ?thesis using ok by (auto simp: tables_ok_def log_ok_def map_upd) (auto simp: upd_def split: if_splits)
  next
    case (UpdateFailed e i)
    then show ?thesis using ok by (auto simp: tables_ok_def log_ok_def map_upd) (auto simp: upd_def split: if_splits)
  next
    case (InsertDead i pay sg e)
    then show ?thesis using ok by (auto simp: tables_ok_def unique_violation_def)
  next
    case CreateMigrations
    then show ?thesis using ok by (auto simp: tables_ok_def split: option.splits)
  next
    case (CountMigration f)
    then show ?thesis using ok by (auto simp: tables_ok_def split: option.splits)
  next
    case (InsertMigration f)
    then show ?thesis using ok by (auto simp: tables_ok_def unique_violation_def split: option.splits)
  next
    case (SignalsPage l off)
    then show ?thesis using assms(1) by simp
  qed (use assms in \<open>simp_all add: good_sql_def\<close>)
qed

subsection \<open>Programs that keep them\<close>

named_theorems typed \<open>introduction rules for \<open>preserves (db_ok ad)\<close>\<close>

definition db_ok :: "('d \<Rightarrow> tables) \<Rightarrow> ('r, 'l, 'd) world \<Rightarrow> bool" where
  "db_ok ad w \<longleftrightarrow> tables_ok (ad (pg w))"

definition good_cmd :: "pgcmd \<Rightarrow> bool" where
  "good_cmd c = (case c of Postgres.Ping \<Rightarrow> True | Auto s \<Rightarrow> good_sql s | Tx cs \<Rightarrow> list_all good_sql cs)"

lemma tx_typed: "tables_ok t \<Longrightarrow> list_all good_sql cs \<Longrightarrow> tx_step D now n cs t = Inr t' \<Longrightarrow> tables_ok t'"
proof (induction cs arbitrary: n t)
  case (Cons c cs)
  have "tables_ok (snd (sql_step D now c t))" by (rule sql_typed) (use Cons.prems in simp_all)
  with Cons show ?case by (auto split: prod.splits pgreply.splits)
qed simp

lemma cmd_typed: "tables_ok t \<Longrightarrow> good_cmd c \<Longrightarrow> tables_ok (snd (pg_step D now c t))"
  by (cases c) (auto simp: good_cmd_def sql_typed dest: tx_typed split: sum.splits)

lemma preserves_list:
  "(x = [] \<Longrightarrow> preserves P m) \<Longrightarrow> (\<And>y ys. x = y # ys \<Longrightarrow> preserves P (g y ys))
    \<Longrightarrow> preserves P (case x of [] \<Rightarrow> m | y # ys \<Rightarrow> g y ys)"
  by (cases x) simp_all

lemma preserves_pgreply:
  "(\<And>a. preserves P (g1 a)) \<Longrightarrow> (\<And>a. preserves P (g2 a)) \<Longrightarrow> (\<And>a. preserves P (g3 a)) \<Longrightarrow> (\<And>a. preserves P (g4 a))
    \<Longrightarrow> (\<And>a. preserves P (g5 a)) \<Longrightarrow> (\<And>a. preserves P (g6 a)) \<Longrightarrow> (\<And>a. preserves P (g7 a)) \<Longrightarrow> (\<And>a. preserves P (g8 a))
    \<Longrightarrow> (\<And>a. preserves P (g9 a)) \<Longrightarrow> (\<And>a. preserves P (g10 a)) \<Longrightarrow> (\<And>a b. preserves P (g11 a b))
    \<Longrightarrow> preserves P (case_pgreply g1 g2 g3 g4 g5 g6 g7 g8 g9 g10 g11 x)"
  by (cases x) simp_all

lemma typed_off: "keeps pg m \<Longrightarrow> preserves (db_ok ad) m"
  by (simp add: keeps_def preserves_def db_ok_def)

lemmas preserves_intros = preserves_return preserves_bind preserves_if preserves_option preserves_sum preserves_prod
  preserves_list preserves_pgreply preserves_bool preserves_goerr

declare preserves_intros [typed]

lemmas off_tables = uuid_New_keeps(3) spawn_keeps(3) rand_keeps(3,9) time_now_keeps sleep_keeps(3) http_Do_keeps(3)
  critical_keeps lru_keeps auth_keeps_pg GenerateKey_keeps(3) sends_keep_pg backoff_keeps(3) wait_or_done_keeps(2)
  Critical_keeps(2) Cache_keeps(2)

lemmas off_tables_typed [typed] = off_tables [THEN typed_off]

text \<open>A program with a result of which something is known.\<close>

lemma preserves_bind_valid:
  assumes "valid P m (\<lambda>x w. P w \<and> R x)" and "\<And>x. R x \<Longrightarrow> preserves P (f x)"
  shows "preserves P (State_Monad.bind m f)"
  using assms unfolding valid_def preserves_def by (fastforce split: prod.splits)

lemma GenerateKey_hash: "valid P (GenerateKey E) (\<lambda>x w. True \<and> (\<forall>p h. x = Inr (p, h) \<longrightarrow> length h = 64))"
  by (auto simp: valid_def GenerateKey_def HashKey_def Let_def split: prod.splits sum.splits)

lemma keep_valid: "preserves P m \<Longrightarrow> valid P m (\<lambda>x w. True \<and> R x) \<Longrightarrow> valid P m (\<lambda>x w. P w \<and> R x)"
  unfolding valid_def preserves_def by (fastforce split: prod.splits)

context deployment
begin

lemma DB_typed [typed]: "good_cmd c \<Longrightarrow> preserves (db_ok ad) (DB E c)"
proof (rule preservesI)
  fix w x w' assume c: "good_cmd c" and w: "db_ok ad w" and r: "run_state (DB E c) w = (x, w')"
  from DB_any [OF r] show "db_ok ad w'"
    using cmd_typed [OF _ c] w by (auto simp: db_ok_def)
qed

lemma store_typed [typed]:
  "preserves (db_ok ad) (GetAPIKeyByHash E h)" "preserves (db_ok ad) (GetAPIKeyByID E i)" "preserves (db_ok ad) (ListAPIKeys E)"
  "preserves (db_ok ad) (Store.ListMachines E ki)" "preserves (db_ok ad) (CountMachines E i)"
  "preserves (db_ok ad) (IsMachineRegistered E i a)" "preserves (db_ok ad) (GetMaxMachines E i)"
  "preserves (db_ok ad) (ListActiveSymbols E)" "preserves (db_ok ad) (ListAllSymbols E)"
  "preserves (db_ok ad) (Store.ListSignals E l ofs)" "preserves (db_ok ad) (GetSubscriberByID E i)"
  "preserves (db_ok ad) (ListActiveSubscribers E)" "preserves (db_ok ad) (ListAllSubscribers E)"
  "preserves (db_ok ad) (Store.GetMetrics E)" "preserves (db_ok ad) (StorePing E)"
  unfolding store_query_defs by ((intro typed)+; simp add: good_cmd_def good_sql_def)+

lemma store_update_typed [typed]:
  "length h = 64 \<Longrightarrow> max_ok mx \<Longrightarrow> preserves (db_ok ad) (CreateAPIKey E h ow nt sc mx)"
  "preserves (db_ok ad) (SetAPIKeyStatus E i st)" "max_ok mx \<Longrightarrow> preserves (db_ok ad) (SetAPIKeyMaxMachines E i mx)"
  "preserves (db_ok ad) (TouchAPIKeyLastUsed E i)"
  "length h = 64 \<Longrightarrow> max_ok mx \<Longrightarrow> preserves (db_ok ad) (RotateAPIKey E i h ow nt sc mx at1)"
  "a \<noteq> [] \<Longrightarrow> preserves (db_ok ad) (InsertNewMachine E i a)"
  "preserves (db_ok ad) (Store.RemoveMachine E i a)"
  "preserves (db_ok ad) (TouchMachineLastSeen E i a)" "symbol_ok s \<Longrightarrow> preserves (db_ok ad) (Store.AddSymbol E s)"
  "preserves (db_ok ad) (Store.SetSymbolActive E s b)" "preserves (db_ok ad) (Store.DeleteSymbol E s)"
  "preserves (db_ok ad) (Store.CreateSubscriber E i ch cfg)" "preserves (db_ok ad) (Store.SetSubscriberActive E i b)"
  "ch \<in> set channels \<Longrightarrow> preserves (db_ok ad) (InsertDeliveryLog E i j ch)" "preserves (db_ok ad) (MarkDelivered E i)"
  "preserves (db_ok ad) (MarkFailed E i er)" "preserves (db_ok ad) (InsertDeadLetter E jp si er)"
  unfolding store_update_defs by ((intro typed)+; simp add: good_cmd_def good_sql_def)+

lemma RegisterMachine_typed [typed]: "a \<noteq> [] \<Longrightarrow> preserves (db_ok ad) (RegisterMachine E i a mx)"
  unfolding RegisterMachine_def by ((intro typed)+; simp add: good_cmd_def good_sql_def)

lemma InsertSignal_typed:
  assumes "0 < st_TicketID sg" and "0 \<le> st_Price sg" and "0 \<le> st_Lot sg" and "st_SourceKeyID sg = None"
    and "CHR ''.'' \<notin> set (st_Symbol sg)" and "ToUpper (st_Symbol sg) = st_Symbol sg"
  shows "preserves (db_ok ad) (InsertSignal E sg)"
  unfolding InsertSignal_def by ((intro typed)+; simp add: good_cmd_def good_sql_def assms)

end

context deployment
begin

lemma key_max_ok: "valid (db_ok ad) (GetAPIKeyByID E i) (\<lambda>x w. db_ok ad w \<and> (\<forall>k. x = Inr (Some k) \<longrightarrow> max_ok (MaxMachines k)))"
proof (rule validI)
  fix w x w' assume w: "db_ok ad w" and r: "run_state (GetAPIKeyByID E i) w = (x, w')"
  have "max_ok (MaxMachines k)" if x: "x = Inr (Some k)" for k
  proof -
    have "key_by_id i (ad (pg w)) = Some k" using GetAPIKeyByID_value [OF r [unfolded x]] by simp
    then obtain row rows where f: "filter (\<lambda>r. kr_id r = i) (api_keys (ad (pg w))) = row # rows" and k: "k = scan_key_row row"
      by (auto simp: key_by_id_def first_key_def split: list.splits)
    have "row \<in> set (filter (\<lambda>r. kr_id r = i) (api_keys (ad (pg w))))" unfolding f by simp
    with k show ?thesis using w by (auto simp: db_ok_def tables_ok_def keys_ok_def key_row_ok_def scan_key_row_def)
  qed
  then show "db_ok ad w' \<and> (\<forall>k. x = Inr (Some k) \<longrightarrow> max_ok (MaxMachines k))"
    using preservesD [OF store_typed(2) r w] by blast
qed

lemma GenerateKey_typed: "valid (db_ok ad) (GenerateKey E) (\<lambda>x w. db_ok ad w \<and> (\<forall>p h. x = Inr (p, h) \<longrightarrow> length h = 64))"
  by (rule keep_valid [OF typed_off [OF GenerateKey_keeps(3)] GenerateKey_hash])

lemma IssueKey_typed: "preserves (db_ok ad) (IssueKey E r)"
  unfolding IssueKey_def Let_def
  by (intro preserves_option preserves_if preserves_return preserves_bind_valid [OF GenerateKey_typed] preserves_sum preserves_prod
      preserves_bind store_update_typed(1)) (auto simp: max_ok_def split: option.splits)

lemma RotateKey_typed: "preserves (db_ok ad) (RotateKey E r)"
  unfolding RotateKey_def Let_def
  by (intro preserves_option preserves_return preserves_bind_valid [OF key_max_ok] preserves_bind_valid [OF GenerateKey_typed]
      preserves_sum preserves_prod preserves_bind typed_off [OF time_now_keeps] store_update_typed(5)) auto

lemma SetKeyMaxMachines_typed: "preserves (db_ok ad) (SetKeyMaxMachines E r)"
  unfolding SetKeyMaxMachines_def
  by ((intro typed)+; auto simp: max_ok_def split: option.splits)

lemma admin_typed: "preserves (db_ok ad) (admin_handler E ep r)"
proof -
  have "preserves (db_ok ad) (ListKeys E)" "preserves (db_ok ad) (SetKeyStatus E r)" "preserves (db_ok ad) (ListAllMachines E)"
    "preserves (db_ok ad) (ListKeyMachines E r)" "preserves (db_ok ad) (Admin.RemoveMachine E r)"
    unfolding key_admin_defs Let_def by (intro typed)+
  moreover have "preserves (db_ok ad) (Admin.CreateSubscriber E r)" "preserves (db_ok ad) (ListSubscribers E)"
    "preserves (db_ok ad) (Admin.SetSubscriberActive E r)" "preserves (db_ok ad) (ListSymbols E)"
    "preserves (db_ok ad) (Admin.AddSymbol E r)" "preserves (db_ok ad) (Admin.SetSymbolActive E r)"
    "preserves (db_ok ad) (Admin.DeleteSymbol E r)" "preserves (db_ok ad) (Admin.GetMetrics E)"
    "preserves (db_ok ad) (Admin.ListSignals E r)"
    unfolding other_admin_defs Let_def by ((intro typed)+; simp add: symbol_ok_def)+
  ultimately show ?thesis
    using IssueKey_typed RotateKey_typed SetKeyMaxMachines_typed by (cases ep) (simp_all add: preserves_return)
qed

lemma AcceptSignal_typed:
  assumes "validate sg0 = Inr ()" and "sg = sg0\<lparr>Symbol := normalizeSymbol (Symbol sg0)\<rparr>"
  shows "preserves (db_ok ad) (AcceptSignal E cfg sg)"
proof -
  have "preserves (db_ok ad) (InsertSignal E (store_signal sg))"
    by (rule InsertSignal_typed) (use assms normalizeSymbol_no_dot in \<open>auto simp: store_signal_def validate_ok\<close>)
  then show ?thesis unfolding AcceptSignal_def Let_def by (intro typed | assumption)+
qed

lemma Receive_typed: "preserves (db_ok ad) (Receive E cfg r)"
proof (rule preservesI)
  fix w resp w' assume w: "db_ok ad w" and r: "run_state (Receive E cfg r) w = (resp, w')"
  show "db_ok ad w'"
  proof (cases "\<exists>sg. admissible cfg (clock w) r sg")
    case True
    then obtain sg where sg: "admissible cfg (clock w) r sg" by blast
    then obtain sg0 where "validate sg0 = Inr ()" "sg = sg0\<lparr>Symbol := normalizeSymbol (Symbol sg0)\<rparr>" by (auto simp: admissible_def)
    from preservesD [OF AcceptSignal_typed [OF this], of cfg w resp w'] w r Receive_admissible [OF sg, of E] show ?thesis by simp
  next
    case False
    then show ?thesis using Receive_refused [OF r] w by simp
  qed
qed

lemma binding_typed [typed]: "preserves (db_ok ad) (CheckMachineBinding E ck a)"
proof -
  have d: "preserves (db_ok ad) (CheckMachineDB E ck i a)" if "a \<noteq> []" for i a
    unfolding CheckMachineDB_def Let_def by ((intro typed)+; simp add: that)
  show ?thesis unfolding CheckMachineBinding_def by (intro typed | rule d | assumption)+
qed

lemma ValidateKey_typed [typed]: "preserves (db_ok ad) (ValidateKey E cfg p)"
  unfolding ValidateKey_def ValidateKeyDB_def Let_def by (intro typed)+

lemma endpoint_typed: "preserves (db_ok ad) (endpoint_handler E cfg ep r)"
proof -
  have "preserves (db_ok ad) (Check E)" unfolding Check_def CacheLayer.Ping_def Let_def by (intro typed)+
  moreover have "preserves (db_ok ad) (Login E cfg r)" "preserves (db_ok ad) (Refresh E cfg r)"
    by (rule typed_off public_keep_pg)+
  moreover have "preserves (db_ok ad) (Logout E cfg r)" for r unfolding Logout_def Let_def by (intro typed)+
  moreover have "preserves (db_ok ad) (JWTMiddleware E cfg (\<lambda>_. h) r)" if "\<And>r. preserves (db_ok ad) (h r)" for h r
    unfolding JWTMiddleware_def Let_def by (intro typed that)+
  moreover have "preserves (db_ok ad) (APIKeyMiddleware E cfg sc (\<lambda>_ r. GetPending E r) r)" for sc r
    unfolding APIKeyMiddleware_def GetPending_def Let_def by (intro typed)+
  ultimately show ?thesis
    unfolding endpoint_handler_def using Receive_typed admin_typed by (auto intro!: preserves_if preserves_return)
qed

end

subsection \<open>The worker\<close>

context deployment
begin

lemma deliver_all_typed:
  assumes "ch \<in> set channels" and "\<And>s. keeps pg (send s)"
  shows "preserves (db_ok ad) (deliver_all E ch target send job ss e)"
  using assms(1)
  by (induction ss arbitrary: e) (auto intro!: preserves_intros store_update_typed typed_off [OF assms(2)])

lemma copy_all_typed: "preserves (db_ok ad) (copy_all E job ss e)"
  by (induction ss arbitrary: e) (auto intro!: preserves_intros store_update_typed simp: channels_def)

lemma handlers_typed:
  assumes "h \<in> set (con_handlers (worker_consumer E wcfg ncfg))"
  shows "preserves (db_ok ad) (h job)"
proof -
  have w: "keeps pg (if P then twilio E nc d m else if Q then callmebot E nc d m else ret x)" for P Q nc d m x
    by (intro keeps_if keeps_return sends_keep_pg)
  have "preserves (db_ok ad) (telegram_Handle E tk bu job)" "preserves (db_ok ad) (webhook_Handle E job)"
    "preserves (db_ok ad) (whatsapp_Handle E nc job)" "preserves (db_ok ad) (mt4copier_Handle E job)" for tk bu nc
    unfolding telegram_Handle_def webhook_Handle_def whatsapp_Handle_def mt4copier_Handle_def Let_def
    by ((intro typed deliver_all_typed copy_all_typed sends_keep_pg w; simp add: channels_def)+)
  then show ?thesis using assms by (auto simp: worker_consumer_def RegisterHandler_def NewConsumer_def)
qed

lemma run_handlers_typed:
  assumes "\<And>h. h \<in> set hs \<Longrightarrow> preserves (db_ok ad) (h job)"
  shows "preserves (db_ok ad) (run_handlers hs job e)"
  using assms by (induction hs arbitrary: e) (auto intro!: preserves_intros)

lemma round_typed: "preserves (db_ok ad) (consume_once E (worker_consumer E wcfg ncfg) ctx sy)"
proof -
  have "preserves (db_ok ad) (processJob E (worker_consumer E wcfg ncfg) ctx sy raw job)" for raw job
    unfolding processJob_def Let_def by (intro typed run_handlers_typed handlers_typed | assumption)+
  then show ?thesis unfolding consume_once_def Let_def by (intro typed | assumption)+
qed

lemma sync_typed: "preserves (db_ok ad) (sync E m)"
  unfolding sync_def load_def Let_def by (intro typed)+

lemma cleanup_typed: "preserves (db_ok ad) (reQueueStale E wcfg sy)"
proof -
  have "preserves (db_ok ad) (requeue_jobs E wcfg sy jobs)" for jobs
    by (induction jobs) (auto intro!: preserves_intros off_tables_typed)
  then show ?thesis unfolding reQueueStale_def by (intro typed | assumption)+
qed

lemma background_typed: "preserves (db_ok ad) (run_async E a)"
  by (cases a) (auto intro!: typed simp: good_cmd_def good_sql_def)

end

subsection \<open>Every reachable state\<close>

text \<open>
  The whole system: the server serves a request or runs a background update, a goroutine of the
  worker does a round of its loop, its manager syncs, a cleanup runs, or something else happens:
  time passes, a process restarts, the cache server does what it likes, the critical Redis loses
  what it had.
\<close>

definition loses :: "rview \<Rightarrow> rview \<Rightarrow> bool" where
  "loses v v' \<longleftrightarrow> (\<forall>k. set (rlst v' k) \<subseteq> set (rlst v k) \<and> (rstr v' k = rstr v k \<or> rstr v' k = None))"

inductive system_step :: "('r, 'l, 'd) env \<Rightarrow> ('r \<Rightarrow> rview) \<Rightarrow> AuthConfig \<Rightarrow> WorkerConfig \<Rightarrow> NotifyConfig
    \<Rightarrow> ('r, 'l, 'd) world \<Rightarrow> ('r, 'l, 'd) world \<Rightarrow> bool"
  for E ac cfg wcfg ncfg where
  Request: "run_state (serve E cfg r) w = (x, w') \<Longrightarrow> system_step E ac cfg wcfg ncfg w w'"
| Background: "run_state (run_async E a) w = (u, w') \<Longrightarrow> system_step E ac cfg wcfg ncfg w w'"
| Round: "run_state (consume_once E (worker_consumer E wcfg ncfg) ctx sy) w = (b, w') \<Longrightarrow> system_step E ac cfg wcfg ncfg w w'"
| Sync: "run_state (sync E m) w = (m', w') \<Longrightarrow> system_step E ac cfg wcfg ncfg w w'"
| Cleanup: "run_state (reQueueStale E wcfg sy) w = (u, w') \<Longrightarrow> system_step E ac cfg wcfg ncfg w w'"
| Elsewhere: "pg w' = pg w \<Longrightarrow> loses (ac (crit w)) (ac (crit w')) \<Longrightarrow> system_step E ac cfg wcfg ncfg w w'"

context deployment
begin

lemma typed_step:
  assumes "system_step E ac cfg wcfg ncfg w w'" and "db_ok ad w"
  shows "db_ok ad w'"
  using assms(1)
proof (cases rule: system_step.cases)
  case (Request r x)
  obtain resp l where x: "x = (resp, l)" by (cases x)
  show ?thesis
    using serve_cases [OF Request [unfolded x]] preservesD [OF endpoint_typed _ assms(2)] assms(2)
    by (auto split: option.splits)
next
  case (Background a u)
  then show ?thesis using preservesD [OF background_typed _ assms(2)] by blast
next
  case (Round ctx sy b)
  then show ?thesis using preservesD [OF round_typed _ assms(2)] by blast
next
  case (Sync m m')
  then show ?thesis using preservesD [OF sync_typed _ assms(2)] by blast
next
  case (Cleanup sy u)
  then show ?thesis using preservesD [OF cleanup_typed _ assms(2)] by blast
next
  case Elsewhere
  then show ?thesis using assms(2) by (simp add: db_ok_def)
qed

lemma typed_run: "(system_step E ac cfg wcfg ncfg)\<^sup>*\<^sup>* w w' \<Longrightarrow> db_ok ad w \<Longrightarrow> db_ok ad w'"
  by (induction rule: rtranclp_induct) (auto intro: typed_step)

end

lemma tables_ok_empty [simp]: "tables_ok empty_tables"
  by (simp add: tables_ok_def empty_tables_def keys_ok_def machines_ok_def symbols_ok_def signals_ok_def subs_ok_def log_ok_def)

text \<open>
  C4: The tables are well typed in every state of the system that starts from well-typed ones
  (from empty ones, say): the key hashes are 64 characters long and pairwise distinct, the statuses
  and channels are of the known ones, a machine limit is none or positive, a rotated key has both a
  successor and a time, and the successor exists; machines, subscribers and log rows point to rows
  that exist; watched symbols are trimmed and in capitals; a stored signal has a positive ticket, a
  known type and direction, no negative price or lot and no dot in its symbol; and a delivery that
  was tried has a count and a time, one that was not has neither.
\<close>

theorem tables_well_typed:
  assumes "deployment E ac al ad D" and "tables_ok (ad (pg w0))" and "(system_step E ac cfg wcfg ncfg)\<^sup>*\<^sup>* w0 w"
  shows "tables_ok (ad (pg w))"
  using deployment.typed_run [OF assms(1,3)] assms(2) by (simp add: db_ok_def)

definition signal_request :: request where
  "signal_request = (demo_post ''2026-01-01T00:00:00Z'' ''OPEN'' (27 / 20))\<lparr>rq_method := ''POST'', rq_path := ''/signal''\<rparr>"

lemma signal_request_served:
  "\<exists>x w d. run_state (serve calm_env demo_cfg signal_request) (calm_world empty_tables demo_time) = (x, w)
    \<and> map sr_symbol (signals (pg w)) = [''EURUSD''] \<and> rlst (crit w) (QueueKey ''EURUSD'') \<noteq> []
    \<and> live demo_time (crit w) (signalKey ''EURUSD'') = Some d"
proof -
  let ?r = "signal_request\<lparr>rq_value := path_value []\<rparr>" and ?w = "calm_world empty_tables demo_time"
  have a: "admissible demo_cfg (clock ?w) ?r (demo_signal ''OPEN'' (27 / 20))"
    using demo_admissible [of demo_time "''OPEN''" "27 / 20"]
    by (simp add: Second_def signal_types admissible_def signal_request_def demo_post_def bare_request_def Decode_def)
  have t: "0 \<le> DeduplicateTTL demo_cfg" by (simp add: demo_cfg_def Second_def)
  obtain resp w d where r: "run_state (Receive calm_env demo_cfg ?r) ?w = (resp, w)"
    and s: "signals (pg w) = [signal_row_of 1 demo_time (demo_signal ''OPEN'' (27 / 20))]"
    and q: "rlst (crit w) (QueueKey ''EURUSD'') \<noteq> []" and l: "live demo_time (crit w) (signalKey ''EURUSD'') = Some d"
    using calm.accepted_effect [OF reliable_crit_calm reliable_calm t a _ _ demo_job_ok] demo_row_fits [of 1]
    by (auto simp: empty_tables_def demo_signal_def)
  have "routed signal_request = Some (SignalIn, [])"
    by (simp add: routed_def signal_request_def demo_post_def bare_request_def clean_path_def path_segments_def routes_def
        method_matches_def HasPrefix_def)
  moreover obtain resp1 l1 w1 where r1: "run_state (serve calm_env demo_cfg signal_request) ?w = ((resp1, l1), w1)"
    by (metis surj_pair)
  ultimately have "w1 = w" using serve_cases [OF r1] r by (auto simp: endpoint_handler_def admin_endpoint_def)
  then show ?thesis using r1 s q l by (auto simp: signal_row_of_def demo_signal_def)
qed

theorem tables_well_typed_witness:
  "\<exists>x w. run_state (serve calm_env demo_cfg signal_request) (calm_world empty_tables demo_time) = (x, w)
    \<and> map sr_symbol (signals (pg w)) = [''EURUSD''] \<and> tables_ok (pg w)"
proof -
  obtain x w where r: "run_state (serve calm_env demo_cfg signal_request) (calm_world empty_tables demo_time) = (x, w)"
    and s: "map sr_symbol (signals (pg w)) = [''EURUSD'']" using signal_request_served by (elim exE conjE)
  have "(system_step calm_env id demo_cfg demo_worker demo_ncfg)\<^sup>*\<^sup>* (calm_world empty_tables demo_time) w"
    by (rule r_into_rtranclp) (rule system_step.Request [OF r])
  from tables_well_typed [OF calm_deployment _ this] r s show ?thesis by simp
qed

end
