(* ===== verification/Backoff.thy ===== *)
theory Backoff
  imports Queue
begin

text \<open>
  The waiting times of \<open>Consumer.backoff\<close>: what \<open>float64\<close> rounding does to the product and the
  sum, the exact value in range, and what is left of it out of range.
\<close>

subsection \<open>Rounding to 53 bits\<close>

lemma quotient_bits:
  assumes "0 < q" and "quotient_of q = (n, d)"
  shows "2 powi (int (bit_width (nat n)) - int (bit_width (nat d)) - 1) < q"
    and "q < 2 powi (int (bit_width (nat n)) - int (bit_width (nat d)) + 1)"
proof -
  have d: "0 < d" and q: "q = of_int n / of_int d"
    using quotient_of_denom_pos [OF assms(2)] quotient_of_div [OF assms(2)] by simp_all
  have n: "0 < n" using assms(1) d q by (simp add: zero_less_divide_iff)
  define a where "a = bit_width (nat n) - 1"
  define b where "b = bit_width (nat d) - 1"
  have ab: "bit_width (nat n) = Suc a" "bit_width (nat d) = Suc b"
    using bit_width_bounds [of "nat n"] bit_width_bounds [of "nat d"] n d by (auto simp: a_def b_def)
  have "2 ^ a \<le> nat n" "nat n < 2 ^ Suc a" "2 ^ b \<le> nat d" "nat d < 2 ^ Suc b"
    using bit_width_bounds [of "nat n"] bit_width_bounds [of "nat d"] n d ab by auto
  then have "of_nat (2 ^ a) \<le> (of_nat (nat n) :: rat)" "of_nat (nat n) < (of_nat (2 ^ Suc a) :: rat)"
    "of_nat (2 ^ b) \<le> (of_nat (nat d) :: rat)" "of_nat (nat d) < (of_nat (2 ^ Suc b) :: rat)"
    by (simp_all only: of_nat_le_iff of_nat_less_iff)
  then have bn: "2 ^ a \<le> (of_int n :: rat)" "of_int n < (2 ^ Suc a :: rat)"
    and bd: "2 ^ b \<le> (of_int d :: rat)" "of_int d < (2 ^ Suc b :: rat)"
    using n d by (simp_all add: of_nat_nat)
  have e: "2 powi (int (Suc a) - int (Suc b) - 1) = (2 ^ a / 2 ^ Suc b :: rat)"
    "2 powi (int (Suc a) - int (Suc b) + 1) = (2 ^ Suc a / 2 ^ b :: rat)"
    by (simp_all add: power_int_diff power_int_add)
  show "2 powi (int (bit_width (nat n)) - int (bit_width (nat d)) - 1) < q"
    unfolding ab e(1) q using bn(1) bd d by (intro frac_less2) simp_all
  show "q < 2 powi (int (bit_width (nat n)) - int (bit_width (nat d)) + 1)"
    unfolding ab e(2) q using bn bd n by (intro frac_less) simp_all
qed

text \<open>The scaled significand has exactly 53 bits.\<close>

lemma round_float_scaled:
  assumes "0 < q"
  obtains s m l where "round_float q = of_int (round_even m l) * 2 powi s" and "quotient_of (q / 2 powi s) = (m, l)"
    and "2 ^ 52 \<le> q / 2 powi s" and "q / 2 powi s < 2 ^ 53"
proof -
  obtain n d where nd: "quotient_of q = (n, d)" by (metis surj_pair)
  define e where "e = int (bit_width (nat n)) - int (bit_width (nat d)) - 53"
  define s where "s = (if q / (2 powi e) < 2 ^ 53 then e else e + 1)"
  obtain m l where ml: "quotient_of (q / 2 powi s) = (m, l)" by (metis surj_pair)
  have r: "round_float q = of_int (round_even m l) * 2 powi s"
    unfolding round_float_def nd using assms ml unfolding Let_def prod.case e_def [symmetric] s_def [symmetric]
    by simp
  have lo: "2 ^ 52 < q / 2 powi e"
  proof -
    have "2 powi (e + 52) = 2 powi e * (2 powi 52 :: rat)" by (simp add: power_int_add)
    then show ?thesis using quotient_bits(1) [OF assms nd] by (simp add: e_def field_simps)
  qed
  have hi: "q / 2 powi e < 2 ^ 54"
  proof -
    have "2 powi (e + 54) = 2 powi e * (2 powi 54 :: rat)" by (simp add: power_int_add)
    then show ?thesis using quotient_bits(2) [OF assms nd] by (simp add: e_def field_simps)
  qed
  have "q / 2 powi (e + 1) = q / 2 powi e / 2" by (simp add: power_int_add)
  then have "2 ^ 52 \<le> q / 2 powi s \<and> q / 2 powi s < 2 ^ 53"
    using lo hi by (auto simp: s_def)
  with r ml show ?thesis using that by blast
qed

lemma round_even_bounds:
  assumes "quotient_of x = (m, l)"
  shows "\<lfloor>x\<rfloor> \<le> round_even m l" and "round_even m l \<le> \<lfloor>x\<rfloor> + 1" and "of_int \<lfloor>x\<rfloor> = x \<Longrightarrow> round_even m l = \<lfloor>x\<rfloor>"
proof -
  have l: "0 < l" and x: "x = of_int m / of_int l"
    using quotient_of_denom_pos [OF assms] quotient_of_div [OF assms] by simp_all
  have f: "\<lfloor>x\<rfloor> = m div l" unfolding x by (rule floor_divide_of_int_eq)
  show "\<lfloor>x\<rfloor> \<le> round_even m l" "round_even m l \<le> \<lfloor>x\<rfloor> + 1"
    by (simp_all add: f round_even_def Let_def)
  assume i: "of_int \<lfloor>x\<rfloor> = x"
  have "of_int (m div l) * of_int l = x * of_int l" using i f by simp
  also have "\<dots> = of_int m" using x l by simp
  finally have "of_int (m div l) * of_int l = (of_int m :: rat)" .
  then have "m div l * l = m" by (metis of_int_eq_iff of_int_mult)
  then have "m mod l = 0" by (metis minus_div_mult_eq_mod diff_self)
  then show "round_even m l = \<lfloor>x\<rfloor>" using l by (simp add: f round_even_def)
qed

lemma round_float_int:
  assumes "0 \<le> n" and "n \<le> 2 ^ 53"
  shows "round_float (of_int n) = of_int n"
proof (cases "n = 0")
  case False
  let ?q = "of_int n :: rat"
  have q: "0 < ?q" using False assms(1) by simp
  obtain s m l where r: "round_float ?q = of_int (round_even m l) * 2 powi s" and ml: "quotient_of (?q / 2 powi s) = (m, l)"
    and lo: "2 ^ 52 \<le> ?q / 2 powi s" by (rule round_float_scaled [OF q])
  have le: "?q \<le> 2 ^ 53" using assms(2) by (metis of_int_le_iff of_int_numeral of_int_power)
  have "2 ^ 52 * 2 powi s \<le> ?q" using lo by (simp add: field_simps)
  then have p: "2 powi s \<le> (2 :: rat)" using le by simp
  have "s \<le> 1"
  proof (rule ccontr)
    assume "\<not> s \<le> 1"
    then have "2 powi 2 \<le> (2 powi s :: rat)" by (intro power_int_increasing) simp_all
    with p show False by simp
  qed
  have "\<exists>k. ?q / 2 powi s = of_int k"
  proof (cases "s = 1")
    case True
    then have "?q = 2 ^ 53" using lo le by simp
    then show ?thesis using True by (intro exI [of _ "2 ^ 52"]) simp
  next
    case no: False
    with \<open>s \<le> 1\<close> have "2 powi s = (1 / 2 ^ nat (- s) :: rat)"
      by (simp add: power_int_def inverse_eq_divide power_one_over)
    then show ?thesis by (intro exI [of _ "n * 2 ^ nat (- s)"]) simp
  qed
  then have i: "of_int \<lfloor>?q / 2 powi s\<rfloor> = ?q / 2 powi s" by auto
  have "round_float ?q = ?q / 2 powi s * 2 powi s" unfolding r round_even_bounds(3) [OF ml i] i ..
  then show ?thesis by simp
qed (simp add: round_float_def)

lemma round_float_ge:
  assumes "2 powi k \<le> q"
  shows "2 powi k \<le> round_float q"
proof -
  have q: "0 < q" by (rule less_le_trans [OF _ assms]) simp
  obtain s m l where r: "round_float q = of_int (round_even m l) * 2 powi s" and ml: "quotient_of (q / 2 powi s) = (m, l)"
    and lo: "2 ^ 52 \<le> q / 2 powi s" and hi: "q / 2 powi s < 2 ^ 53" by (rule round_float_scaled [OF q])
  have "of_int (2 ^ 52) \<le> q / 2 powi s" using lo by simp
  then have "2 ^ 52 \<le> round_even m l" using round_even_bounds(1) [OF ml] by (metis le_floor_iff order_trans)
  then have m: "of_int (2 ^ 52) * 2 powi s \<le> (of_int (round_even m l) * 2 powi s :: rat)"
    by (intro mult_right_mono) (simp_all only: of_int_le_iff, simp)
  have "k < s + 53"
  proof (rule ccontr)
    assume "\<not> k < s + 53"
    then have "2 powi (s + 53) \<le> (2 powi k :: rat)" by (intro power_int_increasing) simp_all
    moreover have "q < 2 powi (s + 53)" using hi by (simp add: power_int_add field_simps)
    ultimately show False using assms by simp
  qed
  then have "2 powi k \<le> (2 powi (s + 52) :: rat)" by (intro power_int_increasing) simp_all
  also have "\<dots> = of_int (2 ^ 52) * 2 powi s" by (simp add: power_int_add)
  finally show ?thesis unfolding r using m by (rule order_trans)
qed

lemma round_float_le:
  assumes "0 < q" and "q < 2 powi k"
  shows "round_float q \<le> 2 powi k"
proof -
  obtain s m l where r: "round_float q = of_int (round_even m l) * 2 powi s" and ml: "quotient_of (q / 2 powi s) = (m, l)"
    and lo: "2 ^ 52 \<le> q / 2 powi s" and hi: "q / 2 powi s < 2 ^ 53" by (rule round_float_scaled [OF assms(1)])
  have "\<lfloor>q / 2 powi s\<rfloor> < 2 ^ 53" using hi by (simp add: floor_less_iff)
  then have "round_even m l \<le> 2 ^ 53" using round_even_bounds(2) [OF ml] by linarith
  then have m: "of_int (round_even m l) * 2 powi s \<le> (of_int (2 ^ 53) * 2 powi s :: rat)"
    by (intro mult_right_mono) (simp_all only: of_int_le_iff, simp)
  have "s + 52 < k"
  proof (rule ccontr)
    assume "\<not> s + 52 < k"
    then have "2 powi k \<le> (2 powi (s + 52) :: rat)" by (intro power_int_increasing) simp_all
    moreover have "2 powi (s + 52) \<le> q" using lo by (simp add: power_int_add field_simps)
    ultimately show False using assms(2) by simp
  qed
  then have k: "2 powi (s + 53) \<le> (2 powi k :: rat)" by (intro power_int_increasing) simp_all
  have "of_int (2 ^ 53) * 2 powi s = (2 powi (s + 53) :: rat)" by (simp add: power_int_add)
  then show ?thesis unfolding r using m k by (metis order_trans)
qed

subsection \<open>Waiting times\<close>

lemma round_signed_pos: "0 \<le> q \<Longrightarrow> round_signed q = round_float q"
  by (simp add: round_signed_def)

lemma backoff_run:
  assumes "0 \<le> BaseBackoff c" and "BaseBackoff c \<le> 2 ^ 53" and "0 \<le> attempt"
  shows "fst (run_state (backoff E c attempt) w) = min (MaxBackoff c) (float_int E (round_float (of_int
    (BaseBackoff c * 2 ^ nat attempt + int (rand_int E (seed w) mod 500) * Millisecond))))"
proof -
  have f: "float_of_int (BaseBackoff c) = BaseBackoff c"
    using assms(1,2) by (intro float_of_int_exact) simp
  have p: "2 powi attempt = (of_int (2 ^ nat attempt) :: rat)"
    using assms(3) by (simp add: power_int_def)
  have "0 \<le> (of_int (BaseBackoff c * 2 ^ nat attempt + int (rand_int E (seed w) mod 500) * Millisecond) :: rat)"
    using assms(1) by (simp only: of_int_0_le_iff) (simp add: Millisecond_def)
  then show ?thesis
    by (simp add: backoff_def rand_Intn_def f p round_signed_pos min_def Let_def)
qed

text \<open>
  The waiting time before a retry is the base time doubled with every attempt, plus a jitter of
  0 to 499 milliseconds, and at most MaxBackoff, exactly, although it is computed in floating
  point: for base and maximum up to 2^53 nanoseconds (104 days) and a product below 2^62.
\<close>

theorem backoff_exponential:
  assumes "\<forall>q. 0 \<le> q \<longrightarrow> q < 2 ^ 63 \<longrightarrow> float_int E q = \<lfloor>q\<rfloor>"
    and "0 \<le> BaseBackoff c" and "BaseBackoff c \<le> 2 ^ 53" and "MaxBackoff c \<le> 2 ^ 53" and "0 \<le> attempt"
    and "BaseBackoff c * 2 ^ nat attempt + 499 * Millisecond < 2 ^ 62"
  shows "fst (run_state (backoff E c attempt) w)
    = min (MaxBackoff c) (BaseBackoff c * 2 ^ nat attempt + int (rand_int E (seed w) mod 500) * Millisecond)"
proof -
  define n where "n = BaseBackoff c * 2 ^ nat attempt + int (rand_int E (seed w) mod 500) * Millisecond"
  have r: "fst (run_state (backoff E c attempt) w) = min (MaxBackoff c) (float_int E (round_float (of_int n)))"
    unfolding n_def by (rule backoff_run [OF assms(2,3,5)])
  have "int (rand_int E (seed w) mod 500) \<le> 499" by simp
  then have n: "0 \<le> n" "n < 2 ^ 62"
    using assms(2,6) unfolding n_def Millisecond_def by (auto intro!: add_nonneg_nonneg mult_nonneg_nonneg)
  show ?thesis
  proof (cases "n \<le> 2 ^ 53")
    case True
    have "(of_int n :: rat) < of_int (2 ^ 63)" using n(2) unfolding of_int_less_iff by simp
    then have "float_int E (of_int n) = n" using assms(1) [rule_format, of "of_int n"] n(1) by simp
    then show ?thesis unfolding r n_def [symmetric] round_float_int [OF n(1) True] by simp
  next
    case False
    have "2 powi 53 = (of_int (2 ^ 53) :: rat)" "2 powi 62 = (of_int (2 ^ 62) :: rat)" by simp_all
    moreover have "0 < n" using False by (simp add: not_le)
    ultimately have "2 powi 53 \<le> (of_int n :: rat)" "of_int n < (2 powi 62 :: rat)" "0 < (of_int n :: rat)"
      using False n(2) by (simp_all only: of_int_le_iff of_int_less_iff of_int_0_less_iff)
    from round_float_ge [OF this(1)] round_float_le [OF this(3,2)]
    have b: "2 ^ 53 \<le> round_float (of_int n)" "round_float (of_int n) \<le> 2 ^ 62" by simp_all
    then have "float_int E (round_float (of_int n)) = \<lfloor>round_float (of_int n)\<rfloor>" using assms(1) by force
    moreover have "2 ^ 53 \<le> \<lfloor>round_float (of_int n)\<rfloor>" using b(1) by (simp add: le_floor_iff)
    ultimately show ?thesis unfolding r n_def [symmetric] using assms(4) False by linarith
  qed
qed

lemma amd64_in_range: "\<forall>q. 0 \<le> q \<longrightarrow> q < 2 ^ 63 \<longrightarrow> amd64_int q = \<lfloor>q\<rfloor>"
proof (intro allI impI)
  fix q :: rat assume q: "0 \<le> q" "q < 2 ^ 63"
  then have "0 \<le> \<lfloor>q\<rfloor>" "\<lfloor>q\<rfloor> < 2 ^ 63" by (simp_all add: floor_less_iff)
  then show "amd64_int q = \<lfloor>q\<rfloor>" using q(1) by (simp add: amd64_int_def in64_def min64_def max64_def Let_def)
qed

theorem backoff_exponential_witness:
  "fst (run_state (backoff calm_env demo_worker 3) (calm_world empty_tables 0)) = 8 * Second + Millisecond"
  using backoff_exponential [of calm_env demo_worker 3 "calm_world empty_tables 0"] amd64_in_range
  by (simp add: demo_worker_def duration_units)

text \<open>
  C40: On amd64 the waiting time is lost when the product leaves 64 bits: the conversion of the
  \<open>float64\<close> gives the least int64, which is below any maximum, and the wait ends at once.
\<close>

theorem backoff_overflow:
  assumes "float_int E = amd64_int" and "0 \<le> BaseBackoff c" and "BaseBackoff c \<le> 2 ^ 53" and "0 \<le> MaxBackoff c"
    and "0 \<le> attempt" and "2 ^ 63 \<le> BaseBackoff c * 2 ^ nat attempt" and "run_state (backoff E c attempt) w = (b, w1)"
  shows "b = min64 \<and> run_state (wait_or_done None b) w1 = (False, w1)"
proof -
  define n where "n = BaseBackoff c * 2 ^ nat attempt + int (rand_int E (seed w) mod 500) * Millisecond"
  have "2 ^ 63 \<le> n" unfolding n_def using assms(6) by (simp add: Millisecond_def)
  then have "of_int (2 ^ 63) \<le> (of_int n :: rat)" unfolding of_int_le_iff .
  then have "2 powi 63 \<le> (of_int n :: rat)" by simp
  from round_float_ge [OF this] have r: "2 ^ 63 \<le> round_float (of_int n)" by simp
  then have "2 ^ 63 \<le> \<lfloor>round_float (of_int n)\<rfloor>" by (simp add: le_floor_iff)
  then have "amd64_int (round_float (of_int n)) = min64"
    using r by (auto simp: amd64_int_def in64_def max64_def Let_def)
  then have "b = min64"
    using backoff_run [OF assms(2,3,5), of E w] assms(1,4,7) by (simp add: n_def min64_def)
  then show ?thesis by (simp add: wait_or_done_def ctx_done_def min64_def)
qed

theorem backoff_overflow_witness:
  "fst (run_state (backoff calm_env demo_worker 34) (calm_world empty_tables 0)) = min64"
proof -
  obtain b w1 where "run_state (backoff calm_env demo_worker 34) (calm_world empty_tables 0) = (b, w1)" by (metis surj_pair)
  from backoff_overflow [OF _ _ _ _ _ _ this] this show ?thesis
    by (simp add: demo_worker_def duration_units)
qed

end
