(* ===== verification/Traffic.thy ===== *)
theory Traffic
  imports Integrity Backoff
begin

text \<open>
  What the critical Redis always holds: a typing of the queues and of the published signals, which
  every step of the server and the worker keeps. A job waits only in the queue of its own symbol,
  and what is polled under a symbol is a valid signal of that symbol.
\<close>

subsection \<open>What a decoded signal guarantees\<close>

lemma assign_closed:
  "P old \<Longrightarrow> (\<And>x v y. P x \<Longrightarrow> d x v = Some y \<Longrightarrow> P y) \<Longrightarrow> assign d old vs = Some x \<Longrightarrow> P x"
  by (induction vs arbitrary: old) (auto split: bind_splits)

lemma field_closed:
  "field name d old obj = Some x \<Longrightarrow> P old \<Longrightarrow> (\<And>x v y. P x \<Longrightarrow> d x v = Some y \<Longrightarrow> P y) \<Longrightarrow> P x"
  unfolding field_def by (rule assign_closed)

lemma zone_num_minutes: "zone_num strict s = Some off \<Longrightarrow> off mod 60 = 0"
  by (auto simp: zone_num_def split: if_splits list.splits bind_splits prod.splits)

lemma parse_minutes: "parse_rfc3339 strict s = Some t \<Longrightarrow> zone t mod 60 = 0"
  by (auto simp: parse_rfc3339_def Let_def split: bind_splits prod.splits if_splits dest: zone_num_minutes)

lemma dec_time_minutes: "zone old mod 60 = 0 \<Longrightarrow> dec_time old v = Some t \<Longrightarrow> zone t mod 60 = 0"
  by (cases v) (auto dest: parse_minutes)

lemma dec_int_in64: "in64 old \<Longrightarrow> dec_int old v = Some n \<Longrightarrow> in64 n"
  by (cases v) (auto split: if_splits)

lemma in64_0 [simp]: "in64 0"
  by (simp add: in64_def min64_def max64_def)

lemma Unmarshal_signal_fits:
  assumes "Unmarshal_signal d = Some sg"
  shows "in64 (TicketID sg) \<and> zone (Timestamp sg) mod 60 = 0"
proof (cases d)
  case JNull
  then show ?thesis using assms by (auto simp: Unmarshal_signal_def dec_signal_def zero_signal_def zero_time_def)
next
  case (JObj obj)
  have "signal_fields zero_signal obj = Some sg" using assms JObj by (simp add: Unmarshal_signal_def dec_signal_def)
  then obtain tid ts where f: "field ''ticket_id'' dec_int (TicketID zero_signal) obj = Some tid"
      "field ''timestamp'' dec_time (Timestamp zero_signal) obj = Some ts" "TicketID sg = tid" "Timestamp sg = ts"
    by (auto simp: signal_fields_def split: bind_splits)
  have "in64 tid" by (rule field_closed [OF f(1)]) (auto simp: zero_signal_def intro: dec_int_in64)
  moreover have "zone ts mod 60 = 0"
    by (rule field_closed [OF f(2)], simp add: zero_signal_def zero_time_def, rule dec_time_minutes)
  ultimately show ?thesis using f by simp
qed (use assms in \<open>auto simp: Unmarshal_signal_def dec_signal_def\<close>)

subsection \<open>Typed texts\<close>

definition signal_typed :: "string \<Rightarrow> InboundSignal \<Rightarrow> bool" where
  "signal_typed sy s \<longleftrightarrow> Symbol s = sy \<and> CHR ''.'' \<notin> set sy \<and> ToUpper sy = sy \<and> 0 < TicketID s
     \<and> SignalType s \<in> {SignalOpen, SignalModify, SignalClose, SignalPartial} \<and> Direction s \<in> {''BUY'', ''SELL''}
     \<and> 0 < Price s \<and> 0 < Lot s \<and> time_ok (Timestamp s)"

definition job_typed :: "(string \<Rightarrow> uuid option) \<Rightarrow> string \<Rightarrow> json \<Rightarrow> bool" where
  "job_typed prs sy d \<longleftrightarrow> CHR ''.'' \<notin> set sy \<and> ToUpper sy = sy
     \<and> (\<forall>job. Unmarshal_job prs d = Some job \<longrightarrow> signal_typed sy (Signal job) \<and> time_ok (EnqueuedAt job))"

definition latest_typed :: "string \<Rightarrow> json \<Rightarrow> bool" where
  "latest_typed sy d \<longleftrightarrow> (\<exists>s. Unmarshal_signal d = Some s \<and> signal_typed sy s)"

lemma round_even_pos: "0 < l \<Longrightarrow> l \<le> m \<Longrightarrow> 0 < round_even m l"
  using pos_imp_zdiv_pos_iff [of l m] by (simp add: round_even_def Let_def)

lemma float_of_int_pos:
  assumes "0 < i"
  shows "0 < float_of_int i"
proof (cases "\<bar>i\<bar> \<le> 2 ^ 53")
  case False
  let ?s = "2 ^ (bit_width (nat \<bar>i\<bar>) - 53) :: int"
  have "2 ^ (bit_width (nat i) - 53) \<le> (2 :: nat) ^ (bit_width (nat i) - 1)" by (rule power_increasing) simp_all
  also have "\<dots> \<le> nat i" using bit_width_bounds [of "nat i"] assms by simp
  finally have "?s \<le> i" using assms by (simp add: le_nat_iff)
  then have "0 < round_even i ?s" by (intro round_even_pos) simp_all
  then show ?thesis using False assms by (simp add: float_of_int_def Let_def)
qed (use assms in \<open>simp add: float_of_int_def\<close>)

lemma float_pos:
  assumes "0 < x"
  shows "\<exists>y. dec_float old (json_float x) = Some y \<and> 0 < y"
proof -
  have "0 < float_of_int \<lfloor>x\<rfloor>" if "of_int \<lfloor>x\<rfloor> = x"
    using assms that by (intro float_of_int_pos) (metis of_int_0_less_iff)
  then show ?thesis using assms by (auto simp: json_float_def)
qed

lemma ptr_reads: "\<exists>y. dec_ptr 0 dec_float None (json_float x) = Some y"
  by (simp add: json_float_def)

lemma latest_typed_Marshal:
  assumes "Marshal_signal s = Some d" and "signal_typed sy s" and "in64 (TicketID s)"
  shows "\<exists>s'. dec_signal zero_signal d = Some s' \<and> signal_typed sy s'"
proof -
  obtain ts where ts: "json_time (Timestamp s) = Some ts" "dec_time zero_time ts = Some (Timestamp s)"
    using assms(1,2) dec_time_json_time by (auto simp: Marshal_signal_def signal_typed_def split: bind_splits)
  obtain p l where pl: "dec_float 0 (json_float (Price s)) = Some p" "0 < p" "dec_float 0 (json_float (Lot s)) = Some l" "0 < l"
    using float_pos [of "Price s" 0] float_pos [of "Lot s" 0] assms(2) by (auto simp: signal_typed_def)
  obtain a where a: "assign (dec_ptr 0 dec_float) None (case SL s of None \<Rightarrow> [] | Some x \<Rightarrow> [json_float x]) = Some a"
    using ptr_reads by (cases "SL s") fastforce+
  obtain b where b: "assign (dec_ptr 0 dec_float) None (case TP s of None \<Rightarrow> [] | Some x \<Rightarrow> [json_float x]) = Some b"
    using ptr_reads by (cases "TP s") fastforce+
  have "dec_signal zero_signal d = Some \<lparr>TicketID = TicketID s, SignalType = SignalType s, Symbol = Symbol s,
      Direction = Direction s, Price = p, SL = a, TP = b, Lot = l, Timestamp = Timestamp s\<rparr>"
    using assms(1,3) ts pl a b
    by (auto simp: Marshal_signal_def dec_signal_def signal_fields_def field_def key_match_def zero_signal_def)
  then show ?thesis using assms(2) pl by (simp add: signal_typed_def)
qed

context uuid_text
begin

lemma job_typed_Marshal:
  assumes "Marshal_job str job = Some d" and "signal_typed sy (Signal job)" and "in64 (TicketID (Signal job))"
    and "in64 (Attempts job)" and "time_ok (EnqueuedAt job)"
  shows "job_typed prs sy d"
proof -
  obtain sg ea where sg: "Marshal_signal (Signal job) = Some sg" and ea: "json_time (EnqueuedAt job) = Some ea"
    using assms(1) by (auto simp: Marshal_job_def split: bind_splits)
  obtain s where s: "dec_signal zero_signal sg = Some s" "signal_typed sy s"
    using latest_typed_Marshal [OF sg assms(2,3)] by blast
  have "dec_time zero_time ea = Some (EnqueuedAt job)" by (rule dec_time_json_time [OF assms(5) ea])
  then have "Unmarshal_job prs d = Some \<lparr>JobID = JobID job, SignalID = SignalID job, Signal = s, Attempts = Attempts job,
      EnqueuedAt = EnqueuedAt job\<rparr>"
    using assms(1,4) sg ea s(1)
    by (auto simp: Marshal_job_def Unmarshal_job_def job_fields_def field_def key_match_def parse_string zero_job_def)
  then show ?thesis using s(2) assms(2,5) by (simp add: job_typed_def signal_typed_def)
qed

end

subsection \<open>The typing of the critical Redis\<close>

definition redis_typed :: "(string \<Rightarrow> uuid option) \<Rightarrow> rview \<Rightarrow> bool" where
  "redis_typed prs v \<longleftrightarrow>
     (\<forall>sy d. d \<in> set (rlst v (QueueKey sy)) \<union> set (rlst v (ProcessingKey sy)) \<longrightarrow> job_typed prs sy d)
   \<and> (\<forall>sy d e. rstr v (signalKey sy) = Some (d, e) \<longrightarrow> latest_typed sy d)"

lemma redis_typed_empty [simp]: "redis_typed prs empty_rview"
  by (simp add: redis_typed_def empty_rview_def)

text \<open>The commands that keep it.\<close>

definition good_rcmd :: "(string \<Rightarrow> uuid option) \<Rightarrow> rcmd \<Rightarrow> bool" where
  "good_rcmd prs c = (case c of
       SET k d ttl \<Rightarrow> (\<forall>sy. k = signalKey sy \<longrightarrow> latest_typed sy d)
     | SETNX k d ttl \<Rightarrow> (\<forall>sy. k \<noteq> signalKey sy)
     | INCR k \<Rightarrow> (\<forall>sy. k \<noteq> signalKey sy)
     | EXPIRE k ttl \<Rightarrow> (\<forall>sy. k \<noteq> signalKey sy)
     | LPUSH k d \<Rightarrow> (\<forall>sy. (k = QueueKey sy \<longrightarrow> job_typed prs sy d) \<and> k \<noteq> ProcessingKey sy)
     | RPOPLPUSH a b \<Rightarrow> (\<exists>sy. a = QueueKey sy \<and> b = ProcessingKey sy)
     | _ \<Rightarrow> True)"

lemma signalKey_eq [simp]: "signalKey s = signalKey t \<longleftrightarrow> s = t"
  by (simp add: signalKey_def)

lemma redis_typed_loses: "redis_typed prs v \<Longrightarrow> loses v v' \<Longrightarrow> redis_typed prs v'"
  unfolding redis_typed_def loses_def by (metis Un_iff option.simps(3) subsetD)

lemma purge_loses: "purge now v v' \<Longrightarrow> loses v v'"
  by (auto simp: purge_def loses_def)

lemma redis_step_typed:
  assumes t: "redis_typed prs v" and "good_rcmd prs c"
  shows "redis_typed prs (snd (redis_step now c v))"
proof -
  have q: "d \<in> set (rlst v (QueueKey sy)) \<Longrightarrow> job_typed prs sy d" "d \<in> set (rlst v (ProcessingKey sy)) \<Longrightarrow> job_typed prs sy d"
    "rstr v (signalKey sy) = Some (d, e) \<Longrightarrow> latest_typed sy d" for sy d e
    using t by (auto simp: redis_typed_def)
  show ?thesis
  proof (cases c)
    case (RPOPLPUSH a b)
    then obtain sy where ab: "a = QueueKey sy" "b = ProcessingKey sy" using assms(2) by (auto simp: good_rcmd_def)
    have "rlst v a \<noteq> [] \<Longrightarrow> last (rlst v a) \<in> set (rlst v (QueueKey sy))" by (simp add: ab)
    then show ?thesis
      using q RPOPLPUSH ab by (auto simp: redis_typed_def Let_def dest: in_set_butlastD)
  next
    case (LPUSH k d)
    then show ?thesis using q assms(2) by (auto simp: redis_typed_def good_rcmd_def)
  next
    case (LREM k d)
    then show ?thesis using q by (auto simp: redis_typed_def dest: set_remove1_subset [THEN subsetD])
  qed (use t assms(2) in \<open>auto simp: redis_typed_def good_rcmd_def unset_def split: option.splits json.splits if_splits\<close>)
qed

lemma redis_ok_typed:
  assumes "redis_typed prs v" and "good_rcmd prs c" and "redis_ok now c v x v'"
  shows "redis_typed prs v'"
proof (cases "is_scan c")
  case True
  then show ?thesis using assms redis_typed_loses [OF assms(1) purge_loses]
    by (cases c) (auto simp: redis_ok_def redis_exec_def is_scan_def)
next
  case False
  then obtain u where "u = snd (redis_step now c v)" "purge now u v'"
    using assms(3) by (auto simp: redis_ok_def redis_exec_not_scan) (metis snd_conv)
  then show ?thesis using redis_step_typed [OF assms(1,2)] redis_typed_loses purge_loses by blast
qed

definition crit_ok :: "('r, 'l, 'd) env \<Rightarrow> ('r \<Rightarrow> rview) \<Rightarrow> ('r, 'l, 'd) world \<Rightarrow> bool" where
  "crit_ok E ac w \<longleftrightarrow> redis_typed (uuid_prs E) (ac (crit w))"

named_theorems fed \<open>introduction rules for \<open>preserves (crit_ok E ac)\<close>\<close>

lemma fed_off: "keeps crit m \<Longrightarrow> preserves (crit_ok E ac) m"
  by (simp add: keeps_def preserves_def crit_ok_def)

declare preserves_intros [fed]

context deployment
begin

lemma Critical_fed: "good_rcmd (uuid_prs E) c \<Longrightarrow> preserves (crit_ok E ac) (Critical E c)"
proof (rule preservesI)
  fix w x w' assume c: "good_rcmd (uuid_prs E) c" and w: "crit_ok E ac w" and r: "run_state (Critical E c) w = (x, w')"
  show "crit_ok E ac w'"
    using Critical_err [OF r] redis_ok_typed [OF _ c] w by (auto simp: crit_ok_def)
qed

lemma critical_fed [fed]:
  "preserves (crit_ok E ac) (GetLatestSignal E sy)" "preserves (crit_ok E ac) (SetDedup E i ty d)"
  "preserves (crit_ok E ac) (DequeueJob E sy tm)" "preserves (crit_ok E ac) (AckJob E sy j)"
  "preserves (crit_ok E ac) (MoveToDeadLetter E sy j)" "preserves (crit_ok E ac) (GetAllProcessingJobs E sy)"
  "preserves (crit_ok E ac) (DeadLetterDepth E)" "preserves (crit_ok E ac) (SetSymbolList E ss d)"
  "preserves (crit_ok E ac) (GetSymbolList E)" "preserves (crit_ok E ac) (InvalidateSymbolList E)"
  unfolding critical_defs pipe2_def
  by (intro fed Critical_fed fed_off [OF sleep_keeps(1)];
      simp add: good_rcmd_def dedupKey_def signalKey_def symbolCacheKey_def QueueKey_def ProcessingKey_def DeadLetterKey_def)+

lemma push_fed:
  "(\<And>b. Marshal (json_text E) p = Inr b \<Longrightarrow> job_typed (uuid_prs E) sy b) \<Longrightarrow> preserves (crit_ok E ac) (EnqueueJob E sy p)"
  "job_typed (uuid_prs E) sy j \<Longrightarrow> preserves (crit_ok E ac) (NackJob E sy j)"
  "(\<And>b. Marshal (json_text E) p = Inr b \<Longrightarrow> latest_typed sy b) \<Longrightarrow> preserves (crit_ok E ac) (SetLatestSignal E sy p)"
  unfolding critical_defs pipe2_def
  by (intro fed Critical_fed; auto simp: good_rcmd_def)+

end

subsection \<open>What is taken out\<close>

context deployment
begin

lemma dequeued_typed:
  "valid (crit_ok E ac) (DequeueJob E sy tm) (\<lambda>x w. crit_ok E ac w \<and> (\<forall>d. x = Inr (Some d) \<longrightarrow> job_typed (uuid_prs E) sy d))"
proof (rule validI)
  fix w x w' assume w: "crit_ok E ac w" and r: "run_state (DequeueJob E sy tm) w = (x, w')"
  have "job_typed (uuid_prs E) sy d" if d: "x = Inr (Some d)" for d
  proof -
    obtain w1 where c: "run_state (Critical E (RPOPLPUSH (QueueKey sy) (ProcessingKey sy))) w = (Inr (RBulk d), w1)"
      using r d by (auto simp: DequeueJob_def bytes_or_nil_def split: prod.splits sum.splits rreply.splits if_splits)
    have "RBulk d = fst (redis_step (clock w) (RPOPLPUSH (QueueKey sy) (ProcessingKey sy)) (ac (crit w)))"
      by (rule redis_okD(1) [OF Critical_ok [OF c]]) simp
    then have "d \<in> set (rlst (ac (crit w)) (QueueKey sy))" by (auto simp: Let_def split: if_splits)
    then show ?thesis using w by (auto simp: crit_ok_def redis_typed_def)
  qed
  then show "crit_ok E ac w' \<and> (\<forall>d. x = Inr (Some d) \<longrightarrow> job_typed (uuid_prs E) sy d)"
    using preservesD [OF critical_fed(3) r w] by blast
qed

lemma processing_typed:
  "valid (crit_ok E ac) (GetAllProcessingJobs E sy) (\<lambda>x w. crit_ok E ac w \<and> (\<forall>ds. x = Inr ds \<longrightarrow> (\<forall>d \<in> set ds. job_typed (uuid_prs E) sy d)))"
proof (rule validI)
  fix w x w' assume w: "crit_ok E ac w" and r: "run_state (GetAllProcessingJobs E sy) w = (x, w')"
  have "job_typed (uuid_prs E) sy d" if d: "x = Inr ds" "d \<in> set ds" for d ds
  proof -
    obtain y where c: "run_state (Critical E (LRANGE (ProcessingKey sy))) w = (Inr y, w')" and y: "y = RList ds \<or> ds = []"
      using r d(1) by (auto simp: GetAllProcessingJobs_def split: prod.splits sum.splits rreply.splits)
    have "y = fst (redis_step (clock w) (LRANGE (ProcessingKey sy)) (ac (crit w)))"
      by (rule redis_okD(1) [OF Critical_ok [OF c]]) simp
    then have "d \<in> set (rlst (ac (crit w)) (ProcessingKey sy))" using y d(2) by auto
    then show ?thesis using w by (auto simp: crit_ok_def redis_typed_def)
  qed
  then show "crit_ok E ac w' \<and> (\<forall>ds. x = Inr ds \<longrightarrow> (\<forall>d \<in> set ds. job_typed (uuid_prs E) sy d))"
    using preservesD [OF critical_fed(6) r w] by blast
qed

lemma latest_read:
  assumes "crit_ok E ac w" and "run_state (GetLatestSignal E sy) w = (Inr (Some d), w')"
  shows "latest_typed sy d"
proof -
  obtain y where c: "run_state (Critical E (GET (signalKey sy))) w = (Inr (RBulk d), y)"
    using assms(2) by (auto simp: GetLatestSignal_def bytes_or_nil_def split: prod.splits sum.splits rreply.splits)
  have "RBulk d = fst (redis_step (clock w) (GET (signalKey sy)) (ac (crit w)))"
    by (rule redis_okD(1) [OF Critical_ok [OF c]]) simp
  then have "live (clock w) (ac (crit w)) (signalKey sy) = Some d" by (simp split: option.splits)
  then obtain e where "rstr (ac (crit w)) (signalKey sy) = Some (d, e)" by (auto simp: live_def split: option.splits if_splits)
  then show ?thesis using assms(1) by (simp add: crit_ok_def redis_typed_def)
qed

end

subsection \<open>The handlers and the worker\<close>

context deployment
begin

lemma accepted_typed:
  assumes "admissible cfg now r sg"
  shows "in64 (TicketID sg) \<and> zone (Timestamp sg) mod 60 = 0 \<and> (time_ok (Timestamp sg) \<longrightarrow> signal_typed (Symbol sg) sg)"
proof -
  obtain sg0 where sg: "Option.bind (rq_body r) Unmarshal_signal = Some sg0" "validate sg0 = Inr ()"
    "sg = sg0\<lparr>Symbol := normalizeSymbol (Symbol sg0)\<rparr>" using assms by (auto simp: admissible_def)
  then obtain d where "Unmarshal_signal d = Some sg0" by (cases "rq_body r") auto
  from Unmarshal_signal_fits [OF this] sg show ?thesis
    using normalizeSymbol_no_dot by (auto simp: signal_typed_def validate_ok)
qed

lemma Marshal_time: "Marshal_signal sg = Some d \<Longrightarrow> zone (Timestamp sg) mod 60 = 0 \<Longrightarrow> time_ok (Timestamp sg)"
  by (auto simp: Marshal_signal_def time_ok_def json_time_def split: bind_splits)

lemma AcceptSignal_fed:
  assumes "admissible cfg now r sg"
  shows "preserves (crit_ok E ac) (AcceptSignal E cfg' sg)"
proof -
  note a = accepted_typed [OF assms]
  have "latest_typed (Symbol sg) b" if "Marshal (json_text E) (Struct (Marshal_signal sg)) = Inr b" for b
  proof -
    have m: "Marshal_signal sg = Some b" using that by (cases "Marshal_signal sg") simp_all
    with a Marshal_time show ?thesis
      using latest_typed_Marshal [OF m] by (auto simp: latest_typed_def Unmarshal_signal_def)
  qed
  moreover have "job_typed (uuid_prs E) (Symbol sg) b"
    if "Marshal (json_text E) (Struct (Marshal_job (uuid_str E)
      \<lparr>JobID = j, SignalID = i, Signal = sg, Attempts = 0, EnqueuedAt = \<lparr>inst = t, zone = 0\<rparr>\<rparr>)) = Inr b" for b j i t
  proof -
    let ?job = "\<lparr>JobID = j, SignalID = i, Signal = sg, Attempts = 0, EnqueuedAt = \<lparr>inst = t, zone = 0\<rparr>\<rparr>"
    have m: "Marshal_job (uuid_str E) ?job = Some b" using that by (cases "Marshal_job (uuid_str E) ?job") simp_all
    then have "time_ok \<lparr>inst = t, zone = 0\<rparr>" "\<exists>d. Marshal_signal sg = Some d"
      by (auto simp: Marshal_job_def time_ok_def json_time_def split: bind_splits)
    with a Marshal_time show ?thesis by (intro ids.job_typed_Marshal [OF m]) auto
  qed
  ultimately show ?thesis
    unfolding AcceptSignal_def Let_def
    by (intro fed push_fed fed_off [OF store_update_keeps(13) [OF off_pg_proj(1)]] fed_off [OF uuid_New_keeps(1)]
        fed_off [OF time_now_keeps])
qed

end

lemmas off_crit = uuid_New_keeps(1) spawn_keeps(1) rand_keeps(1,7) time_now_keeps sleep_keeps(1) http_Do_keeps(1) DB_keeps(1)
  lru_keeps_crit auth_keeps_crit GenerateKey_keeps(1) backoff_keeps(1) wait_or_done_keeps(1) Cache_keeps(1)
  store_query_keeps [OF off_pg_proj(1)] store_update_keeps [OF off_pg_proj(1)]

lemmas off_crit_fed [fed] = off_crit [THEN fed_off]

lemma run_handlers_off_crit: "handlers_off_crit c \<Longrightarrow> keeps crit (run_handlers (con_handlers c) job e)"
  by (rule run_handlers_keeps) (simp add: handlers_off_crit_def)

context deployment
begin

lemma Receive_fed: "preserves (crit_ok E ac) (Receive E cfg r)"
proof (rule preservesI)
  fix w resp w' assume w: "crit_ok E ac w" and r: "run_state (Receive E cfg r) w = (resp, w')"
  show "crit_ok E ac w'"
  proof (cases "\<exists>sg. admissible cfg (clock w) r sg")
    case True
    then obtain sg where sg: "admissible cfg (clock w) r sg" by blast
    from preservesD [OF AcceptSignal_fed [OF sg], of cfg w resp w'] w r Receive_admissible [OF sg, of E] show ?thesis by simp
  next
    case False
    then show ?thesis using Receive_refused [OF r] w by simp
  qed
qed

lemma admin_fed: "preserves (crit_ok E ac) (admin_handler E ep r)"
proof -
  have "preserves (crit_ok E ac) (IssueKey E r)" "preserves (crit_ok E ac) (ListKeys E)" "preserves (crit_ok E ac) (SetKeyStatus E r)"
    "preserves (crit_ok E ac) (SetKeyMaxMachines E r)" "preserves (crit_ok E ac) (RotateKey E r)"
    "preserves (crit_ok E ac) (ListAllMachines E)"
    "preserves (crit_ok E ac) (ListKeyMachines E r)" "preserves (crit_ok E ac) (Admin.RemoveMachine E r)"
    unfolding key_admin_defs Let_def by (intro fed)+
  moreover have "preserves (crit_ok E ac) (Admin.CreateSubscriber E r)" "preserves (crit_ok E ac) (ListSubscribers E)"
    "preserves (crit_ok E ac) (Admin.SetSubscriberActive E r)" "preserves (crit_ok E ac) (ListSymbols E)"
    "preserves (crit_ok E ac) (Admin.AddSymbol E r)" "preserves (crit_ok E ac) (Admin.SetSymbolActive E r)"
    "preserves (crit_ok E ac) (Admin.DeleteSymbol E r)" "preserves (crit_ok E ac) (Admin.GetMetrics E)"
    "preserves (crit_ok E ac) (Admin.ListSignals E r)"
    unfolding other_admin_defs Let_def by (intro fed)+
  ultimately show ?thesis by (cases ep) (simp_all add: preserves_return)
qed

lemma Pending_fed: "preserves (crit_ok E ac) (GetPending E r)"
  unfolding GetPending_def Let_def by (intro fed)

lemma endpoint_fed: "preserves (crit_ok E ac) (endpoint_handler E cfg ep r)"
proof -
  have "preserves (crit_ok E ac) (Check E)"
    unfolding Check_def CacheLayer.Ping_def Let_def by (intro fed Critical_fed) (simp add: good_rcmd_def)
  moreover have "preserves (crit_ok E ac) (Login E cfg r)" "preserves (crit_ok E ac) (Refresh E cfg r)"
    "preserves (crit_ok E ac) (Logout E cfg r)" for r
    unfolding Login_def Refresh_def Logout_def Let_def by (intro fed)+
  moreover have "preserves (crit_ok E ac) (JWTMiddleware E cfg (\<lambda>_. h) r)" if "\<And>r. preserves (crit_ok E ac) (h r)" for h r
    unfolding JWTMiddleware_def Let_def by (intro fed that)
  moreover have "preserves (crit_ok E ac) (APIKeyMiddleware E cfg sc (\<lambda>_ r. GetPending E r) r)" for sc r
    unfolding APIKeyMiddleware_def Let_def by (intro fed Pending_fed)
  ultimately show ?thesis
    unfolding endpoint_handler_def using Receive_fed admin_fed by (auto intro!: preserves_if preserves_return)
qed

text \<open>A retry puts a string where a job is read, which is none; the queue takes it all the same.\<close>

lemma retry_typed:
  assumes "job_typed (uuid_prs E) sy d" and "Unmarshal_job (uuid_prs E) d = Some job"
    and "Marshal (json_text E) (updated_payload E (job\<lparr>Attempts := n\<rparr>)) = Inr b"
  shows "job_typed (uuid_prs E) sy b"
proof -
  have ok: "time_ok (Timestamp (Signal job))" "time_ok (EnqueuedAt job)"
    using assms(1,2) by (auto simp: job_typed_def signal_typed_def)
  then obtain s e where "json_time (Timestamp (Signal job)) = Some s" "json_time (EnqueuedAt job) = Some e"
    using json_time_Some by blast
  then obtain j where "Marshal_job (uuid_str E) (job\<lparr>Attempts := n\<rparr>) = Some j"
    by (auto simp: Marshal_job_def Marshal_signal_def)
  then have "b = JStr (base64 (json_text E j))" using assms(3) by (simp add: updated_payload_def)
  then show ?thesis using assms(1) by (simp add: job_typed_def)
qed

lemma round_fed: "preserves (crit_ok E ac) (consume_once E (worker_consumer E wcfg ncfg) ctx sy)"
proof -
  have p: "preserves (crit_ok E ac) (processJob E (worker_consumer E wcfg ncfg) ctx sy d job)"
    if "job_typed (uuid_prs E) sy d" "Unmarshal_job (uuid_prs E) d = Some job" for d job
    unfolding processJob_def Let_def
    by (intro fed fed_off [OF run_handlers_off_crit] push_fed handlers_off_crit_worker retry_typed [OF that])
  show ?thesis
    unfolding consume_once_def Let_def
    by (intro fed preserves_bind_valid [OF dequeued_typed] p; simp)
qed

lemma cleanup_fed: "preserves (crit_ok E ac) (reQueueStale E wcfg sy)"
proof -
  have "preserves (crit_ok E ac) (requeue_jobs E wcfg sy ds)" if "\<forall>d \<in> set ds. job_typed (uuid_prs E) sy d" for ds
    using that by (induction ds) (auto intro!: fed push_fed)
  then show ?thesis unfolding reQueueStale_def by (intro fed preserves_bind_valid [OF processing_typed]) auto
qed

lemma sync_fed: "preserves (crit_ok E ac) (sync E m)"
  unfolding sync_def load_def Let_def by (intro fed)+

lemma background_fed: "preserves (crit_ok E ac) (run_async E a)"
  by (cases a) (auto intro!: fed)

lemma fed_step:
  assumes "system_step E ac cfg wcfg ncfg w w'" and "crit_ok E ac w"
  shows "crit_ok E ac w'"
  using assms(1)
proof (cases rule: system_step.cases)
  case (Request r x)
  obtain resp l where x: "x = (resp, l)" by (cases x)
  show ?thesis
    using serve_cases [OF Request [unfolded x]] preservesD [OF endpoint_fed _ assms(2)] assms(2)
    by (auto split: option.splits)
next
  case (Background a u)
  then show ?thesis using preservesD [OF background_fed _ assms(2)] by blast
next
  case (Round ctx sy b)
  then show ?thesis using preservesD [OF round_fed _ assms(2)] by blast
next
  case (Sync m m')
  then show ?thesis using preservesD [OF sync_fed _ assms(2)] by blast
next
  case (Cleanup sy u)
  then show ?thesis using preservesD [OF cleanup_fed _ assms(2)] by blast
next
  case Elsewhere
  then show ?thesis using assms(2) redis_typed_loses by (auto simp: crit_ok_def)
qed

lemma fed_run: "(system_step E ac cfg wcfg ncfg)\<^sup>*\<^sup>* w w' \<Longrightarrow> crit_ok E ac w \<Longrightarrow> crit_ok E ac w'"
  by (induction rule: rtranclp_induct) (auto intro: fed_step)

end

subsection \<open>Over every run\<close>

text \<open>
  C5: A job is found only in the queue of its own symbol, over every run of the server and the
  worker and whatever their services answer: each text in the queue or the processing list of a
  symbol that reads as a job is one for a valid signal of that very symbol, a retry included; and a
  symbol whose queue is not empty has no dot and is in capitals, so that a watched symbol with a dot
  never gets a job.
\<close>

theorem queued_jobs_typed:
  assumes "deployment E ac al ad D" and "redis_typed (uuid_prs E) (ac (crit w0))"
    and "(system_step E ac cfg wcfg ncfg)\<^sup>*\<^sup>* w0 w"
    and "d \<in> set (rlst (ac (crit w)) (QueueKey sy)) \<union> set (rlst (ac (crit w)) (ProcessingKey sy))"
  shows "CHR ''.'' \<notin> set sy \<and> ToUpper sy = sy
    \<and> (\<forall>job. Unmarshal_job (uuid_prs E) d = Some job \<longrightarrow> signal_typed sy (Signal job))"
proof -
  have "redis_typed (uuid_prs E) (ac (crit w))"
    using deployment.fed_run [OF assms(1,3)] assms(2) by (simp add: crit_ok_def)
  then have "job_typed (uuid_prs E) sy d" using assms(4) unfolding redis_typed_def by blast
  then show ?thesis by (simp add: job_typed_def)
qed

text \<open>
  C6: What is polled under a symbol is a valid signal of that symbol: over every run of the server
  and the worker, a GET /pending that answers with a document answers with one that decodes to a
  signal of the requested symbol (in capitals), with a positive ticket, price and lot and a known
  type and direction.
\<close>

theorem polled_signal_typed:
  assumes "deployment E ac al ad D" and "redis_typed (uuid_prs E) (ac (crit w0))"
    and "(system_step E ac cfg wcfg ncfg)\<^sup>*\<^sup>* w0 w"
    and "run_state (GetPending E r) w = (resp, w')" and "rbody resp = Doc d"
  shows "\<exists>s. Unmarshal_signal d = Some s \<and> signal_typed (ToUpper (rq_value r ''symbol'')) s"
proof -
  have "crit_ok E ac w" using deployment.fed_run [OF assms(1,3)] assms(2) by (simp add: crit_ok_def)
  moreover obtain w1 where "run_state (GetLatestSignal E (ToUpper (rq_value r ''symbol''))) w = (Inr (Some d), w1)"
    using assms(4,5) by (auto simp: GetPending_def Let_def SignalHandler.writeError_def
        split: if_splits prod.splits sum.splits option.splits)
  ultimately show ?thesis using deployment.latest_read [OF assms(1)] by (simp add: latest_typed_def)
qed

theorem queued_jobs_typed_witness:
  "\<exists>x w d. run_state (serve calm_env demo_cfg signal_request) (calm_world empty_tables demo_time) = (x, w)
    \<and> d \<in> set (rlst (crit w) (QueueKey ''EURUSD''))
    \<and> (\<forall>job. Unmarshal_job (uuid_prs calm_env) d = Some job \<longrightarrow> signal_typed ''EURUSD'' (Signal job))"
proof -
  obtain x w where r: "run_state (serve calm_env demo_cfg signal_request) (calm_world empty_tables demo_time) = (x, w)"
    and q: "rlst (crit w) (QueueKey ''EURUSD'') \<noteq> []" using signal_request_served by (elim exE conjE)
  have s: "(system_step calm_env id demo_cfg demo_worker demo_ncfg)\<^sup>*\<^sup>* (calm_world empty_tables demo_time) w"
    by (rule r_into_rtranclp) (rule system_step.Request [OF r])
  obtain d where d: "d \<in> set (rlst (crit w) (QueueKey ''EURUSD''))" using q by (meson last_in_set)
  have "redis_typed (uuid_prs calm_env) (id (crit (calm_world empty_tables demo_time)))" by (simp add: calm_world_def)
  from queued_jobs_typed [OF calm_deployment this s, of d "''EURUSD''"] d r show ?thesis by auto
qed

theorem polled_signal_typed_witness:
  "\<exists>x w resp w' d s. run_state (serve calm_env demo_cfg signal_request) (calm_world empty_tables demo_time) = (x, w)
    \<and> run_state (GetPending calm_env ((bare_request [])\<lparr>rq_value := (\<lambda>k. ''eurusd'')\<rparr>)) (w\<lparr>clock := demo_time\<rparr>) = (resp, w')
    \<and> rbody resp = Doc d \<and> Unmarshal_signal d = Some s \<and> signal_typed ''EURUSD'' s"
proof -
  let ?poll = "(bare_request [])\<lparr>rq_value := (\<lambda>k. ''eurusd'')\<rparr>"
  have u: "ToUpper ''eurusd'' = ''EURUSD''" by (simp add: ToUpper_def upper_char_def char_of_def bit_0)
  obtain x w d where r: "run_state (serve calm_env demo_cfg signal_request) (calm_world empty_tables demo_time) = (x, w)"
    and l: "live demo_time (crit w) (signalKey ''EURUSD'') = Some d" using signal_request_served by (elim exE conjE)
  have "system_step calm_env id demo_cfg demo_worker demo_ncfg (calm_world empty_tables demo_time) w"
    by (rule system_step.Request [OF r])
  moreover have "system_step calm_env id demo_cfg demo_worker demo_ncfg w (w\<lparr>clock := demo_time\<rparr>)"
    by (rule system_step.Elsewhere) (simp_all add: loses_def)
  ultimately have s: "(system_step calm_env id demo_cfg demo_worker demo_ncfg)\<^sup>*\<^sup>* (calm_world empty_tables demo_time) (w\<lparr>clock := demo_time\<rparr>)"
    by (meson converse_rtranclp_into_rtranclp r_into_rtranclp)
  have t: "redis_typed (uuid_prs calm_env) (id (crit (calm_world empty_tables demo_time)))" by (simp add: calm_world_def)
  obtain resp w' where p: "run_state (GetPending calm_env ?poll) (w\<lparr>clock := demo_time\<rparr>) = (resp, w')" and b: "rbody resp = Doc d"
    using l by (simp add: GetPending_def GetLatestSignal_def bytes_or_nil_def u Let_def)
  from polled_signal_typed [OF calm_deployment t s p b] r p b u show ?thesis by auto
qed

end
