(* ===== verification/Overlap.thy ===== *)
theory Overlap
  imports SignalHandler
begin

text \<open>
  Requests that overlap: \<open>AcceptSignal\<close> cut at its calls of the services, and any number of requests
  that take their steps in any order, with whatever else happens in between. However often a signal
  is sent at the same time, one delivery goes past the deduplication.
\<close>

subsection \<open>The steps of a request\<close>

text \<open>What a request has done so far: nothing, passed the deduplication, stored its row, published.\<close>

datatype phase = Arrived | First | Stored uuid | Published uuid | Answered response

fun advance :: "('r, 'l, 'd) env \<Rightarrow> AuthConfig \<Rightarrow> InboundSignal \<Rightarrow> phase \<Rightarrow> ('r, 'l, 'd, phase) io" where
  "advance E cfg sg Arrived = do {
     d \<leftarrow> SetDedup E (TicketID sg) (SignalType sg) (DeduplicateTTL cfg);
     let isNew = (case d of Inl _ \<Rightarrow> False | Inr b \<Rightarrow> b);
     ret (if \<not> isNew then Answered duplicate_response else First) }"
| "advance E cfg sg First = do {
     (signalID, ins) \<leftarrow> InsertSignal E (store_signal sg);
     ret (case ins of Inl _ \<Rightarrow> Answered (writeError (EMsg ''storage error'') 500) | Inr _ \<Rightarrow> Stored signalID) }"
| "advance E cfg sg (Stored signalID) = do {
     _ \<leftarrow> SetLatestSignal E (Symbol sg) (Struct (Marshal_signal sg));
     ret (Published signalID) }"
| "advance E cfg sg (Published signalID) = do {
     jid \<leftarrow> uuid_New E;
     now \<leftarrow> time_now;
     let job = \<lparr>JobID = uuid_str E jid, SignalID = signalID, Signal = sg, Attempts = 0,
       EnqueuedAt = \<lparr>inst = now, zone = 0\<rparr>\<rparr>;
     _ \<leftarrow> EnqueueJob E (Symbol sg) (Struct (Marshal_job (uuid_str E) job));
     ret (Answered (accepted_response E signalID)) }"
| "advance E cfg sg (Answered resp) = ret (Answered resp)"

definition answer_of :: "phase \<Rightarrow> response" where
  "answer_of p = (case p of Answered resp \<Rightarrow> resp | _ \<Rightarrow> duplicate_response)"

text \<open>Taken together they are \<open>AcceptSignal\<close>.\<close>

lemma AcceptSignal_phases:
  "AcceptSignal E cfg sg = do {
     p \<leftarrow> advance E cfg sg Arrived;
     p \<leftarrow> advance E cfg sg p;
     p \<leftarrow> advance E cfg sg p;
     p \<leftarrow> advance E cfg sg p;
     ret (answer_of p) }"
proof (intro state.expand ext)
  fix w
  show "run_state (AcceptSignal E cfg sg) w = run_state (do {
     p \<leftarrow> advance E cfg sg Arrived;
     p \<leftarrow> advance E cfg sg p;
     p \<leftarrow> advance E cfg sg p;
     p \<leftarrow> advance E cfg sg p;
     ret (answer_of p) }) w"
    by (auto simp: AcceptSignal_def Let_def answer_of_def split: prod.splits sum.splits)
qed

subsection \<open>Any number of requests at once\<close>

text \<open>
  A mark that is there until time \<open>h\<close>. In between the steps of the requests anything may happen
  (other requests, the worker, time) that leaves the marks there until then.
\<close>

definition marked :: "int \<Rightarrow> rview \<Rightarrow> string \<Rightarrow> bool" where
  "marked h v k \<longleftrightarrow> (case rstr v k of None \<Rightarrow> False | Some (d, e) \<Rightarrow> At h \<le> e)"

inductive overlap :: "('r, 'l, 'd) env \<Rightarrow> ('r \<Rightarrow> rview) \<Rightarrow> AuthConfig \<Rightarrow> int
    \<Rightarrow> ('r, 'l, 'd) world \<times> (InboundSignal \<times> phase) list \<Rightarrow> ('r, 'l, 'd) world \<times> (InboundSignal \<times> phase) list \<Rightarrow> bool"
  for E ac cfg h where
  Arrive: "overlap E ac cfg h (w, ts) (w, ts @ [(sg, Arrived)])"
| Advance: "n < length ts \<Longrightarrow> ts ! n = (sg, p) \<Longrightarrow> clock w < h \<Longrightarrow> run_state (advance E cfg sg p) w = (p', w')
    \<Longrightarrow> overlap E ac cfg h (w, ts) (w', ts[n := (sg, p')])"
| Elsewhere: "clock w \<le> clock w' \<Longrightarrow> (\<And>i ty. marked h (ac (crit w)) (dedupKey i ty) \<Longrightarrow> marked h (ac (crit w')) (dedupKey i ty))
    \<Longrightarrow> overlap E ac cfg h (w, ts) (w', ts)"

definition past_dedup :: "phase \<Rightarrow> bool" where
  "past_dedup p \<longleftrightarrow> p \<noteq> Arrived \<and> p \<noteq> Answered duplicate_response"

definition mark_of :: "InboundSignal \<Rightarrow> string" where
  "mark_of sg = dedupKey (TicketID sg) (SignalType sg)"

text \<open>Each request past the deduplication has its mark, and no two have the same.\<close>

definition apart :: "int \<Rightarrow> rview \<Rightarrow> (InboundSignal \<times> phase) list \<Rightarrow> bool" where
  "apart h v ts \<longleftrightarrow> (\<forall>i < length ts. past_dedup (snd (ts ! i)) \<longrightarrow> marked h v (mark_of (fst (ts ! i)))
     \<and> (\<forall>j < length ts. past_dedup (snd (ts ! j)) \<longrightarrow> mark_of (fst (ts ! i)) = mark_of (fst (ts ! j)) \<longrightarrow> i = j))"

lemma answers_past [simp]:
  "past_dedup First" "past_dedup (Stored i)" "past_dedup (Published i)" "\<not> past_dedup Arrived"
  "\<not> past_dedup (Answered duplicate_response)" "past_dedup (Answered (accepted_response E i))"
  "past_dedup (Answered (writeError e 500))"
  by (simp_all add: past_dedup_def accepted_response_def duplicate_response_def writeError_def)

lemma marked_live: "marked h v k \<Longrightarrow> t < h \<Longrightarrow> live t v k \<noteq> None"
  using less_le_trans [of "At t" "At h"] by (auto simp: marked_def live_def split: option.splits)

lemma apartD:
  "apart h v ts \<Longrightarrow> i < length ts \<Longrightarrow> j < length ts \<Longrightarrow> past_dedup (snd (ts ! i)) \<Longrightarrow> past_dedup (snd (ts ! j))
    \<Longrightarrow> mark_of (fst (ts ! i)) = mark_of (fst (ts ! j)) \<Longrightarrow> i = j"
  by (simp add: apart_def)

lemma apart_arrive: "apart h v ts \<Longrightarrow> apart h v (ts @ [(sg, Arrived)])"
  by (auto simp: apart_def nth_append)

lemma apart_marks: "apart h v ts \<Longrightarrow> (\<And>i ty. marked h v (dedupKey i ty) \<Longrightarrow> marked h v' (dedupKey i ty)) \<Longrightarrow> apart h v' ts"
  by (auto simp: apart_def mark_of_def)

text \<open>One request takes a step that leaves it where it was with respect to the deduplication.\<close>

lemma apart_same:
  assumes "apart h v ts" and "n < length ts" and "ts ! n = (sg, p)" and "past_dedup p' \<Longrightarrow> past_dedup p"
  shows "apart h v (ts[n := (sg, p')])"
  using assms unfolding apart_def by (auto simp: nth_list_update split: if_splits)

lemma apart_first:
  assumes "apart h v ts" and "n < length ts" and "ts ! n = (sg, Arrived)" and "marked h v (mark_of sg)"
    and "\<And>i. i < length ts \<Longrightarrow> past_dedup (snd (ts ! i)) \<Longrightarrow> mark_of (fst (ts ! i)) \<noteq> mark_of sg"
  shows "apart h v (ts[n := (sg, p')])"
  using assms unfolding apart_def by (auto simp: nth_list_update) blast

definition mark_kept :: "('r \<Rightarrow> rview) \<Rightarrow> int \<Rightarrow> string \<Rightarrow> ('r, 'l, 'd) world \<Rightarrow> bool" where
  "mark_kept ac h k w \<longleftrightarrow> clock w < h \<and> marked h (ac (crit w)) k"

lemma mark_off: "keeps crit m \<Longrightarrow> keeps clock m \<Longrightarrow> preserves (mark_kept ac h k) m"
  by (simp add: keeps_def preserves_def mark_kept_def)

context deployment
begin

lemma marks_stay:
  assumes "redis_ok now c v x v'" and "marked h v k" and "now < h"
    and "k \<notin> writes c \<or> (\<exists>d ttl. c = SETNX k d ttl)" and "\<forall>ks. c = DEL ks \<longrightarrow> k \<notin> set ks"
  shows "marked h v' k"
proof -
  have l: "live now v k \<noteq> None" by (rule marked_live [OF assms(2,3)])
  obtain u where u: "redis_exec now c v x u" "purge now u v'" using assms(1) by (auto simp: redis_ok_def)
  have "rstr u k = rstr v k"
  proof (cases "is_scan c")
    case True
    then show ?thesis using u(1) by (cases c) (auto simp: redis_exec_def is_scan_def)
  next
    case False
    then have "u = snd (redis_step now c v)" using u(1) by (metis redis_exec_not_scan snd_conv)
    then show ?thesis using l assms(4,5)
      by (cases c) (auto simp: unset_def Let_def split: option.splits json.splits)
  qed
  then have "rstr v' k = rstr v k" using u(2) l unfolding purge_def live_def by metis
  then show ?thesis using assms(2) by (simp add: marked_def)
qed

lemma Critical_mark:
  assumes "k \<notin> writes c \<or> (\<exists>d ttl. c = SETNX k d ttl)" and "\<forall>ks. c = DEL ks \<longrightarrow> k \<notin> set ks"
  shows "preserves (mark_kept ac h k) (Critical E c)"
proof (rule preservesI)
  fix w x w' assume w: "mark_kept ac h k w" and r: "run_state (Critical E c) w = (x, w')"
  show "mark_kept ac h k w'"
    using Critical_err [OF r] marks_stay [OF _ _ _ assms] w keepsD [OF Critical_keeps(3) r] by (auto simp: mark_kept_def)
qed

lemma advance_marks: "preserves (mark_kept ac h (dedupKey i ty)) (advance E cfg sg p)"
proof -
  have d: "preserves (mark_kept ac h (dedupKey i ty)) (SetDedup E j ty' ttl)" for j ty' ttl
    unfolding SetDedup_def by (intro preserves_bind Critical_mark preserves_return) (auto simp: dedupKey_inj)
  have l: "preserves (mark_kept ac h (dedupKey i ty)) (SetLatestSignal E sy d)" for sy d
    unfolding SetLatestSignal_def
    by (intro preserves_bind preserves_sum Critical_mark preserves_return) (auto simp: signalKey_def dedupKey_def)
  have q: "preserves (mark_kept ac h (dedupKey i ty)) (EnqueueJob E sy d)" for sy d
    unfolding EnqueueJob_def by (intro preserves_bind preserves_sum Critical_mark preserves_return) simp_all
  have s: "preserves (mark_kept ac h (dedupKey i ty)) (InsertSignal E s)" for s
    by (intro mark_off store_update_keeps(13) off_pg_proj)
  show ?thesis
    by (cases p; simp add: Let_def; intro preserves_bind preserves_prod preserves_return d l q s
        mark_off [OF uuid_New_keeps(1,4)] mark_off [OF time_now_keeps time_now_keeps])
qed

lemma SetDedup_first:
  assumes "run_state (SetDedup E i ty ttl) w = (Inr True, w')"
  shows "live (clock w) (ac (crit w)) (dedupKey i ty) = None" and "clock w < h \<Longrightarrow> h \<le> clock w + ttl \<Longrightarrow> marked h (ac (crit w')) (dedupKey i ty)"
proof -
  have c: "run_state (Critical E (SETNX (dedupKey i ty) (JInt 1) ttl)) w = (Inr (RInt 1), w')"
    using assms by (auto simp: SetDedup_def split: prod.splits sum.splits)
  have o: "redis_ok (clock w) (SETNX (dedupKey i ty) (JInt 1) ttl) (ac (crit w)) (RInt 1) (ac (crit w'))"
    by (rule Critical_ok [OF c])
  then obtain u where "(RInt 1, u) = redis_step (clock w) (SETNX (dedupKey i ty) (JInt 1) ttl) (ac (crit w))"
    and p: "purge (clock w) u (ac (crit w'))" by (auto simp: redis_ok_def redis_exec_def)
  then have u: "live (clock w) (ac (crit w)) (dedupKey i ty) = None"
    "u = put (dedupKey i ty) (JInt 1) (expires (clock w) ttl) (ac (crit w))" "0 \<le> ttl"
    by (auto split: if_splits)
  then show "live (clock w) (ac (crit w)) (dedupKey i ty) = None" by simp
  assume h: "clock w < h" "h \<le> clock w + ttl"
  then have "At h \<le> expires (clock w) ttl" using u(3) by (simp add: expires_def)
  moreover have "live (clock w) u (dedupKey i ty) \<noteq> None" using u(2) h by simp
  then have "rstr (ac (crit w')) (dedupKey i ty) = rstr u (dedupKey i ty)" using p unfolding purge_def by metis
  ultimately show "marked h (ac (crit w')) (dedupKey i ty)" using u(2) by (simp add: marked_def)
qed

end

subsection \<open>One of them passes\<close>

lemma past_advance:
  assumes "run_state (advance E cfg sg p) w = (p', w')" and "p \<noteq> Arrived" and "past_dedup p'"
  shows "past_dedup p"
  using assms by (cases p) (auto simp: past_dedup_def)

lemma advance_clock: "keeps clock (advance E cfg sg p)"
  by (cases p; simp add: Let_def; intro keeps_bind keeps_pair keeps_return keeps_if uuid_New_keeps(4) time_now_keeps
      store_update_keeps(13) off_pg_proj critical_keeps_clock)

context deployment
begin

lemma overlap_apart:
  assumes "overlap E ac cfg h (w, ts) (w', ts')" and "apart h (ac (crit w)) ts" and "h \<le> clock w + DeduplicateTTL cfg"
  shows "apart h (ac (crit w')) ts' \<and> clock w \<le> clock w'"
  using assms(1)
proof (cases rule: overlap.cases)
  case (Arrive sg)
  then show ?thesis using assms(2) by (simp add: apart_arrive)
next
  case (Advance n sg p p')
  have c: "clock w' = clock w" by (rule keepsD [OF advance_clock Advance(5)])
  have m: "marked h (ac (crit w)) (dedupKey i ty) \<Longrightarrow> marked h (ac (crit w')) (dedupKey i ty)" for i ty
    using preservesD [OF advance_marks Advance(5), of h i ty] Advance(4) by (simp add: mark_kept_def)
  have a: "apart h (ac (crit w')) ts" by (rule apart_marks [OF assms(2)]) (rule m)
  show ?thesis
  proof (cases "p = Arrived \<and> past_dedup p'")
    case False
    have q: "past_dedup p" if "past_dedup p'" using past_advance [OF Advance(5)] False that by blast
    have "apart h (ac (crit w')) (ts[n := (sg, p')])" by (rule apart_same [OF a Advance(2,3)]) (rule q)
    then show ?thesis using Advance(1) c by simp
  next
    case True
    then have d: "run_state (SetDedup E (TicketID sg) (SignalType sg) (DeduplicateTTL cfg)) w = (Inr True, w')"
      using Advance(5) by (auto simp: Let_def split: prod.splits sum.splits if_splits)
    have n: "\<not> marked h (ac (crit w)) (mark_of sg)"
      using marked_live [OF _ Advance(4)] SetDedup_first(1) [OF d] unfolding mark_of_def by blast
    have "mark_of (fst (ts ! i)) \<noteq> mark_of sg" if "i < length ts" "past_dedup (snd (ts ! i))" for i
    proof -
      have "marked h (ac (crit w)) (mark_of (fst (ts ! i)))" using that assms(2) by (simp add: apart_def)
      with n show ?thesis by metis
    qed
    moreover have "marked h (ac (crit w')) (mark_of sg)"
      using SetDedup_first(2) [OF d Advance(4) assms(3)] by (simp add: mark_of_def)
    ultimately have "apart h (ac (crit w')) (ts[n := (sg, p')])"
      using apart_first [OF a Advance(2)] Advance(3) True by blast
    then show ?thesis using Advance(1) c by simp
  qed
next
  case Elsewhere
  then show ?thesis using assms(2) by (auto intro: apart_marks)
qed

lemma overlap_run:
  assumes "(overlap E ac cfg h)\<^sup>*\<^sup>* (w0, []) (w, ts)" and "h \<le> clock w0 + DeduplicateTTL cfg"
  shows "apart h (ac (crit w)) ts \<and> clock w0 \<le> clock w"
  using assms(1)
proof (induction "(w, ts)" arbitrary: w ts rule: rtranclp_induct)
  case base
  show ?case by (simp add: apart_def)
next
  case (step y)
  obtain v us where y: "y = (v, us)" by (cases y)
  from step(3) [OF y] have i: "apart h (ac (crit v)) us" "clock w0 \<le> clock v" by simp_all
  from overlap_apart [OF step(2) [unfolded y] i(1)] i(2) assms(2) show ?case by simp
qed

end

text \<open>
  C20: Deliveries of one trade that overlap are accepted once: let any number of requests take the
  steps of AcceptSignal in any order (deduplicate, store, publish, enqueue), with anything in
  between that leaves the deduplication marks alone, all within the deduplication time. Then of two
  requests with the same ticket and type at least one is not past the deduplication: it has not
  come to it yet, or it was answered as a duplicate.
\<close>

theorem overlapping_deliveries_once:
  assumes "deployment E ac al ad D" and "(overlap E ac cfg h)\<^sup>*\<^sup>* (w0, []) (w, ts)"
    and "h \<le> clock w0 + DeduplicateTTL cfg" and "i < j" and "j < length ts"
    and "ts ! i = (sg1, p1)" and "ts ! j = (sg2, p2)" and "TicketID sg1 = TicketID sg2" and "SignalType sg1 = SignalType sg2"
  shows "p1 \<in> {Arrived, Answered duplicate_response} \<or> p2 \<in> {Arrived, Answered duplicate_response}"
proof -
  have a: "apart h (ac (crit w)) ts" using deployment.overlap_run [OF assms(1-3)] by simp
  have "mark_of sg1 = mark_of sg2" by (simp add: mark_of_def assms)
  then have "\<not> (past_dedup p1 \<and> past_dedup p2)" using apartD [OF a, of i j] assms(4-7) by auto
  then show ?thesis by (auto simp: past_dedup_def)
qed

lemma four_steps: "r a b \<Longrightarrow> r b c \<Longrightarrow> r c d \<Longrightarrow> r d e \<Longrightarrow> r\<^sup>*\<^sup>* a e"
  by (rule rtranclp.rtrancl_into_rtrancl [OF rtranclp.rtrancl_into_rtrancl [OF rtranclp.rtrancl_into_rtrancl [OF r_into_rtranclp]]])

theorem overlapping_deliveries_once_witness:
  "\<exists>w1 w2 p. run_state (advance calm_env demo_cfg (demo_signal ''OPEN'' (27 / 20)) Arrived) (calm_world empty_tables 0) = (First, w1)
    \<and> run_state (advance calm_env demo_cfg (demo_signal ''OPEN'' 9) Arrived) w1 = (p, w2)
    \<and> p \<in> {Arrived, Answered duplicate_response}"
proof -
  let ?a = "demo_signal ''OPEN'' (27 / 20)" and ?b = "demo_signal ''OPEN'' 9" and ?w = "calm_world empty_tables 0"
  obtain w1 where r1: "run_state (advance calm_env demo_cfg ?a Arrived) ?w = (First, w1)"
    by (simp add: SetDedup_def demo_signal_def demo_cfg_def Second_def Let_def)
  obtain p w2 where r2: "run_state (advance calm_env demo_cfg ?b Arrived) w1 = (p, w2)" by (metis surj_pair)
  have c: "clock w1 = 0" using keepsD [OF advance_clock r1] by simp
  have h: "Second \<le> clock ?w + DeduplicateTTL demo_cfg" by (simp add: demo_cfg_def Second_def)
  have s1: "overlap calm_env id demo_cfg Second (?w, []) (?w, [(?a, Arrived)])"
    using overlap.Arrive [of calm_env id demo_cfg Second ?w "[]" ?a] by simp
  have s2: "overlap calm_env id demo_cfg Second (?w, [(?a, Arrived)]) (?w, [(?a, Arrived), (?b, Arrived)])"
    using overlap.Arrive [of calm_env id demo_cfg Second ?w "[(?a, Arrived)]" ?b] by simp
  have s3: "overlap calm_env id demo_cfg Second (?w, [(?a, Arrived), (?b, Arrived)]) (w1, [(?a, First), (?b, Arrived)])"
    using overlap.Advance [of 0 "[(?a, Arrived), (?b, Arrived)]" ?a Arrived ?w Second calm_env demo_cfg First w1] r1
    by (simp add: Second_def)
  have s4: "overlap calm_env id demo_cfg Second (w1, [(?a, First), (?b, Arrived)]) (w2, [(?a, First), (?b, p)])"
    using overlap.Advance [of 1 "[(?a, First), (?b, Arrived)]" ?b Arrived w1 Second calm_env demo_cfg p w2] r2 c
    by (simp add: Second_def)
  have "(overlap calm_env id demo_cfg Second)\<^sup>*\<^sup>* (?w, []) (w2, [(?a, First), (?b, p)])"
    by (rule four_steps [where r = "overlap calm_env id demo_cfg Second", OF s1 s2 s3 s4])
  from overlapping_deliveries_once [OF calm_deployment this h, of 0 1 ?a First ?b p] r1 r2 show ?thesis
    by (auto simp: demo_signal_def)
qed

end
