(* ===== verification/Progress.thy ===== *)
theory Progress
  imports Notify
begin

text \<open>
  What the worker eventually does: a running consumer takes the jobs of a queue in their order and
  empties it, and an accepted signal reaches every subscriber it is addressed to.
\<close>

subsection \<open>Rounds of a running consumer\<close>

text \<open>The world after some rounds of the loop, its context never cancelled.\<close>

fun rounds :: "('r, 'l, 'd) env \<Rightarrow> ('r, 'l, 'd) Consumer \<Rightarrow> string \<Rightarrow> nat \<Rightarrow> ('r, 'l, 'd) world \<Rightarrow> ('r, 'l, 'd) world" where
  "rounds E c sy 0 w = w"
| "rounds E c sy (Suc n) w = rounds E c sy n (snd (run_state (consume_once E c None sy) w))"

lemma rounds_last: "rounds E c sy (Suc n) w = snd (run_state (consume_once E c None sy) (rounds E c sy n w))"
  by (induction n arbitrary: w) simp_all

lemma weight_at_most: "queue_weight E q \<le> 3 * length q"
proof (induction q)
  case (Cons d q)
  have "text_weight E d \<le> 3" by (simp add: text_weight_def split: option.splits)
  then show ?case using Cons by (simp add: queue_weight_def)
qed (simp add: queue_weight_def)

lemma weight_append [simp]: "queue_weight E (p @ q) = queue_weight E p + queue_weight E q"
  by (simp add: queue_weight_def)

lemma weight_zero: "queue_weight E q = 0 \<longleftrightarrow> q = []"
  using text_weight_pos [of E "hd q"] by (cases q) (simp_all add: queue_weight_def)

context deployment
begin

text \<open>A round replaces the oldest waiting text by at most one lighter one, put last.\<close>

lemma round_replaces:
  assumes "reliable_crit E" and "handlers_off_crit c" and "run_state (consume_once E c None sy) w = (r, w')"
    and "waiting (qview_of ac sy w) = q @ [d]"
  shows "\<exists>ps. waiting (qview_of ac sy w') = ps @ q \<and> flying (qview_of ac sy w') = flying (qview_of ac sy w)
    \<and> queue_weight E ps < text_weight E d"
proof (cases "Unmarshal_job (uuid_prs E) d")
  case None
  from view_of_round(1) [OF assms None] show ?thesis
    using text_weight_pos [of E d] by (intro exI [of _ "[]"]) (simp add: queue_weight_def)
next
  case (Some job)
  let ?v = "(qview_of ac sy w)\<lparr>waiting := q, flying := d # flying (qview_of ac sy w)\<rparr>"
  let ?p = "payload_text E (updated_payload E (next_attempt job))"
  obtain w1 where s: "qstep ?v (job_event E c None d job w1) (qview_of ac sy w')"
    using view_of_round(2) [OF assms Some] by blast
  have e: "job_event E c None d job w1 \<in> {Finish d, Bury d, Retry d ?p, Abandon d}"
    by (auto simp: job_event_def split: prod.splits option.splits)
  show ?thesis
  proof (cases "job_event E c None d job w1 = Retry d ?p")
    case True
    then show ?thesis
      using s retry_lighter [OF Some] by (intro exI [of _ "[?p]"]) (auto simp: qstep_retry queue_weight_def)
  next
    case False
    then have "waiting (qview_of ac sy w') = q \<and> flying (qview_of ac sy w') = flying (qview_of ac sy w)"
      using s e by (auto elim: qstep.cases)
    then show ?thesis using text_weight_pos [of E d] by (intro exI [of _ "[]"]) (simp add: queue_weight_def)
  qed
qed

lemma round_idle:
  assumes "reliable_crit E" and "handlers_off_crit c" and "run_state (consume_once E c None sy) w = (r, w')"
    and "waiting (qview_of ac sy w) = []"
  shows "qview_of ac sy w' = qview_of ac sy w"
  using consume_once_steps [OF assms(1-3)] assms(4) by (auto simp: round_events_def)

lemma rounds_take:
  assumes "reliable_crit E" and "handlers_off_crit c"
  shows "waiting (qview_of ac sy w) = ps @ q \<Longrightarrow> n \<le> length q
    \<Longrightarrow> \<exists>ps. waiting (qview_of ac sy (rounds E c sy n w)) = ps @ take (length q - n) q"
proof (induction n arbitrary: w ps q)
  case (Suc n)
  then obtain q1 d where q: "q = q1 @ [d]" by (cases q rule: rev_cases) auto
  obtain r w1 where r: "run_state (consume_once E c None sy) w = (r, w1)" by (metis surj_pair)
  have "waiting (qview_of ac sy w) = (ps @ q1) @ [d]" using Suc.prems(1) q by simp
  from round_replaces [OF assms r this] obtain ps1 where "waiting (qview_of ac sy w1) = (ps1 @ ps) @ q1" by auto
  from Suc.IH [OF this] Suc.prems(2) q r show ?case by simp
qed auto

lemma rounds_drain:
  assumes "reliable_crit E" and "handlers_off_crit c"
  shows "queue_weight E (waiting (qview_of ac sy w)) \<le> n \<Longrightarrow> waiting (qview_of ac sy (rounds E c sy n w)) = []
    \<and> flying (qview_of ac sy (rounds E c sy n w)) = flying (qview_of ac sy w)"
proof (induction n arbitrary: w)
  case 0
  then show ?case by (simp add: weight_zero)
next
  case (Suc n)
  obtain r w1 where r: "run_state (consume_once E c None sy) w = (r, w1)" by (metis surj_pair)
  have "queue_weight E (waiting (qview_of ac sy w1)) \<le> n \<and> flying (qview_of ac sy w1) = flying (qview_of ac sy w)"
  proof (cases "waiting (qview_of ac sy w)" rule: rev_cases)
    case Nil
    then show ?thesis using round_idle [OF assms r] by (simp add: queue_weight_def)
  next
    case (snoc q d)
    from round_replaces [OF assms r this] Suc.prems snoc show ?thesis by (auto simp: queue_weight_def)
  qed
  with Suc.IH [of w1] r show ?case by simp
qed

lemma takes_in_order:
  assumes "reliable_crit E" and "handlers_off_crit c" and "n < length (waiting (qview_of ac sy w))"
  shows "hd (round_events E ac c None sy (rounds E c sy n w)) = Take (rev (waiting (qview_of ac sy w)) ! n)"
proof -
  let ?q = "waiting (qview_of ac sy w)"
  obtain ps where ps: "waiting (qview_of ac sy (rounds E c sy n w)) = ps @ take (length ?q - n) ?q"
    using rounds_take [OF assms(1,2), of sy w "[]" ?q n] assms(3) by auto
  have ne: "take (length ?q - n) ?q \<noteq> []" using assms(3) by (cases ?q) auto
  have "last (take (length ?q - n) ?q) = rev ?q ! n"
    using assms(3) ne by (cases n) (auto simp: last_conv_nth rev_nth min_def)
  then show ?thesis using ps ne by (simp add: round_events_def ctx_done_def Let_def)
qed

end

text \<open>
  C19: A running consumer serves every job: on a server that answers, with handlers that leave it
  alone, round after round takes the waiting jobs in their order, the oldest first, and hands each
  that decodes to the handlers; and after three times as many rounds as jobs wait, retries
  included, the queue is empty and no job is left in flight that was not before.
\<close>

theorem queue_drains:
  assumes "deployment E ac al ad D" and "reliable_crit E" and "handlers_off_crit c"
  shows "(\<forall>n < length (rlst (ac (crit w)) (QueueKey sy)).
      hd (round_events E ac c None sy (rounds E c sy n w)) = Take (rev (rlst (ac (crit w)) (QueueKey sy)) ! n))
    \<and> (\<forall>n \<ge> 3 * length (rlst (ac (crit w)) (QueueKey sy)). rlst (ac (crit (rounds E c sy n w))) (QueueKey sy) = []
      \<and> rlst (ac (crit (rounds E c sy n w))) (ProcessingKey sy) = rlst (ac (crit w)) (ProcessingKey sy))"
  using deployment.takes_in_order [OF assms, of _ sy w]
    deployment.rounds_drain [OF assms, of sy w] le_trans [OF weight_at_most [of E "rlst (ac (crit w)) (QueueKey sy)"]]
  by (auto simp: qview_of_def)

theorem queue_drains_witness:
  "rlst (crit (rounds calm_env (demo_consumer (\<lambda>job. ret (Inl (EMsg ''down'')))) ''EURUSD'' 6
      (queue_world [demo_text, JNull]))) (QueueKey ''EURUSD'') = []"
  using queue_drains [OF calm_deployment reliable_crit_calm handlers_off_crit_demo, where w = "queue_world [demo_text, JNull]"
      and sy = "''EURUSD''"] by simp

subsection \<open>An accepted signal reaches its subscribers\<close>

text \<open>The UUIDs that the log takes come from the counter, and each row takes at most two draws.\<close>

definition log_ids :: "('d \<Rightarrow> tables) \<Rightarrow> ('r, 'l, 'd) world \<Rightarrow> uuid set" where
  "log_ids ad w = lr_id ` set (delivery_log (ad (pg w)))"

definition draws :: "('r, 'l, 'd) env \<Rightarrow> ('d \<Rightarrow> tables) \<Rightarrow> nat \<Rightarrow> ('r, 'l, 'd) world \<Rightarrow> ('r, 'l, 'd) world \<Rightarrow> bool" where
  "draws E ad k w w' \<longleftrightarrow> seed w \<le> seed w' \<and> seed w' \<le> seed w + k
     \<and> log_ids ad w' \<subseteq> log_ids ad w \<union> new_uuid E ` {seed w..<seed w'}"

lemma draws_refl: "draws E ad k w w"
  by (simp add: draws_def)

lemma draws_trans:
  assumes "draws E ad k w w1" and "draws E ad l w1 w'"
  shows "draws E ad (k + l) w w'"
proof -
  have "{seed w..<seed w1} \<union> {seed w1..<seed w'} = {seed w..<seed w'}"
    using assms by (intro ivl_disj_un_two(3)) (simp_all add: draws_def)
  then have "new_uuid E ` {seed w..<seed w'} = new_uuid E ` {seed w..<seed w1} \<union> new_uuid E ` {seed w1..<seed w'}"
    by (metis image_Un)
  then show ?thesis using assms unfolding draws_def by auto
qed

lemma draws_more: "draws E ad k w w' \<Longrightarrow> k \<le> l \<Longrightarrow> draws E ad l w w'"
  by (auto simp: draws_def)

lemma draws_quiet: "quiet m \<Longrightarrow> run_state m w = (x, w') \<Longrightarrow> draws E ad 1 w w'"
  using quietD [of m w x w'] by (auto simp: draws_def log_ids_def)

lemma upd_log_ids:
  "(\<And>r. lr_id (f r) = lr_id r) \<Longrightarrow> lr_id ` set (upd P f l) = lr_id ` set l"
proof -
  assume "\<And>r. lr_id (f r) = lr_id r"
  then have "lr_id \<circ> (\<lambda>r. if P r then f r else r) = lr_id" by auto
  then show ?thesis by (metis upd_def image_comp set_map)
qed

text \<open>Ids not used yet stay so for what is drawn later.\<close>

lemma new_ids_draws:
  assumes "new_ids E (seed w) (k + l) (ad (pg w))" and "draws E ad k w w'"
  shows "new_ids E (seed w') l (ad (pg w'))"
proof -
  have s: "{seed w'..<seed w' + l} \<subseteq> {seed w..<seed w + (k + l)}" "{seed w..<seed w'} \<subseteq> {seed w..<seed w + (k + l)}"
    using assms(2) by (auto simp: draws_def)
  have inj: "inj_on (new_uuid E) {seed w..<seed w + (k + l)}" using assms(1) by (simp add: new_ids_def)
  have "new_uuid E ` {seed w'..<seed w' + l} \<inter> new_uuid E ` {seed w..<seed w'} = {}"
    using inj_on_image_Int [OF inj s] by simp
  moreover have "new_uuid E ` {seed w'..<seed w' + l} \<inter> log_ids ad w = {}"
    using assms(1) image_mono [OF s(1), of "new_uuid E"] unfolding new_ids_def log_ids_def by blast
  moreover have "inj_on (new_uuid E) {seed w'..<seed w' + l}" by (rule inj_on_subset [OF inj s(1)])
  ultimately show ?thesis using assms(2) unfolding new_ids_def draws_def log_ids_def by blast
qed

context deployment
begin

lemma log_draws:
  "run_state (InsertDeliveryLog E sg sb ch) w = (x, w') \<Longrightarrow> draws E ad 1 w w'"
  "run_state (MarkDelivered E i) w = (y, w') \<Longrightarrow> draws E ad 0 w w'"
  "run_state (MarkFailed E i e) w = (z, w') \<Longrightarrow> draws E ad 0 w w'"
proof -
  assume "run_state (InsertDeliveryLog E sg sb ch) w = (x, w')"
  then obtain r where r: "run_state (DB E (Auto (InsertLog (new_uuid E (seed w)) sg sb ch))) (w\<lparr>seed := Suc (seed w)\<rparr>) = (r, w')"
    by (auto simp: InsertDeliveryLog_def split: prod.splits)
  from DB_any [OF r] keepsD [OF DB_keeps(6) r] show "draws E ad 1 w w'"
    by (auto simp: draws_def log_ids_def split: if_splits)
next
  assume "run_state (MarkDelivered E i) w = (y, w')"
  then obtain r where r: "run_state (DB E (Auto (UpdateDelivered i))) w = (r, w')"
    by (auto simp: MarkDelivered_def split: prod.splits)
  from DB_any [OF r] keepsD [OF DB_keeps(6) r] show "draws E ad 0 w w'"
    by (elim disjE) (simp_all add: draws_def log_ids_def upd_log_ids)
next
  assume "run_state (MarkFailed E i e) w = (z, w')"
  then obtain r where r: "run_state (DB E (Auto (UpdateFailed e i))) w = (r, w')"
    by (auto simp: MarkFailed_def split: prod.splits)
  from DB_any [OF r] keepsD [OF DB_keeps(6) r] show "draws E ad 0 w w'"
    by (elim disjE) (simp_all add: draws_def log_ids_def upd_log_ids)
qed

lemma deliver_all_draws:
  assumes "\<And>s. quiet (send s)"
  shows "run_state (deliver_all E ch target send job ss e) w = (x, w') \<Longrightarrow> draws E ad (2 * length ss) w w'"
proof (induction ss arbitrary: w e)
  case (Cons s ss)
  show ?case
  proof (cases "Channel s = ch \<and> target s \<noteq> []")
    case False
    then have "run_state (deliver_all E ch target send job ss e) w = (x, w')" using Cons.prems by auto
    from draws_more [OF Cons.IH [OF this]] show ?thesis by simp
  next
    case True
    obtain i y w1 where w1: "run_state (InsertDeliveryLog E (SignalID job) (sub_ID s) ch) w = ((i, y), w1)" by (metis surj_pair)
    obtain z w2 where w2: "run_state (send s) w1 = (z, w2)" by (metis surj_pair)
    have "\<exists>w3 e'. draws E ad 0 w2 w3 \<and> run_state (deliver_all E ch target send job ss e') w3 = (x, w')"
    proof (cases z)
      case (Inl err)
      obtain u w3 where m: "run_state (MarkFailed E i err) w2 = (u, w3)" by (metis surj_pair)
      then have "run_state (deliver_all E ch target send job ss (Some err)) w3 = (x, w')" using Cons.prems True w1 w2 Inl by auto
      with log_draws(3) [OF m] show ?thesis by blast
    next
      case (Inr v)
      obtain u w3 where m: "run_state (MarkDelivered E i) w2 = (u, w3)" by (metis surj_pair)
      then have "run_state (deliver_all E ch target send job ss e) w3 = (x, w')" using Cons.prems True w1 w2 Inr by auto
      with log_draws(2) [OF m] show ?thesis by blast
    qed
    then obtain w3 e' where w3: "draws E ad 0 w2 w3" "run_state (deliver_all E ch target send job ss e') w3 = (x, w')" by blast
    have "draws E ad (1 + (1 + (0 + 2 * length ss))) w w'"
      by (rule draws_trans [OF log_draws(1) [OF w1] draws_trans [OF draws_quiet [OF assms w2] draws_trans [OF w3(1) Cons.IH [OF w3(2)]]]])
    then show ?thesis by simp
  qed
qed (simp add: draws_refl)

lemma copy_all_draws:
  "run_state (copy_all E job ss e) w = (x, w') \<Longrightarrow> draws E ad (2 * length ss) w w'"
proof (induction ss arbitrary: w e)
  case (Cons s ss)
  show ?case
  proof (cases "Channel s = ''mt4'' \<and> wants_symbol s (Symbol (Signal job))")
    case False
    then have "run_state (copy_all E job ss e) w = (x, w')" using Cons.prems by auto
    from draws_more [OF Cons.IH [OF this]] show ?thesis by simp
  next
    case True
    obtain i y w1 where w1: "run_state (InsertDeliveryLog E (SignalID job) (sub_ID s) ''mt4'') w = ((i, y), w1)" by (metis surj_pair)
    obtain z w2 where w2: "run_state (MarkDelivered E i) w1 = (z, w2)" by (metis surj_pair)
    obtain e' where "run_state (copy_all E job ss e') w2 = (x, w')" using Cons.prems True w1 w2 by auto
    from draws_trans [OF log_draws(1) [OF w1] draws_trans [OF log_draws(2) [OF w2] Cons.IH [OF this]]]
    show ?thesis by (rule draws_more) simp
  qed
qed (simp add: draws_refl)

end

text \<open>The subscribers that a handler writes to, in the order of the worker's handlers.\<close>

definition recipients :: "NotifyConfig \<Rightarrow> string \<Rightarrow> tables \<Rightarrow> string \<Rightarrow> Subscriber list" where
  "recipients ncfg symbol t ch = (if ch = ''telegram'' \<and> TelegramToken ncfg = [] then []
     else filter (addressed ch symbol) (active_subs t))"

definition worker_channels :: "string list" where
  "worker_channels = [''telegram'', ''whatsapp'', ''webhook'', ''mt4'']"

definition all_recipients :: "NotifyConfig \<Rightarrow> string \<Rightarrow> tables \<Rightarrow> string list \<Rightarrow> (string \<times> Subscriber) list" where
  "all_recipients ncfg symbol t chs = concat (map (\<lambda>ch. map (Pair ch) (recipients ncfg symbol t ch)) chs)"

lemma con_handlers_worker: "con_handlers (worker_consumer E wcfg ncfg) = map (handler_of E ncfg) worker_channels"
  by (simp add: worker_consumer_def RegisterHandler_def NewConsumer_def worker_channels_def handler_of_def)

context deployment
begin

lemma handler_draws:
  assumes "reliable_db E" and "ch \<in> set channels" and "run_state (handler_of E ncfg ch job) w = (x, w')"
  shows "draws E ad (2 * length (active_subs (ad (pg w)))) w w'"
proof -
  let ?subs = "active_subs (ad (pg w))"
  obtain w1 where l: "run_state (ListActiveSubscribers E) w = (Inr ?subs, w1)"
    and w1: "ad (pg w1) = ad (pg w)" "seed w1 = seed w" using ListActiveSubscribers_ok [OF assms(1)] by blast
  have eq: "draws E ad k w1 w' = draws E ad k w w'" for k by (simp add: draws_def log_ids_def w1)
  have fin: ?thesis if "run_state (deliver_all E ch target send job ?subs None) w1 = (e, w')" "\<And>s. quiet (send s)" for target send e
    using deliver_all_draws [OF that(2,1)] eq by simp
  from assms(2) consider "ch = ''telegram''" | "ch = ''webhook''" | "ch = ''whatsapp''" | "ch = ''mt4''"
    by (auto simp: channels_def)
  then show ?thesis
  proof cases
    case 1
    show ?thesis
    proof (cases "TelegramToken ncfg = []")
      case True
      then have "w' = w" using assms(3) 1 by (simp add: handler_of_def telegram_Handle_def)
      then show ?thesis by (simp add: draws_refl)
    next
      case False
      then obtain e where "run_state (deliver_all E ch (\<lambda>s. config_string (Config s) ''chat_id'') (\<lambda>s. telegram_send E
          (TelegramToken ncfg) (TelegramBaseURL ncfg) (config_string (Config s) ''chat_id'') (formatMessage (Signal job)))
          job ?subs None) w1 = (e, w')"
        using assms(3) l 1 by (auto simp: handler_of_def telegram_Handle_def Let_def split: prod.splits)
      then show ?thesis by (rule fin) simp
    qed
  next
    case 2
    obtain e where "run_state (deliver_all E ch (\<lambda>s. config_string (Config s) ''url'') (\<lambda>s. webhook_send E
        (config_string (Config s) ''url'') (config_string (Config s) ''secret'') (webhook_payload E job (clock w1)))
        job ?subs None) w1 = (e, w')"
      using assms(3) l 2 by (auto simp: handler_of_def webhook_Handle_def Let_def split: prod.splits)
    then show ?thesis by (rule fin) simp
  next
    case 3
    let ?phone = "\<lambda>s. config_string (Config s) ''phone''" and ?m = "formatPlain (Signal job)"
    obtain e where "run_state (deliver_all E ch ?phone
        (\<lambda>s. if WhatsAppProvider ncfg = ''twilio'' then twilio E ncfg (?phone s) ?m
             else if WhatsAppProvider ncfg = ''callmebot'' then callmebot E ncfg (?phone s) ?m
             else ret (Inl (EMsg (''unknown provider: '' @ WhatsAppProvider ncfg))))
        job ?subs None) w1 = (e, w')"
      using assms(3) l 3 by (auto simp: handler_of_def whatsapp_Handle_def Let_def split: prod.splits)
    then show ?thesis by (rule fin) simp
  next
    case 4
    then obtain e where "run_state (copy_all E job ?subs None) w1 = (e, w')"
      using assms(3) l by (auto simp: handler_of_def mt4copier_Handle_def split: prod.splits)
    from copy_all_draws [OF this] eq show ?thesis by simp
  qed
qed

lemma handler_rows:
  assumes "reliable_db E" and "ch \<in> set channels"
    and "new_ids E (seed w) (2 * length (active_subs (ad (pg w)))) (ad (pg w))"
    and "run_state (handler_of E ncfg ch job) w = (x, w')"
  shows "\<exists>rows. ad (pg w') = (ad (pg w))\<lparr>delivery_log := delivery_log (ad (pg w)) @ rows\<rparr>
    \<and> list_all2 (logged job ch (clock w)) (recipients ncfg (Symbol (Signal job)) (ad (pg w)) ch) rows
    \<and> x = error_of (last_error rows None)"
proof (cases "ch = ''telegram'' \<and> TelegramToken ncfg = []")
  case True
  then show ?thesis using assms(4) by (simp add: handler_of_def telegram_Handle_def recipients_def error_of_def)
next
  case False
  then have "recipients ncfg (Symbol (Signal job)) (ad (pg w)) ch
      = filter (addressed ch (Symbol (Signal job))) (active_subs (ad (pg w)))" by (auto simp: recipients_def)
  then show ?thesis using delivery_rows [OF assms(1,2) _ assms(3,4)] False by simp
qed

lemma last_error_append: "last_error (a @ b) e = last_error b (last_error a e)"
  by (induction a arbitrary: e) simp_all

lemma last_error_some: "(case last_error rows None of None \<Rightarrow> e | Some x \<Rightarrow> Some x) = last_error rows e"
proof (induction rows arbitrary: e)
  case (Cons r rs)
  show ?case
  proof (cases "lr_error r")
    case None
    then show ?thesis using Cons [of e] by simp
  next
    case (Some x)
    obtain y where "last_error rs (Some x) = Some y" using last_error_None [of rs "Some x"] by auto
    with Some show ?thesis by simp
  qed
qed simp

lemma handlers_rows:
  assumes "reliable_db E"
  shows "set chs \<subseteq> set channels
    \<Longrightarrow> new_ids E (seed w) (length chs * (2 * length (active_subs (ad (pg w))))) (ad (pg w))
    \<Longrightarrow> run_state (run_handlers (map (handler_of E ncfg) chs) job e) w = (x, w')
    \<Longrightarrow> \<exists>rows. ad (pg w') = (ad (pg w))\<lparr>delivery_log := delivery_log (ad (pg w)) @ rows\<rparr>
      \<and> list_all2 (\<lambda>(ch, s). logged job ch (clock w) s) (all_recipients ncfg (Symbol (Signal job)) (ad (pg w)) chs) rows
      \<and> x = last_error rows e"
proof (induction chs arbitrary: w e)
  case Nil
  then show ?case by (intro exI [of _ "[]"]) (simp add: all_recipients_def)
next
  case (Cons ch chs)
  let ?k = "2 * length (active_subs (ad (pg w)))"
  have ch: "ch \<in> set channels" using Cons.prems(1) by simp
  obtain y w1 where h: "run_state (handler_of E ncfg ch job) w = (y, w1)" by (metis surj_pair)
  have n: "new_ids E (seed w) (?k + length chs * ?k) (ad (pg w))" using Cons.prems(2) by (simp add: algebra_simps)
  obtain r1 where r1: "ad (pg w1) = (ad (pg w))\<lparr>delivery_log := delivery_log (ad (pg w)) @ r1\<rparr>"
    "list_all2 (logged job ch (clock w)) (recipients ncfg (Symbol (Signal job)) (ad (pg w)) ch) r1"
    "y = error_of (last_error r1 None)"
    using handler_rows [OF assms ch new_ids_fewer [OF n] h] by auto
  have c1: "clock w1 = clock w"
    by (rule keepsD [OF handlers_keep_off(3) [of "handler_of E ncfg ch" E _ ncfg] h])
      (use ch in \<open>auto simp: con_handlers_worker worker_channels_def channels_def\<close>)
  have s1: "active_subs (ad (pg w1)) = active_subs (ad (pg w))" by (simp add: active_subs_def r1(1))
  have a1: "recipients ncfg sy (ad (pg w1)) = recipients ncfg sy (ad (pg w))" for sy
    by (simp add: recipients_def s1 fun_eq_iff)
  have "new_ids E (seed w1) (length chs * (2 * length (active_subs (ad (pg w1))))) (ad (pg w1))"
    unfolding s1 by (rule new_ids_draws [OF n handler_draws [OF assms ch h]])
  from Cons.IH [OF _ this, of "case y of Inl err \<Rightarrow> Some err | Inr _ \<Rightarrow> e"] Cons.prems(1,3) h
  obtain r2 where r2: "ad (pg w') = (ad (pg w1))\<lparr>delivery_log := delivery_log (ad (pg w1)) @ r2\<rparr>"
    "list_all2 (\<lambda>(ch, s). logged job ch (clock w1) s) (all_recipients ncfg (Symbol (Signal job)) (ad (pg w1)) chs) r2"
    "x = last_error r2 (case y of Inl err \<Rightarrow> Some err | Inr _ \<Rightarrow> e)" by auto
  have e1: "(case y of Inl err \<Rightarrow> Some err | Inr _ \<Rightarrow> e) = last_error r1 e"
    using last_error_some [of e r1] r1(3) by (simp add: error_of_def split: option.splits)
  have "list_all2 (\<lambda>(ch, s). logged job ch (clock w) s) (map (Pair ch) (recipients ncfg (Symbol (Signal job)) (ad (pg w)) ch)) r1"
    using r1(2) by (simp add: list_all2_map1)
  moreover have "list_all2 (\<lambda>(ch, s). logged job ch (clock w) s) (all_recipients ncfg (Symbol (Signal job)) (ad (pg w)) chs) r2"
    using r2(2) by (simp add: c1 all_recipients_def a1)
  ultimately show ?case
    using r1(1) r2(1,3) e1 by (intro exI [of _ "r1 @ r2"]) (simp add: all_recipients_def list_all2_appendI last_error_append)
qed

end

context deployment
begin

lemma after_handlers_log:
  "keeps (\<lambda>w. delivery_log (ad (pg w))) (case lastErr of
       None \<Rightarrow> do { _ \<leftarrow> AckJob E sy raw; ret () }
     | Some err \<Rightarrow> do {
         let job = job0\<lparr>Attempts := wrap64 (Attempts job0 + 1)\<rparr>;
         if Attempts job \<ge> MaxRetries (con_cfg c) then do {
           _ \<leftarrow> MoveToDeadLetter E sy raw;
           _ \<leftarrow> InsertDeadLetter E raw (Some (SignalID job)) err;
           ret () }
         else do {
           b \<leftarrow> backoff E (con_cfg c) (Attempts job);
           _ \<leftarrow> AckJob E sy raw;
           stopped \<leftarrow> wait_or_done ctx b;
           if stopped then ret ()
           else do { _ \<leftarrow> EnqueueJob E sy (updated_payload E job); ret () } } })" (is "keeps ?f _")
proof -
  have "keeps ?f (InsertDeadLetter E i j e)" for i j e
    unfolding InsertDeadLetter_def
    by (intro keeps_bind keeps_return keeps_comp [OF uuid_New_keeps(3)] DB_frame [where f = delivery_log]) simp
  then show ?thesis
    unfolding Let_def
    by (intro keeps_bind keeps_option keeps_if keeps_return keeps_comp [OF critical_keeps(4)] keeps_comp [OF critical_keeps(6)]
        keeps_comp [OF critical_keeps(8)] keeps_comp [OF backoff_keeps(3)] keeps_comp [OF wait_or_done_keeps(2)])
qed

lemma round_delivers:
  assumes "reliable_crit E" and "reliable_db E" and "waiting (qview_of ac sy w) = q @ [d]"
    and "Unmarshal_job (uuid_prs E) d = Some job"
    and "new_ids E (seed w) (8 * length (active_subs (ad (pg w)))) (ad (pg w))"
    and "run_state (consume_once E (worker_consumer E wcfg ncfg) None sy) w = (r, w')"
  shows "\<exists>rows. delivery_log (ad (pg w')) = delivery_log (ad (pg w)) @ rows
    \<and> list_all2 (\<lambda>(ch, s). logged job ch (clock w) s)
        (all_recipients ncfg (Symbol (Signal job)) (ad (pg w)) worker_channels) rows"
proof -
  let ?c = "worker_consumer E wcfg ncfg"
  obtain w1 where d: "run_state (DequeueJob E sy (2 * Second)) w = (Inr (Some d), w1)"
    and w1: "pg w1 = pg w" "seed w1 = seed w" "clock w1 = clock w"
    using DequeueJob_view [OF assms(1), of w sy "2 * Second"] assms(3) by auto
  obtain x w2 where h: "run_state (run_handlers (con_handlers ?c) job None) w1 = (x, w2)" by (metis surj_pair)
  have "set worker_channels \<subseteq> set channels" by (simp add: worker_channels_def channels_def)
  moreover have "new_ids E (seed w1) (length worker_channels * (2 * length (active_subs (ad (pg w1))))) (ad (pg w1))"
    using assms(5) w1 by (simp add: worker_channels_def)
  ultimately obtain rows where rows: "ad (pg w2) = (ad (pg w1))\<lparr>delivery_log := delivery_log (ad (pg w1)) @ rows\<rparr>"
    "list_all2 (\<lambda>(ch, s). logged job ch (clock w1) s) (all_recipients ncfg (Symbol (Signal job)) (ad (pg w1)) worker_channels) rows"
    using handlers_rows [OF assms(2), of worker_channels w1 ncfg job None x w2] h con_handlers_worker by metis
  obtain u w3 where p: "run_state (processJob E ?c None sy d job) w1 = (u, w3)" by (metis surj_pair)
  have "w' = w3" using assms(4,6) d p by (simp add: consume_once_def ctx_done_def)
  moreover have "delivery_log (ad (pg w3)) = delivery_log (ad (pg w2))"
    by (rule keepsD [OF after_handlers_log [of sy d job ?c None x]])
      (use p h in \<open>simp add: processJob_def\<close>)
  ultimately show ?thesis using rows w1 by auto
qed

end

text \<open>
  C2: An accepted signal reaches its subscribers: let a valid signal be accepted while n jobs wait
  in its symbol's queue, and let nothing take from that queue until the worker's consumer runs.
  Then the n rounds before serve the n older jobs, and the next round appends to the delivery log
  exactly one row for every active subscriber that a channel addresses, in the order of the
  handlers, each final (delivered or failed) and for the id that the sender was answered.
\<close>

theorem accepted_signal_delivered:
  assumes "deployment E ac al ad D" and "reliable_crit E" and "reliable_db E" and "0 \<le> DeduplicateTTL cfg"
    and "admissible cfg (clock w) r sg" and "live (clock w) (ac (crit w)) (dedupKey (TicketID sg) (SignalType sg)) = None"
    and "row_fits (new_uuid E (seed w)) (clock w) sg (ad (pg w))" and "job_ok (first_job E w sg)"
    and "run_state (Receive E cfg r) w = (resp, w1)"
    and "rlst (ac (crit w2)) (QueueKey (Symbol sg)) = newer @ rlst (ac (crit w1)) (QueueKey (Symbol sg))"
    and "rounds E (worker_consumer E wcfg ncfg) (Symbol sg) (length (rlst (ac (crit w)) (QueueKey (Symbol sg)))) w2 = wn"
    and "new_ids E (seed wn) (8 * length (active_subs (ad (pg wn)))) (ad (pg wn))"
    and "run_state (consume_once E (worker_consumer E wcfg ncfg) None (Symbol sg)) wn = (b, w3)"
  shows "\<exists>i rows. resp = accepted_response E i \<and> i \<in> sr_id ` set (signals (ad (pg w1)))
    \<and> delivery_log (ad (pg w3)) = delivery_log (ad (pg wn)) @ rows
    \<and> list_all2 (\<lambda>(ch, s) l. lr_signal l = i \<and> lr_sub l = sub_ID s \<and> lr_channel l = ch \<and> lr_attempts l = 1
          \<and> lr_attempted l = Some (clock wn) \<and> lr_status l = (if lr_error l = None then ''delivered'' else ''failed''))
        (all_recipients ncfg (Symbol sg) (ad (pg wn)) worker_channels) rows"
proof -
  let ?i = "new_uuid E (seed w)" and ?sy = "Symbol sg" and ?job = "first_job E w sg" and ?q = "rlst (ac (crit w)) (QueueKey (Symbol sg))"
  obtain w1' j where r: "run_state (Receive E cfg r) w = (accepted_response E ?i, w1')"
    "ad (pg w1') = (ad (pg w))\<lparr>signals := signals (ad (pg w)) @ [signal_row_of ?i (clock w) sg]\<rparr>"
    "rlst (ac (crit w1')) = (rlst (ac (crit w)))(QueueKey ?sy := j # ?q)"
    and j: "Unmarshal_job (uuid_prs E) j = Some ?job"
    using deployment.accepted_effect [OF assms(1-8)] by blast
  have job: "Signal ?job = sg" "SignalID ?job = ?i" by (simp_all add: first_job_def)
  have w1: "w1 = w1'" "resp = accepted_response E ?i" using r(1) assms(9) by auto
  have "waiting (qview_of ac ?sy w2) = newer @ (j # ?q)" using assms(10) r(3) w1 by (simp add: qview_of_def)
  then obtain ps where "waiting (qview_of ac ?sy (rounds E (worker_consumer E wcfg ncfg) ?sy (length ?q) w2))
      = ps @ take (length (j # ?q) - length ?q) (j # ?q)"
    using deployment.rounds_take [OF assms(1,2) handlers_off_crit_worker, where n = "length ?q" and q = "j # ?q"] by fastforce
  then have wn: "waiting (qview_of ac ?sy wn) = ps @ [j]" by (simp add: assms(11))
  obtain rows where rows: "delivery_log (ad (pg w3)) = delivery_log (ad (pg wn)) @ rows"
    "list_all2 (\<lambda>(ch, s). logged ?job ch (clock wn) s) (all_recipients ncfg ?sy (ad (pg wn)) worker_channels) rows"
    using deployment.round_delivers [OF assms(1-3) wn j assms(12,13)] unfolding job by blast
  have "list_all2 (\<lambda>(ch, s) l. lr_signal l = ?i \<and> lr_sub l = sub_ID s \<and> lr_channel l = ch \<and> lr_attempts l = 1
      \<and> lr_attempted l = Some (clock wn) \<and> lr_status l = (if lr_error l = None then ''delivered'' else ''failed''))
      (all_recipients ncfg ?sy (ad (pg wn)) worker_channels) rows"
    by (rule list_all2_mono [OF rows(2)]) (auto simp: logged_def final_row_def job split: option.splits)
  moreover have "?i \<in> sr_id ` set (signals (ad (pg w1)))" using r(2) w1 by (simp add: signal_row_of_def)
  ultimately show ?thesis using rows(1) w1(2) by blast
qed

theorem accepted_signal_delivered_witness:
  "\<exists>i w1 b w3 l1 l2. run_state (Receive calm_env demo_cfg (demo_post ''2026-01-01T00:00:00Z'' ''OPEN'' (27 / 20)))
       (calm_world sub_tables demo_time) = (accepted_response calm_env i, w1)
    \<and> run_state (consume_once calm_env (worker_consumer calm_env demo_worker demo_ncfg) None ''EURUSD'') (w1\<lparr>seed := 100\<rparr>) = (b, w3)
    \<and> delivery_log (pg w3) = [l1, l2] \<and> lr_signal l1 = i \<and> lr_sub l1 = 21 \<and> lr_signal l2 = i \<and> lr_sub l2 = 20"
proof -
  let ?r = "demo_post ''2026-01-01T00:00:00Z'' ''OPEN'' (27 / 20)" and ?w = "calm_world sub_tables demo_time"
    and ?sg = "demo_signal ''OPEN'' (27 / 20)" and ?c = "worker_consumer calm_env demo_worker demo_ncfg"
  have a: "admissible demo_cfg (clock ?w) ?r ?sg"
    using demo_admissible [of demo_time "''OPEN''" "27 / 20"] by (simp add: Second_def signal_types)
  have t: "0 \<le> DeduplicateTTL demo_cfg" by (simp add: demo_cfg_def Second_def)
  have sy: "Symbol ?sg = ''EURUSD''" by (simp add: demo_signal_def)
  have l0: "delivery_log sub_tables = []" "signals sub_tables = []" "api_keys sub_tables = api_keys (demo_tables [] ''active'' None)"
    by (simp_all add: sub_tables_def demo_tables_def empty_tables_def)
  have fits: "row_fits (new_uuid calm_env (seed ?w)) (clock ?w) ?sg (pg ?w)"
    using demo_row_fits [of 1] by (simp add: row_fits_def demo_signal_def l0 empty_tables_def)
  obtain resp w1 where r: "run_state (Receive calm_env demo_cfg ?r) ?w = (resp, w1)" by (metis surj_pair)
  let ?w2 = "w1\<lparr>seed := 100\<rparr>"
  obtain b w3 where c: "run_state (consume_once calm_env ?c None ''EURUSD'') ?w2 = (b, w3)" by (metis surj_pair)
  have p1: "pg w1 = sub_tables\<lparr>signals := [signal_row_of 1 demo_time ?sg]\<rparr>"
    using calm.accepted_effect [OF reliable_crit_calm reliable_calm t a _ _ demo_job_ok] fits r l0 by auto
  have subs: "active_subs (pg w1) = active_subs sub_tables" "delivery_log (pg w1) = []"
    by (simp_all add: p1 active_subs_def l0)
  have "inj_on (of_nat :: nat \<Rightarrow> uuid) {100..<124}"
    by (rule inj_on_subset [OF inj_on_word_of_nat]) auto
  moreover have "length (active_subs sub_tables) = 3" by (simp add: active_subs_def sub_tables_def demo_sub_def)
  ultimately have ids: "new_ids calm_env (seed ?w2) (8 * length (active_subs (id (pg ?w2)))) (id (pg ?w2))"
    by (simp add: new_ids_def subs)
  have rec: "all_recipients demo_ncfg ''EURUSD'' (pg w1) worker_channels
      = [(''telegram'', scan_sub_row (demo_sub 21 ''telegram'' [(''chat_id'', JStr ''99'')])), (''mt4'', scan_sub_row (demo_sub 20 ''mt4'' []))]"
    by (simp add: all_recipients_def recipients_def worker_channels_def active_subs_def p1 sub_tables_def demo_sub_def addressed_def
        scan_sub_row_def config_string_def config_get_def canonical_def wants_symbol_def demo_ncfg_def)
  have "\<exists>i rows. resp = accepted_response calm_env i \<and> i \<in> sr_id ` set (signals (id (pg w1)))
    \<and> delivery_log (id (pg w3)) = delivery_log (id (pg ?w2)) @ rows
    \<and> list_all2 (\<lambda>(ch, s) l. lr_signal l = i \<and> lr_sub l = sub_ID s \<and> lr_channel l = ch \<and> lr_attempts l = 1
          \<and> lr_attempted l = Some (clock ?w2) \<and> lr_status l = (if lr_error l = None then ''delivered'' else ''failed''))
        (all_recipients demo_ncfg (Symbol ?sg) (id (pg ?w2)) worker_channels) rows"
    by (rule accepted_signal_delivered [OF calm_deployment reliable_crit_calm reliable_calm t a _ _ _ r, where newer = "[]" and b = b])
      (use fits demo_job_ok ids c in \<open>simp_all add: sy\<close>)
  then show ?thesis using r c by (fastforce simp: sy subs rec list_all2_Cons1 scan_sub_row_def demo_sub_def)
qed

end
