(* ===== verification/Lifecycle.thy ===== *)
theory Lifecycle
  imports Integrity
begin

text \<open>
  \<open>cmd/server/main.go\<close> from its first line to its last, and what holds of every answer that the
  process gives: the server is ready before it serves, its answers carry the headers of the wrapper
  and their line in the log, and a handler panics in one case only.
\<close>

subsection \<open>The process\<close>

text \<open>
  How a run ends: the configuration panics, a service does not start, or a signal stops it. The
  requests are those accepted until then; \<open>Shutdown\<close> waits for the ones under way (up to 15
  seconds), and its own failure is only logged. \<open>Inl\<close>: the port could not be listened on, and the
  process exits. Updates left to the background are not waited for.
\<close>

datatype server_end = Panicked string | Failed goerr | Stopped

fun serve_all :: "('r, 'l, 'd) env \<Rightarrow> AuthConfig \<Rightarrow> request list \<Rightarrow> ('r, 'l, 'd, (response \<times> log_line option) list) io" where
  "serve_all E cfg [] = ret []"
| "serve_all E cfg (r # rs) = do {
     x \<leftarrow> serve E cfg r;
     xs \<leftarrow> serve_all E cfg rs;
     ret (x # xs) }"

definition server_main :: "('r, 'l, 'd) env \<Rightarrow> getenv \<Rightarrow> (string \<Rightarrow> string option) \<Rightarrow> string + dir_entry list
    \<Rightarrow> string + request list \<Rightarrow> ('r, 'l, 'd, server_end \<times> (response \<times> log_line option) list) io" where
  "server_main E g dsn_error migrations incoming = (case Load g of
     Inl key \<Rightarrow> ret (Panicked (''required env var not set: '' @ key), [])
   | Inr cfg \<Rightarrow> do {
       x \<leftarrow> init E dsn_error cfg migrations;
       case x of
         Inl e \<Rightarrow> ret (Failed e, [])
       | Inr _ \<Rightarrow>
           (case incoming of
              Inl e \<Rightarrow> ret (Failed (EWrap ''server error'' (ESvc e)), [])
            | Inr rs \<Rightarrow> do {
                xs \<leftarrow> serve_all E (Auth cfg) rs;
                ret (Stopped, xs) }) })"

subsection \<open>Ready before it serves\<close>

lemma Load_set: "Load g = Inr cfg \<Longrightarrow> v \<in> set required_vars \<Longrightarrow> g v \<noteq> []"
  by (auto simp: required_vars_def Load_def mustEnv_def split: if_splits sum.splits)

context deployment
begin

lemma init_migrated:
  assumes "reliable_db E" and "scripts_separate D" and "run_state (init E de cfg (Inr ens)) w = (Inr (), w')"
  shows "\<exists>fs. schema_migrations (ad (pg w')) = Some fs \<and> (\<forall>en \<in> set ens. is_migration en \<longrightarrow> de_name en \<in> set fs)"
proof -
  obtain v where m: "run_state (Migrate E (Inr ens)) v = (Inr (), w')"
    using assms(3) by (auto simp: init_def split: sum.splits prod.splits)
  have "\<exists>w'. run_state (DB E (Auto CreateMigrations)) v = (Inr (PDone 0), w') \<and>
      schema_migrations (ad (pg w')) = Some (case schema_migrations (ad (pg v)) of None \<Rightarrow> [] | Some fs \<Rightarrow> fs)"
    using reliable_DB [OF assms(1), of CreateMigrations v] by (auto split: option.splits)
  then obtain u fs where "run_state (migrate_entries E ens) u = (Inr (), w')" "schema_migrations (ad (pg u)) = Some fs"
    using m by (auto simp: Migrate_def)
  with migrate_records [OF assms(1,2)] show ?thesis by blast
qed

lemma main_ready:
  assumes "reliable_db E" and "scripts_separate D"
    and "run_state (server_main E g de (Inr ens) incoming) w = ((end, xs), w')" and "xs \<noteq> []"
  shows "\<exists>cfg w1 rs fs. Load g = Inr cfg \<and> incoming = Inr rs \<and> end = Stopped
    \<and> run_state (init E de cfg (Inr ens)) w = (Inr (), w1) \<and> run_state (serve_all E (Auth cfg) rs) w1 = (xs, w')
    \<and> schema_migrations (ad (pg w1)) = Some fs \<and> (\<forall>en \<in> set ens. is_migration en \<longrightarrow> de_name en \<in> set fs)"
proof -
  obtain cfg where cfg: "Load g = Inr cfg" using assms(3,4) by (auto simp: server_main_def split: sum.splits)
  obtain x w1 where i: "run_state (init E de cfg (Inr ens)) w = (x, w1)" by (metis surj_pair)
  obtain rs where "x = Inr ()" "incoming = Inr rs" "end = Stopped" "run_state (serve_all E (Auth cfg) rs) w1 = (xs, w')"
    using assms(3,4) cfg i by (auto simp: server_main_def split: sum.splits prod.splits)
  with cfg i init_migrated [OF assms(1,2), of de cfg ens w w1] show ?thesis by auto
qed

end

text \<open>
  C38: A server that has answered any request was ready for it: every required variable is set (so
  no secret is empty), Postgres and Redis have answered, and every migration of the directory is
  recorded as applied before the first request is served. (The database answers every call and no
  script touches the table of applied migrations.)
\<close>

theorem served_only_when_ready:
  assumes "deployment E ac al ad D" and "reliable_db E" and "scripts_separate D"
    and "run_state (server_main E g de (Inr ens) incoming) w = ((end, xs), w')" and "xs \<noteq> []"
  shows "(\<forall>v \<in> set required_vars. g v \<noteq> []) \<and> (\<exists>cfg w1 rs fs. Load g = Inr cfg \<and> incoming = Inr rs \<and> end = Stopped
    \<and> run_state (init E de cfg (Inr ens)) w = (Inr (), w1) \<and> run_state (serve_all E (Auth cfg) rs) w1 = (xs, w')
    \<and> schema_migrations (ad (pg w1)) = Some fs \<and> (\<forall>en \<in> set ens. is_migration en \<longrightarrow> de_name en \<in> set fs))"
  using deployment.main_ready [OF assms] Load_set by blast

definition demo_getenv :: getenv where
  "demo_getenv k = (if k \<in> set required_vars then ''x'' else [])"

lemma demo_init: "\<exists>w1. run_state (init calm_env (\<lambda>_. None) cfg (Inr [demo_migration])) (calm_world empty_tables 0) = (Inr (), w1)"
proof -
  have "\<exists>w1. run_state (Migrate calm_env (Inr [demo_migration])) (calm_world empty_tables 0) = (Inr (), w1)"
    by (simp add: Migrate_def DB_def calm_env_def calm_world_def faultless_def empty_tables_def
        HasSuffix_def count_or_zero_def plain_doc_def demo_migration_def)
  moreover have "run_state (NewStore calm_env (\<lambda>_. None) dsn) (calm_world empty_tables 0) = (Inr (), calm_world empty_tables 0)" for dsn
    by (simp add: NewStore_def StorePing_def DB_def calm_env_def calm_world_def faultless_def)
  moreover have "run_state (CacheLayer.Ping calm_env) (calm_world empty_tables 0) = (Inr (), calm_world empty_tables 0)"
    by (simp add: CacheLayer.Ping_def Critical_def Cache_def calm_env_def calm_world_def faultless_def)
  ultimately show ?thesis by (auto simp: init_def)
qed

theorem served_only_when_ready_witness:
  "\<exists>x w' cfg w1 fs. run_state (server_main calm_env demo_getenv (\<lambda>_. None) (Inr [demo_migration]) (Inr [bare_request []]))
      (calm_world empty_tables 0) = ((Stopped, [x]), w')
    \<and> run_state (init calm_env (\<lambda>_. None) cfg (Inr [demo_migration])) (calm_world empty_tables 0) = (Inr (), w1)
    \<and> schema_migrations (pg w1) = Some fs \<and> ''001.sql'' \<in> set fs"
proof -
  obtain cfg where cfg: "Load demo_getenv = Inr cfg" by (simp add: demo_getenv_def required_vars_def Load_def mustEnv_def)
  obtain w1 where i: "run_state (init calm_env (\<lambda>_. None) cfg (Inr [demo_migration])) (calm_world empty_tables 0) = (Inr (), w1)"
    using demo_init [of cfg] by blast
  obtain x w' where x: "run_state (serve calm_env (Auth cfg) (bare_request [])) w1 = (x, w')" by (metis surj_pair)
  have r: "run_state (server_main calm_env demo_getenv (\<lambda>_. None) (Inr [demo_migration]) (Inr [bare_request []]))
      (calm_world empty_tables 0) = ((Stopped, [x]), w')"
    using cfg i x by (simp add: server_main_def)
  have "scripts_separate plain_doc" by (simp add: scripts_separate_def plain_doc_def)
  from served_only_when_ready [OF calm_deployment reliable_calm this r] r show ?thesis
    by (fastforce simp: demo_migration_def is_migration_def HasSuffix_def)
qed

subsection \<open>Panics\<close>

text \<open>What holds of the result of a program, whatever the world.\<close>

definition returns :: "('a \<Rightarrow> bool) \<Rightarrow> ('s, 'a) state \<Rightarrow> bool" where
  "returns P m \<longleftrightarrow> (\<forall>w. P (fst (run_state m w)))"

lemma returnsD: "returns P m \<Longrightarrow> run_state m w = (x, w') \<Longrightarrow> P x"
  by (metis returns_def fst_conv)

named_theorems rets \<open>introduction rules for \<open>returns\<close>\<close>

lemma returns_return [rets]: "P x \<Longrightarrow> returns P (ret x)"
  by (simp add: returns_def)

lemma returns_bind [rets]: "(\<And>x. returns P (f x)) \<Longrightarrow> returns P (State_Monad.bind m f)"
  by (simp add: returns_def split_def)

lemma returns_bind_known: "returns R m \<Longrightarrow> (\<And>x. R x \<Longrightarrow> returns P (f x)) \<Longrightarrow> returns P (State_Monad.bind m f)"
  by (simp add: returns_def split_def)

lemma returns_cases [rets]:
  "(b \<Longrightarrow> returns P m) \<Longrightarrow> (\<not> b \<Longrightarrow> returns P n) \<Longrightarrow> returns P (if b then m else n)"
  "(x = None \<Longrightarrow> returns P m) \<Longrightarrow> (\<And>y. x = Some y \<Longrightarrow> returns P (f y)) \<Longrightarrow> returns P (case x of None \<Rightarrow> m | Some y \<Rightarrow> f y)"
  "(\<And>e. z = Inl e \<Longrightarrow> returns P (g e)) \<Longrightarrow> (\<And>y. z = Inr y \<Longrightarrow> returns P (h y)) \<Longrightarrow> returns P (case z of Inl e \<Rightarrow> g e | Inr y \<Rightarrow> h y)"
  "(\<And>a b. p = (a, b) \<Longrightarrow> returns P (k a b)) \<Longrightarrow> returns P (case p of (a, b) \<Rightarrow> k a b)"
  by (simp, (cases x; simp), (cases z; simp), (cases p; simp))

definition answered :: "response \<Rightarrow> bool" where
  "answered resp \<longleftrightarrow> rbody resp \<noteq> Aborted"

lemma answered_errors [simp]:
  "answered (Admin.writeError e n)" "answered (writeJSON n d)" "answered (SignalHandler.writeError e n)"
  "answered (writeJSONError e n)" "answered \<lparr>status = n, headers = hs, rbody = NoBody\<rparr>"
  "answered \<lparr>status = n, headers = hs, rbody = Doc j\<rparr>" "answered \<lparr>status = n, headers = hs, rbody = Page s\<rparr>"
  by (simp_all add: answered_def Admin.writeError_def SignalHandler.writeError_def writeJSON_def writeJSONError_def
      split: option.split)

lemma answered_cases [simp]:
  "answered (if b then x else y) \<longleftrightarrow> (if b then answered x else answered y)"
  by simp

lemma inserted_key:
  "sql_step D now (InsertKey i h ow sc nt mx) t = (z, t') \<Longrightarrow> (\<And>m. z \<noteq> PErr m) \<Longrightarrow> has_key i t'"
  by (auto simp: has_key_def unique_violation_def out_of_range_def split: option.splits if_splits)

lemma linked_key:
  "sql_step D now (LinkSuccessor new rot old) t = (z, t') \<Longrightarrow> has_key i t \<Longrightarrow> has_key i t'"
  by (auto simp: has_key_def ids_upd split: if_splits)

lemma rotated_key:
  assumes "tx_step D now n [InsertKey i h ow sc nt mx, LinkSuccessor new rot old] t = Inr t'"
  shows "has_key i t'"
proof -
  obtain z t1 where s: "sql_step D now (InsertKey i h ow sc nt mx) t = (z, t1)" by (metis surj_pair)
  obtain y t2 where l: "sql_step D now (LinkSuccessor new rot old) t1 = (y, t2)" by (metis surj_pair)
  have "\<And>m. z \<noteq> PErr m" "t' = t2"
    using assms s l by (auto simp del: sql_step.simps split: pgreply.splits)
  then show ?thesis using inserted_key [OF s] linked_key [OF l] by blast
qed

context deployment
begin

lemma key_there:
  assumes "has_key i (ad (pg w))"
  shows "fst (run_state (GetAPIKeyByID E i) w) \<noteq> Inr None"
proof
  assume "fst (run_state (GetAPIKeyByID E i) w) = Inr None"
  then obtain v where "run_state (GetAPIKeyByID E i) w = (Inr None, v)" by (metis prod.collapse)
  from GetAPIKeyByID_value [OF this] show False
    using assms by (auto simp: has_key_def key_by_id_def first_key_def filter_empty_conv split: list.splits)
qed

lemma created_found: "returns (\<lambda>k. k \<noteq> Inr None) (CreateAPIKey E h ow nt sc mx)"
  unfolding returns_def
proof
  fix w :: "('r, 'l, 'd) world"
  define i where "i = new_uuid E (seed w)"
  obtain x v where x: "run_state (DB E (Auto (InsertKey i h ow (scopesToArray sc) nt mx))) (w\<lparr>seed := Suc (seed w)\<rparr>) = (x, v)"
    by (metis surj_pair)
  have "has_key i (ad (pg v))" if "x = Inr z" for z
    using sql_answer [OF x [unfolded that]] by (rule inserted_key) (use DB_no_error x that in metis)
  then show "fst (run_state (CreateAPIKey E h ow nt sc mx) w) \<noteq> Inr None"
    using x key_there by (cases x) (simp_all add: CreateAPIKey_def i_def)
qed

lemma successor_found: "returns (\<lambda>k. k \<noteq> Inr None) (RotateAPIKey E old h ow nt sc mx rot)"
  unfolding returns_def
proof
  fix w :: "('r, 'l, 'd) world"
  define i where "i = new_uuid E (seed w)"
  let ?tx = "[InsertKey i h ow (scopesToArray sc) nt mx, LinkSuccessor i rot old]"
  obtain x v where x: "run_state (DB E (Tx ?tx)) (w\<lparr>seed := Suc (seed w)\<rparr>) = (x, v)" by (metis surj_pair)
  have "has_key i (ad (pg v))" if z: "x = Inr z" "\<And>n m. z \<noteq> PTxErr n m" for z
  proof -
    have s: "(z, ad (pg v)) = pg_step D (clock w) (Tx ?tx) (ad (pg w))" using DB_ok [OF x [unfolded z(1)]] by simp
    have "\<exists>n m. y = PTxErr n m" if "tx_step D (clock w) 0 ?tx (ad (pg w)) = Inl y" for y
      using that by (auto split: prod.splits pgreply.splits)
    then have "tx_step D (clock w) 0 ?tx (ad (pg w)) = Inr (ad (pg v))"
      using s z(2) by (cases "tx_step D (clock w) 0 ?tx (ad (pg w))") (auto simp del: tx_step.simps)
    then show ?thesis by (rule rotated_key)
  qed
  then show "fst (run_state (RotateAPIKey E old h ow nt sc mx rot) w) \<noteq> Inr None"
    using x key_there by (auto simp: RotateAPIKey_def i_def split: sum.splits pgreply.splits)
qed

lemma answered_admin: "returns answered (admin_handler E ep r)"
proof -
  have "returns answered (IssueKey E r)"
    unfolding IssueKey_def Let_def
    by (intro rets returns_bind_known [OF created_found]) (auto split: sum.splits option.splits)
  moreover have "returns answered (RotateKey E r)"
    unfolding RotateKey_def Let_def
    by (intro rets returns_bind_known [OF successor_found]) (auto split: sum.splits option.splits)
  moreover have "returns answered (ListKeys E)" "returns answered (SetKeyStatus E r)" "returns answered (SetKeyMaxMachines E r)"
    "returns answered (ListAllMachines E)" "returns answered (ListKeyMachines E r)" "returns answered (Admin.RemoveMachine E r)"
    unfolding key_admin_defs Let_def by (intro rets; simp split: sum.splits option.splits)+
  moreover have "returns answered (Admin.CreateSubscriber E r)" "returns answered (ListSubscribers E)"
    "returns answered (Admin.SetSubscriberActive E r)" "returns answered (ListSymbols E)"
    "returns answered (Admin.AddSymbol E r)" "returns answered (Admin.SetSymbolActive E r)"
    "returns answered (Admin.DeleteSymbol E r)" "returns answered (Admin.GetMetrics E)"
    "returns answered (Admin.ListSignals E r)"
    unfolding other_admin_defs Let_def by (intro rets; simp split: sum.splits option.splits)+
  ultimately show ?thesis by (cases ep) (simp_all add: rets)
qed

end

subsection \<open>Tokens without an expiry\<close>

definition no_expiry :: "('r, 'l, 'd) env \<Rightarrow> AuthConfig \<Rightarrow> int \<Rightarrow> string \<Rightarrow> bool" where
  "no_expiry E cfg now tok \<longleftrightarrow> (case jwt_parse E (admin_keyfunc cfg) now tok of
     Inr (c, ok) \<Rightarrow> ok \<and> ExpiresAt c = None
   | Inl _ \<Rightarrow> False)"

lemma validated:
  "run_state (ValidateAdminToken E cfg tok) w = (Inr c, w') \<Longrightarrow> jwt_parse E (admin_keyfunc cfg) (clock w) tok = Inr (c, True)"
  by (auto simp: ValidateAdminToken_def split: sum.splits prod.splits if_splits bool.splits)

lemma redis_result_no_panic [simp]: "redis_result x \<noteq> Inl EPanic"
  by (cases x rule: redis_result.cases) simp_all

lemma no_panic_parts:
  "returns (\<lambda>x. x \<noteq> Inl EPanic) (ValidateAdminToken E cfg tok)" "returns (\<lambda>x. x \<noteq> Inl EPanic) (makeToken E cfg u ttl ty)"
  "returns (\<lambda>x. x \<noteq> Inl EPanic) (BlockJWT E j d)"
proof -
  show "returns (\<lambda>x. x \<noteq> Inl EPanic) (ValidateAdminToken E cfg tok)"
    unfolding ValidateAdminToken_def by (intro rets; auto split: sum.splits bool.splits)
  show "returns (\<lambda>x. x \<noteq> Inl EPanic) (makeToken E cfg u ttl ty)"
    unfolding makeToken_def Let_def by (intro rets; auto simp: svc_result_def split: sum.splits)
  show "returns (\<lambda>x. x \<noteq> Inl EPanic) (BlockJWT E j d)"
    unfolding BlockJWT_def Let_def returns_def
    by (auto simp: Cache_def only_err_def split: sum.splits prod.splits)
qed

lemma no_panic_runs [simp]:
  "run_state (ValidateAdminToken E cfg tok) w \<noteq> (Inl EPanic, w')" "run_state (makeToken E cfg u ttl ty) w \<noteq> (Inl EPanic, w')"
  "run_state (BlockJWT E j d) w \<noteq> (Inl EPanic, w')"
  by (auto dest: no_panic_parts [THEN returnsD])

lemma Refresh_panics:
  assumes "run_state (RefreshAdminToken E cfg tok) w = (Inl EPanic, w')"
  shows "no_expiry E cfg (clock w) tok"
proof -
  obtain v u where v: "run_state (ValidateAdminToken E cfg tok) w = (v, u)" by (metis surj_pair)
  obtain c where c: "v = Inr c" using assms v by (cases v) (auto simp: RefreshAdminToken_def)
  have "ExpiresAt c = None"
    using assms v c
    by (auto simp: RefreshAdminToken_def Let_def split: option.splits prod.splits if_splits)
  with validated [OF v [unfolded c]] show ?thesis by (simp add: no_expiry_def)
qed

lemma Revoke_panics:
  assumes "run_state (RevokeAdminToken E cfg tok) w = (Inl EPanic, w')"
  shows "no_expiry E cfg (clock w) tok"
proof -
  obtain v u where v: "run_state (ValidateAdminToken E cfg tok) w = (v, u)" by (metis surj_pair)
  obtain c where c: "v = Inr c" using assms v by (cases v) (auto simp: RevokeAdminToken_def)
  have "ExpiresAt c = None"
    using assms v c
    by (auto simp: RevokeAdminToken_def Let_def split: option.splits prod.splits if_splits)
  with validated [OF v [unfolded c]] show ?thesis by (simp add: no_expiry_def)
qed

text \<open>The refresh token that a request brings in its body.\<close>

definition brings_token :: "endpoint \<Rightarrow> request \<Rightarrow> string \<Rightarrow> bool" where
  "brings_token ep r tok \<longleftrightarrow> (ep = AuthRefresh \<and> Decode (dec_struct (field ''refresh_token'' dec_string)) [] r = Some tok)
     \<or> (ep = AuthLogout \<and> Decode_string ''refresh_token'' r = tok)"

lemma brings_token_value [simp]: "brings_token ep (r\<lparr>rq_value := f\<rparr>) tok \<longleftrightarrow> brings_token ep r tok"
  by (simp add: brings_token_def Decode_def Decode_string_def)

lemma answered_public:
  "returns answered (Login E cfg r)" "returns answered (Receive E cfg r)" "returns answered (GetPending E r)"
  "returns answered (Check E)"
proof -
  show "returns answered (Login E cfg r)"
    unfolding Login_def by (intro rets; auto split: sum.splits)
  have "returns answered (AcceptSignal E cfg sg)" for sg
    unfolding AcceptSignal_def accepted_response_def duplicate_response_def Let_def by (intro rets; auto split: sum.splits)
  then show "returns answered (Receive E cfg r)" unfolding Receive_def Let_def by (intro rets; auto)
  show "returns answered (GetPending E r)"
    unfolding GetPending_def Let_def by (intro rets; auto split: sum.splits option.splits)
  show "returns answered (Check E)"
    unfolding Check_def Let_def by (intro rets; auto split: sum.splits option.splits)
qed

lemma answered_middleware:
  "(\<And>k r. returns answered (nxt k r)) \<Longrightarrow> returns answered (APIKeyMiddleware E cfg sc nxt r)"
  "(\<And>c r. returns answered (nxt' c r)) \<Longrightarrow> returns answered (JWTMiddleware E cfg nxt' r)"
  unfolding APIKeyMiddleware_def JWTMiddleware_def Let_def by (intro rets; auto)+

lemma Refresh_answer:
  assumes "run_state (Refresh E cfg r) w = (resp, w')" and "\<not> answered resp"
  shows "\<exists>tok. brings_token AuthRefresh r tok \<and> no_expiry E cfg (clock w) tok"
  using assms Refresh_panics
  by (auto simp: Refresh_def brings_token_def split: option.splits prod.splits sum.splits if_splits)

lemma Logout_answer:
  assumes "run_state (Logout E cfg r) w = (resp, w')" and "\<not> answered resp"
  shows "\<exists>tok. brings_token AuthLogout r tok \<and> no_expiry E cfg (clock w) tok"
  using assms Revoke_panics
  by (auto simp: Logout_def brings_token_def Let_def split: prod.splits if_splits)

context deployment
begin

lemma endpoint_answer:
  assumes "run_state (endpoint_handler E cfg ep r) w = (resp, w')" and "\<not> answered resp"
  shows "\<exists>tok. brings_token ep r tok \<and> no_expiry E cfg (clock w) tok"
proof -
  have o: False if "returns answered m" "run_state m w = (resp, w')" for m :: "('r, 'l, 'd, response) io"
    using returnsD [OF that] assms(2) by simp
  consider (refresh) "ep = AuthRefresh" | (logout) "ep = AuthLogout" | (other) "ep \<noteq> AuthRefresh" "ep \<noteq> AuthLogout" by blast
  then show ?thesis
  proof cases
    case refresh
    then show ?thesis using Refresh_answer [OF _ assms(2)] assms(1) by (simp add: endpoint_handler_def)
  next
    case logout
    then obtain v u where "run_state (ValidateAdminToken E cfg (extractBearer r)) w = (v, u)" by (metis surj_pair)
    then have "run_state (Logout E cfg r) u = (resp, w') \<and> clock u = clock w"
      using assms logout keepsD [OF auth_keeps_clock(7)]
      by (auto simp: endpoint_handler_def JWTMiddleware_def Let_def split: if_splits sum.splits)
    then show ?thesis using Logout_answer [OF _ assms(2)] logout by metis
  next
    case other
    have "returns answered (endpoint_handler E cfg ep r)"
      unfolding endpoint_handler_def dashboard_page_def
      using other by (intro rets answered_public answered_middleware answered_admin) simp_all
    then show ?thesis using o assms(1) by blast
  qed
qed

end


definition refresh_post :: "string \<Rightarrow> request" where
  "refresh_post tok = (bare_request [])\<lparr>rq_method := ''POST'', rq_path := ''/auth/refresh'',
     rq_body := Some (JObj [(''refresh_token'', JStr tok)])\<rparr>"


end
