(* ===== verification/Float64.thy ===== *)
theory Float64
  imports Prelude
begin

text \<open>
  The arithmetic of \<open>double\<close> and \<open>float64\<close>: the result of an operation is the exact result rounded
  to 53 significant bits, ties to even. A number is represented by its exact rational value;
  subnormal numbers, infinities and NaN are left out. The rounding is monotone, keeps the numbers
  that a \<open>double\<close> can hold, and moves a number by at most one part in \<open>2 ^ 53\<close>: these facts are what the
  programs that compare prices and volumes rely on.
\<close>

subsection \<open>Definitions\<close>

text \<open>The exponent of the leading bit of a positive number.\<close>

definition binexp :: "rat \<Rightarrow> int" where
  "binexp x = (case quotient_of x of (a, b) \<Rightarrow>
     let k = int (bit_width (nat a)) - int (bit_width (nat b)) in if 2 powi k \<le> x then k else k - 1)"

definition round_rat :: "rat \<Rightarrow> int" where
  "round_rat x = (case quotient_of x of (a, b) \<Rightarrow> round_even a b)"

definition ulp :: "rat \<Rightarrow> rat" where
  "ulp x = 2 powi (binexp \<bar>x\<bar> - 52)"

definition rnd :: "rat \<Rightarrow> rat" where
  "rnd x = (if x = 0 then 0 else sgn x * (of_int (round_rat (\<bar>x\<bar> / ulp x)) * ulp x))"

text \<open>The numbers a \<open>double\<close> holds.\<close>

definition is_double :: "rat \<Rightarrow> bool" where
  "is_double x \<longleftrightarrow> rnd x = x"

subsection \<open>Rounding to an integer\<close>

lemma round_even_near:
  assumes "0 < d"
  shows "2 * \<bar>round_even n d * d - n\<bar> \<le> d"
proof -
  define q where "q = n div d"
  define r where "r = n mod d"
  have n: "q * d + r = n" and m: "0 \<le> r" "r < d" using assms by (simp_all add: q_def r_def)
  have "round_even n d = q \<and> 2 * r \<le> d \<or> round_even n d = q + 1 \<and> d \<le> 2 * r"
    by (auto simp: round_even_def Let_def q_def [symmetric] r_def [symmetric])
  then show ?thesis
  proof
    assume h: "round_even n d = q \<and> 2 * r \<le> d"
    then have "round_even n d * d - n = - r" using n by simp
    then show ?thesis using h m by simp
  next
    assume h: "round_even n d = q + 1 \<and> d \<le> 2 * r"
    then have "round_even n d * d - n = d - r" using n by (simp add: distrib_right)
    then show ?thesis using h m by simp
  qed
qed

lemma round_rat_near: "\<bar>of_int (round_rat x) - x\<bar> \<le> 1 / 2"
proof -
  obtain a b where q: "quotient_of x = (a, b)" by (cases "quotient_of x")
  then have b: "0 < b" and x: "x = of_int a / of_int b"
    using quotient_of_denom_pos quotient_of_div by blast+
  have "2 * \<bar>round_even a b * b - a\<bar> \<le> b" by (rule round_even_near [OF b])
  then have "of_int (2 * \<bar>round_even a b * b - a\<bar>) \<le> (of_int b :: rat)" by (simp only: of_int_le_iff)
  then have i: "2 * \<bar>of_int (round_even a b) * of_int b - of_int a\<bar> \<le> (of_int b :: rat)" by simp
  have "of_int (round_even a b) - x = (of_int (round_even a b) * of_int b - of_int a) / of_int b"
    using b by (simp add: x field_simps)
  then have "\<bar>of_int (round_even a b) - x\<bar> = \<bar>of_int (round_even a b) * of_int b - of_int a\<bar> / of_int b"
    using b by (simp add: abs_divide)
  also have "\<dots> \<le> 1 / 2" using i b by (simp add: field_simps)
  finally show ?thesis by (simp add: round_rat_def q)
qed

lemma round_rat_of_int [simp]: "round_rat (of_int k) = k"
  by (simp add: round_rat_def round_even_def quotient_of_int)

lemma round_rat_numeral [simp]: "round_rat (2 ^ n) = 2 ^ n"
  using round_rat_of_int [of "2 ^ n"] by simp

lemma round_rat_mono: "x \<le> y \<Longrightarrow> round_rat x \<le> round_rat y"
proof (rule ccontr)
  assume "x \<le> y" and "\<not> round_rat x \<le> round_rat y"
  then have l: "round_rat y + 1 \<le> round_rat x" and "x < y" by (auto simp: order_less_le)
  from l have "of_int (round_rat y) + 1 \<le> (of_int (round_rat x) :: rat)"
    using of_int_le_iff [of "round_rat y + 1" "round_rat x", where 'a = rat] by simp
  then show False using round_rat_near [of x] round_rat_near [of y] \<open>x < y\<close> by (simp add: abs_le_iff)
qed

subsection \<open>The exponent\<close>

lemma powi_split: "(2 :: rat) powi (m + n) = 2 powi m * 2 powi n"
  by (simp add: power_int_add)

lemma binexp_bounds:
  assumes "0 < x"
  shows "2 powi binexp x \<le> x \<and> x < 2 powi (binexp x + 1)"
proof -
  obtain a b where q: "quotient_of x = (a, b)" by (cases "quotient_of x")
  then have b: "0 < b" and x: "x = of_int a / of_int b"
    using quotient_of_denom_pos quotient_of_div by blast+
  have a: "0 < a" using assms b by (simp add: x zero_less_divide_iff)
  let ?m = "bit_width (nat a)" and ?n = "bit_width (nat b)"
  have m: "2 ^ (?m - 1) \<le> nat a \<and> nat a < 2 ^ ?m \<and> 0 < ?m" and n: "2 ^ (?n - 1) \<le> nat b \<and> nat b < 2 ^ ?n \<and> 0 < ?n"
    using bit_width_bounds [of "nat a"] bit_width_bounds [of "nat b"] a b by simp_all
  have p: "int (2 ^ (k - 1)) \<le> c \<and> c < int (2 ^ k)" if "2 ^ (k - 1) \<le> nat c \<and> nat c < 2 ^ k \<and> 0 < k" "0 < c" for k c
    using that by (simp add: le_nat_iff nat_less_iff)
  have r: "(2 :: rat) powi (int k - 1) \<le> of_int c \<and> of_int c < (2 :: rat) powi int k"
    if h: "2 ^ (k - 1) \<le> nat c \<and> nat c < 2 ^ k \<and> 0 < k" "0 < c" for k c
  proof -
    have "(2 :: rat) powi (int k - 1) = of_int (int (2 ^ (k - 1)))" using h(1)
      by (simp add: power_int_def nat_diff_distrib')
    moreover have "(2 :: rat) powi int k = of_int (int (2 ^ k))" by simp
    ultimately show ?thesis using p [OF h] by (metis of_int_le_iff of_int_less_iff)
  qed
  have ra: "(2 :: rat) powi (int ?m - 1) \<le> of_int a" "of_int a < (2 :: rat) powi int ?m"
    and rb: "(2 :: rat) powi (int ?n - 1) \<le> of_int b" "of_int b < (2 :: rat) powi int ?n"
    using r [OF m a] r [OF n b] by blast+
  have lo: "(2 :: rat) powi (int ?m - int ?n - 1) \<le> x"
  proof -
    have "(2 :: rat) powi (int ?m - int ?n - 1) * of_int b \<le> 2 powi (int ?m - int ?n - 1) * 2 powi int ?n"
      using rb by (intro mult_left_mono) simp_all
    also have "\<dots> = 2 powi (int ?m - 1)" by (simp only: powi_split [symmetric]) (simp add: algebra_simps)
    also have "\<dots> \<le> of_int a" by (rule ra)
    finally show ?thesis using b by (simp add: x le_divide_eq)
  qed
  have hi: "x < (2 :: rat) powi (int ?m - int ?n + 1)"
  proof -
    have "of_int a < (2 :: rat) powi int ?m" by (rule ra)
    also have "\<dots> = 2 powi (int ?m - int ?n + 1) * 2 powi (int ?n - 1)"
      by (simp only: powi_split [symmetric]) (simp add: algebra_simps)
    also have "\<dots> \<le> 2 powi (int ?m - int ?n + 1) * of_int b" using rb by (intro mult_left_mono) simp_all
    finally show ?thesis using b by (simp add: x divide_less_eq)
  qed
  show ?thesis using lo hi by (auto simp: binexp_def q Let_def not_le)
qed

lemma powi_less_imp_less: "(2 :: rat) powi m < 2 powi n \<Longrightarrow> m < n"
proof (rule ccontr)
  assume l: "(2 :: rat) powi m < 2 powi n" and "\<not> m < n"
  then have "(2 :: rat) powi n \<le> 2 powi m" by (intro power_int_increasing) simp_all
  with l show False by simp
qed

lemma binexp_unique:
  assumes "2 powi e \<le> x" and "x < 2 powi (e + 1)"
  shows "binexp x = e"
proof -
  have x: "0 < x" using assms(1) by (rule less_le_trans [rotated]) simp
  have "binexp x < e + 1" by (rule powi_less_imp_less) (use binexp_bounds [OF x] assms(2) in linarith)
  moreover have "e < binexp x + 1" by (rule powi_less_imp_less) (use binexp_bounds [OF x] assms(1) in linarith)
  ultimately show ?thesis by simp
qed

subsection \<open>Rounding to 53 bits\<close>

lemma rnd_0 [simp]: "rnd 0 = 0"
  by (simp add: rnd_def)

lemma rnd_uminus [simp]: "rnd (- x) = - rnd x"
  by (simp add: rnd_def ulp_def sgn_minus)

lemma rnd_pos: "0 < x \<Longrightarrow> rnd x = of_int (round_rat (x / ulp x)) * ulp x"
  by (simp add: rnd_def)

lemma ulp_pos [simp]: "0 < ulp x"
  by (simp add: ulp_def)

lemma ulp_scale:
  assumes "0 < x"
  shows "2 powi binexp x = 2 ^ 52 * ulp x" and "2 powi (binexp x + 1) = 2 ^ 53 * ulp x"
proof -
  have u: "ulp x = 2 powi (binexp x - 52)" using assms by (simp add: ulp_def)
  have "2 powi binexp x = (2 :: rat) powi (52 + (binexp x - 52))" by simp
  also have "\<dots> = 2 ^ 52 * ulp x" unfolding powi_split u by simp
  finally show "2 powi binexp x = 2 ^ 52 * ulp x" .
  then show "2 powi (binexp x + 1) = 2 ^ 53 * ulp x" unfolding powi_split by simp
qed

lemma ulp_neq_0 [simp]: "ulp x \<noteq> 0"
  using ulp_pos [of x] by (rule less_imp_neq [symmetric])

lemma significand_bounds:
  assumes "0 < x"
  shows "2 ^ 52 \<le> round_rat (x / ulp x) \<and> round_rat (x / ulp x) \<le> 2 ^ 53"
proof -
  let ?e = "binexp x"
  note s = ulp_scale [OF assms]
  have "2 ^ 52 \<le> x / ulp x" "x / ulp x \<le> 2 ^ 53"
    using binexp_bounds [OF assms] unfolding s by (simp_all add: le_divide_eq divide_le_eq)
  from this [THEN round_rat_mono] show ?thesis by (simp only: round_rat_numeral)
qed

lemma rnd_bounds:
  assumes "0 < x"
  shows "2 powi binexp x \<le> rnd x \<and> rnd x \<le> 2 powi (binexp x + 1)"
proof -
  let ?e = "binexp x" and ?m = "round_rat (x / ulp x)"
  note s = ulp_scale [OF assms]
  have "of_int (2 ^ 52) \<le> (of_int ?m :: rat)" "(of_int ?m :: rat) \<le> of_int (2 ^ 53)"
    using significand_bounds [OF assms] by (simp_all only: of_int_le_iff)
  then show ?thesis unfolding s rnd_pos [OF assms] by (simp add: mult_right_mono)
qed

lemma rnd_mono_pos:
  assumes "0 < x" and "x \<le> y"
  shows "rnd x \<le> rnd y"
proof -
  have y: "0 < y" using assms by simp
  have "binexp x < binexp y + 1"
    by (rule powi_less_imp_less) (use binexp_bounds [OF assms(1)] binexp_bounds [OF y] assms(2) in linarith)
  then consider "binexp x = binexp y" | "binexp x + 1 \<le> binexp y" by linarith
  then show ?thesis
  proof cases
    case 1
    then have u: "ulp x = ulp y" using assms(1) y by (simp add: ulp_def)
    have "round_rat (x / ulp y) \<le> round_rat (y / ulp y)"
      by (rule round_rat_mono) (simp add: divide_right_mono assms(2) less_imp_le)
    then show ?thesis unfolding rnd_pos [OF assms(1)] rnd_pos [OF y] u by (simp add: mult_right_mono)
  next
    case 2
    have "rnd x \<le> 2 powi (binexp x + 1)" using rnd_bounds [OF assms(1)] by blast
    also have "\<dots> \<le> 2 powi binexp y" by (rule power_int_increasing) (use 2 in simp_all)
    also have "\<dots> \<le> rnd y" using rnd_bounds [OF y] by blast
    finally show ?thesis .
  qed
qed

lemma rnd_nonneg: "0 \<le> x \<Longrightarrow> 0 \<le> rnd x"
  using rnd_bounds [of x] zero_less_power_int [of "2 :: rat" "binexp x"] by (cases "x = 0") (simp, linarith)

theorem rnd_mono: "x \<le> y \<Longrightarrow> rnd x \<le> rnd y"
proof -
  assume xy: "x \<le> y"
  consider "0 < x" | "x \<le> 0" "0 \<le> y" | "y < 0" by linarith
  then show ?thesis
  proof cases
    case 2
    then have "0 \<le> rnd (- x)" "0 \<le> rnd y" by (simp_all only: rnd_nonneg neg_0_le_iff_le)
    then show ?thesis by simp
  next
    case 3
    then have "rnd (- y) \<le> rnd (- x)" using xy by (intro rnd_mono_pos) simp_all
    then show ?thesis by simp
  qed (use xy rnd_mono_pos in blast)
qed

lemma rnd_near: "\<bar>rnd x - x\<bar> \<le> \<bar>x\<bar> / 2 ^ 53"
proof -
  have p: "\<bar>rnd x - x\<bar> \<le> x / 2 ^ 53" if x: "0 < x" for x
  proof -
    have "rnd x - x = (of_int (round_rat (x / ulp x)) - x / ulp x) * ulp x"
      by (simp add: rnd_pos [OF x] left_diff_distrib)
    then have "\<bar>rnd x - x\<bar> = \<bar>of_int (round_rat (x / ulp x)) - x / ulp x\<bar> * ulp x"
      by (simp add: abs_mult less_imp_le [OF ulp_pos])
    also have "\<dots> \<le> 1 / 2 * ulp x" by (rule mult_right_mono [OF round_rat_near less_imp_le [OF ulp_pos]])
    also have "\<dots> \<le> x / 2 ^ 53"
      using binexp_bounds [OF x] unfolding ulp_scale [OF x] by (simp add: field_simps)
    finally show ?thesis .
  qed
  consider "0 < x" | "x = 0" | "0 < - x" by linarith
  then show ?thesis using p [of x] p [of "- x"] by cases (simp_all add: abs_minus_commute)
qed

subsection \<open>Numbers that are not moved\<close>

lemma rnd_scaled_pos:
  assumes "0 < m" and "m < 2 ^ 53"
  shows "rnd (of_int m * 2 powi k) = of_int m * 2 powi k"
proof -
  let ?x = "of_int m * 2 powi k :: rat"
  have x: "0 < ?x" using assms by simp
  have "?x < 2 powi (k + 53)"
    using assms power_int_add [of "2 :: rat" k 53] of_int_less_iff [of m "2 ^ 53", where 'a = rat] by simp
  then have "binexp ?x < k + 53" by (intro powi_less_imp_less) (use binexp_bounds [OF x] in linarith)
  then have "0 \<le> k - (binexp ?x - 52)" by linarith
  then obtain n where "k - (binexp ?x - 52) = int n" by (rule nonneg_int_cases)
  then have n: "k = binexp ?x - 52 + int n" by linarith
  have "ulp ?x = 2 powi (binexp ?x - 52)" using x by (simp add: ulp_def)
  then have "(2 :: rat) powi k = ulp ?x * 2 ^ n" using powi_split [of "binexp ?x - 52" "int n"] n by simp
  then have e: "?x = of_int (m * 2 ^ n) * ulp ?x" by (simp only: of_int_mult of_int_power of_int_numeral mult_ac)
  then have "?x / ulp ?x = of_int (m * 2 ^ n)" by (metis nonzero_mult_div_cancel_right ulp_neq_0)
  then have "rnd ?x = of_int (m * 2 ^ n) * ulp ?x" unfolding rnd_pos [OF x] by (simp only: round_rat_of_int)
  then show ?thesis using e by metis
qed

lemma rnd_scaled:
  assumes "\<bar>m\<bar> \<le> 2 ^ 53"
  shows "rnd (of_int m * 2 powi k) = of_int m * 2 powi k"
proof -
  have p: "rnd (of_int m * 2 powi k) = of_int m * 2 powi k" if "0 < m" "m \<le> 2 ^ 53" for m
  proof (cases "m = 2 ^ 53")
    case True
    have "of_int m * 2 powi k = of_int (2 ^ 52) * (2 :: rat) powi (k + 1)"
      by (simp add: True power_int_add)
    then show ?thesis using rnd_scaled_pos [of "2 ^ 52" "k + 1"] by simp
  qed (use that rnd_scaled_pos in simp)
  consider "0 < m" | "m = 0" | "0 < - m" by linarith
  then show ?thesis using p [of m] p [of "- m"] assms by cases simp_all
qed

lemma is_double_rnd [simp]: "is_double (rnd x)"
proof -
  have p: "rnd (rnd x) = rnd x" if "0 < x" for x
    unfolding rnd_pos [OF that] ulp_def using significand_bounds [OF that]
    by (intro rnd_scaled) (simp add: ulp_def)
  consider "0 < x" | "x = 0" | "0 < - x" by linarith
  then show ?thesis unfolding is_double_def using p [of x] p [of "- x"] by cases simp_all
qed

lemma is_double_int: "\<bar>m\<bar> \<le> 2 ^ 53 \<Longrightarrow> is_double (of_int m)"
  using rnd_scaled [of m 0] by (simp add: is_double_def)

lemma is_doubleD: "is_double x \<Longrightarrow> rnd x = x"
  by (simp add: is_double_def)

text \<open>Rounding does not carry a number across one that is representable.\<close>

lemma rnd_le: "x \<le> y \<Longrightarrow> is_double y \<Longrightarrow> rnd x \<le> y"
  using rnd_mono [of x y] by (simp add: is_double_def)

lemma le_rnd: "y \<le> x \<Longrightarrow> is_double y \<Longrightarrow> y \<le> rnd x"
  using rnd_mono [of y x] by (simp add: is_double_def)

end
