(* ===== verification/JsonText.thy ===== *)
theory JsonText
  imports Json Float64
begin

text \<open>
  JSON as text (RFC 8259): how \<open>encoding/json\<close> and the clients read strings, numbers and values. The
  escape \<open>\u\<close> is left out: a text that uses it is not read. A number without fraction and exponent is
  a \<open>JInt\<close>, any other one is rounded to a \<open>float64\<close>.
\<close>

subsection \<open>Strings\<close>

definition code :: "char \<Rightarrow> nat" where
  "code c = of_char c"

text \<open>
  The rest of a JSON string after its opening quote: the text up to the closing quote and what
  follows it.
\<close>

definition json_escape :: "char \<Rightarrow> char option" where
  "json_escape e = map_of [(CHR 0x22, CHR 0x22), (CHR 0x5C, CHR 0x5C), (CHR ''/'', CHR ''/''), (CHR ''b'', CHR 0x08),
     (CHR ''f'', CHR 0x0C), (CHR ''n'', CHR 0x0A), (CHR ''r'', CHR 0x0D), (CHR ''t'', CHR 0x09)] e"

fun json_string :: "string \<Rightarrow> (string \<times> string) option" where
  "json_string [] = None"
| "json_string (c # s) =
     (if c = CHR 0x22 then Some ([], s)
      else if c = CHR 0x5C then
        (case s of
           [] \<Rightarrow> None
         | e # t \<Rightarrow> (case json_escape e of None \<Rightarrow> None | Some d \<Rightarrow> map_option (apfst ((#) d)) (json_string t)))
      else if code c < 32 then None
      else map_option (apfst ((#) c)) (json_string s))"

text \<open>Characters that stand for themselves in a JSON string.\<close>

definition plain_char :: "char \<Rightarrow> bool" where
  "plain_char c \<longleftrightarrow> 32 \<le> code c \<and> code c < 127 \<and> c \<noteq> CHR 0x22 \<and> c \<noteq> CHR 0x5C"

lemma json_string_plain: "list_all plain_char s \<Longrightarrow> json_string (s @ CHR 0x22 # r) = Some (s, r)"
  by (induction s) (simp_all add: plain_char_def)

subsection \<open>Numbers\<close>

definition scan_frac :: "string \<Rightarrow> string \<times> string" where
  "scan_frac s = (case s of p # r \<Rightarrow> if p = CHR ''.'' then (takeWhile is_digit r, dropWhile is_digit r) else ([], s)
     | [] \<Rightarrow> ([], s))"

definition scan_exp :: "string \<Rightarrow> int option \<times> string" where
  "scan_exp s = (case s of
     e # r \<Rightarrow> if e = CHR ''e'' \<or> e = CHR ''E'' then
         (let neg = HasPrefix r ''-''; t = (if neg \<or> HasPrefix r ''+'' then tl r else r); d = takeWhile is_digit t in
          if d = [] then (None, s) else (Some (if neg then - digits_val d else digits_val d), dropWhile is_digit t))
       else (None, s)
   | [] \<Rightarrow> (None, s))"

definition number_value :: "bool \<Rightarrow> string \<Rightarrow> string \<Rightarrow> int option \<Rightarrow> rat" where
  "number_value neg ip fr e = (if neg then - 1 else 1) * of_int (digits_val (ip @ fr))
     * 10 powi ((case e of None \<Rightarrow> 0 | Some k \<Rightarrow> k) - int (length fr))"

definition json_number :: "string \<Rightarrow> (json \<times> string) option" where
  "json_number s = (let neg = HasPrefix s ''-''; t = (if neg then tl s else s);
       ip = takeWhile is_digit t; (fr, u) = scan_frac (dropWhile is_digit t); (e, r) = scan_exp u in
     if ip = [] \<or> (hd ip = CHR ''0'' \<and> tl ip \<noteq> []) then None
     else if fr = [] \<and> HasPrefix (dropWhile is_digit t) ''.'' then None
     else if fr = [] \<and> e = None then Some (JInt (if neg then - digits_val ip else digits_val ip), r)
     else Some (JNum (rnd (number_value neg ip fr e)), r))"

subsection \<open>Values\<close>

definition skip_ws :: "string \<Rightarrow> string" where
  "skip_ws = dropWhile (\<lambda>c. c \<in> set [CHR '' '', CHR 0x09, CHR 0x0A, CHR 0x0D])"

definition json_word :: "string \<Rightarrow> (json \<times> string) option" where
  "json_word s = (if HasPrefix s ''null'' then Some (JNull, drop 4 s)
     else if HasPrefix s ''true'' then Some (JBool True, drop 4 s)
     else if HasPrefix s ''false'' then Some (JBool False, drop 5 s) else json_number s)"

text \<open>
  One value at the start of a text, and what follows it. The first argument bounds the nesting and
  the number of members; every call is for a shorter text, so the length of the text is enough.
\<close>

fun json_value :: "nat \<Rightarrow> string \<Rightarrow> (json \<times> string) option"
  and json_members :: "nat \<Rightarrow> string \<Rightarrow> ((string \<times> json) list \<times> string) option"
  and json_elems :: "nat \<Rightarrow> string \<Rightarrow> (json list \<times> string) option" where
  "json_value 0 s = None"
| "json_value (Suc n) s = (case skip_ws s of
     [] \<Rightarrow> None
   | c # r \<Rightarrow>
       if c = CHR 0x22 then map_option (apfst JStr) (json_string r)
       else if c = CHR ''{'' then
         (if HasPrefix (skip_ws r) ''}'' then Some (JObj [], tl (skip_ws r)) else map_option (apfst JObj) (json_members n r))
       else if c = CHR ''['' then
         (if HasPrefix (skip_ws r) '']'' then Some (JArr [], tl (skip_ws r)) else map_option (apfst JArr) (json_elems n r))
       else json_word (c # r))"
| "json_members 0 s = None"
| "json_members (Suc n) s = (if \<not> HasPrefix (skip_ws s) [CHR 0x22] then None else do {
     (k, r) \<leftarrow> json_string (tl (skip_ws s));
     if \<not> HasPrefix (skip_ws r) '':'' then None else do {
       (v, t) \<leftarrow> json_value n (tl (skip_ws r));
       if HasPrefix (skip_ws t) '','' then map_option (apfst ((#) (k, v))) (json_members n (tl (skip_ws t)))
       else if HasPrefix (skip_ws t) ''}'' then Some ([(k, v)], tl (skip_ws t)) else None } })"
| "json_elems 0 s = None"
| "json_elems (Suc n) s = do {
     (v, t) \<leftarrow> json_value n s;
     if HasPrefix (skip_ws t) '','' then map_option (apfst ((#) v)) (json_elems n (tl (skip_ws t)))
     else if HasPrefix (skip_ws t) '']'' then Some ([v], tl (skip_ws t)) else None }"

text \<open>\<open>Decoder.Decode\<close> reads the first value of the body.\<close>

definition json_read :: "string \<Rightarrow> json option" where
  "json_read s = map_option fst (json_value (Suc (length s)) s)"

subsection \<open>Texts that are read back\<close>

text \<open>Decimal numerals with \<open>d\<close> digits after the point: the text of \<open>n / 10 ^ d\<close>.\<close>

definition decimal_text :: "int \<Rightarrow> nat \<Rightarrow> string" where
  "decimal_text n d = (if n < 0 then ''-'' else []) @ nat_text (nat \<bar>n\<bar> div 10 ^ d) @ CHR ''.'' # pad d (nat \<bar>n\<bar> mod 10 ^ d)"

lemma digits_val_append: "digits_val (s @ t) = digits_val s * 10 ^ length t + digits_val t"
proof (induction t rule: rev_induct)
  case (snoc c t)
  then show ?case using digits_val_snoc [of "s @ t" c] by (simp add: digits_val_snoc algebra_simps)
qed (simp add: digits_val_def)

text \<open>A text that is read as a value wherever it stands before a comma or a closing brace.\<close>

definition closes :: "string \<Rightarrow> bool" where
  "closes r \<longleftrightarrow> r \<noteq> [] \<and> (hd r = CHR '','' \<or> hd r = CHR ''}'')"

definition reads_as :: "string \<Rightarrow> json \<Rightarrow> bool" where
  "reads_as t v \<longleftrightarrow> (\<forall>n r. closes r \<longrightarrow> json_value (Suc n) (t @ r) = Some (v, r))"

named_theorems tokens \<open>texts that are read back\<close>

lemma HasPrefix_Cons [simp]: "HasPrefix (c # s) (d # p) \<longleftrightarrow> c = d \<and> HasPrefix s p"
  by (auto simp: HasPrefix_def)

lemma HasPrefix_Nil [simp]: "HasPrefix s []" "\<not> HasPrefix [] (d # p)"
  by (simp_all add: HasPrefix_def)

lemma HasPrefix_append [simp]: "HasPrefix (p @ s) p"
  by (simp add: HasPrefix_def)

lemma skip_ws_Cons: "c \<notin> set [CHR '' '', CHR 0x09, CHR 0x0A, CHR 0x0D] \<Longrightarrow> skip_ws (c # s) = c # s"
  by (simp add: skip_ws_def)

lemma nat_text_lead: "hd (nat_text n) = CHR ''0'' \<Longrightarrow> tl (nat_text n) = []"
proof (induction n rule: nat_text.induct)
  case (1 n)
  show ?case
  proof (cases "n < 10")
    case False
    have u: "nat_text n = nat_text (n div 10) @ [digit_char (n mod 10)]" using False by (subst nat_text.simps) simp
    have "hd (nat_text (n div 10)) = CHR ''0''" using "1.prems" unfolding u by simp
    with "1.IH" False have "tl (nat_text (n div 10)) = []" by simp
    with \<open>hd (nat_text (n div 10)) = CHR ''0''\<close> have "nat_text (n div 10) = ''0''"
      by (metis list.collapse nat_text_neq_Nil)
    then have "int (n div 10) = digits_val ''0''" by (metis digits_val_nat_text)
    then have "n div 10 = 0" by (simp add: digits_val_def digit_val_def)
    with False show ?thesis by simp
  qed (subst nat_text.simps, simp)
qed

lemma closes_not_digit: "closes r \<Longrightarrow> r = [] \<or> \<not> is_digit (hd r)"
  by (auto simp: closes_def is_digit_def)

lemma scan_closed [simp]:
  assumes "closes r" shows "scan_frac r = ([], r)" and "scan_exp r = (None, r)" and "\<not> HasPrefix r ''.''"
  using assms by (cases r; simp add: closes_def scan_frac_def scan_exp_def; elim disjE; simp)+

text \<open>A numeral starts with a digit, so none of the other values of JSON does.\<close>

lemma json_value_digit:
  assumes "is_digit c"
  shows "json_value (Suc n) (c # s) = json_number (c # s)"
proof -
  have "c \<notin> set [CHR '' '', CHR 0x09, CHR 0x0A, CHR 0x0D, CHR 0x22, CHR ''{'', CHR ''['', CHR ''n'', CHR ''t'', CHR ''f'']"
    using assms by (auto simp: is_digit_def)
  then show ?thesis by (simp add: skip_ws_Cons json_word_def)
qed

lemma json_value_nat_text:
  "json_value (Suc n) (nat_text k @ s) = json_number (nat_text k @ s)"
  using nat_text_hd [of k] by (cases "nat_text k") (simp_all add: json_value_digit del: json_value.simps)

lemma nat_text_unsigned [simp]: "\<not> HasPrefix (nat_text k @ s) ''-''"
  using nat_text_no_sign(1) [of k] nat_text_neq_Nil [of k] by (cases "nat_text k") simp_all

lemma nat_text_no_zero: "\<not> (hd (nat_text k) = CHR ''0'' \<and> tl (nat_text k) \<noteq> [])"
  using nat_text_lead by blast

lemma reads_as_int [tokens]: "0 \<le> i \<Longrightarrow> reads_as (FormatInt i) (JInt i)"
  unfolding reads_as_def FormatInt_def
  by (auto simp del: json_value.simps simp: json_value_nat_text json_number_def takeWhile_digits [OF nat_text_digits closes_not_digit]
      nat_text_no_zero Let_def)

lemma reads_as_decimal [tokens]:
  assumes "0 \<le> n" and "0 < d"
  shows "reads_as (decimal_text n d) (JNum (rnd (of_int n / 10 ^ d)))"
  unfolding reads_as_def
proof (intro allI impI)
  fix k r assume r: "closes r"
  let ?i = "nat n div 10 ^ d" and ?f = "pad d (nat n mod 10 ^ d)"
  have t: "decimal_text n d = nat_text ?i @ CHR ''.'' # ?f" using assms by (simp add: decimal_text_def)
  have f: "?f \<noteq> []" using assms(2) length_pad [of d] by (metis less_nat_zero_code list.size(3))
  have s: "scan_frac (CHR ''.'' # ?f @ r) = (?f, r)"
    by (simp add: scan_frac_def takeWhile_digits [OF pad_digits closes_not_digit [OF r]])
  have w: "takeWhile is_digit (nat_text ?i @ CHR ''.'' # ?f @ r) = nat_text ?i"
    "dropWhile is_digit (nat_text ?i @ CHR ''.'' # ?f @ r) = CHR ''.'' # ?f @ r"
    by (rule takeWhile_digits [OF nat_text_digits]; simp add: is_digit_def)+
  have "digits_val (nat_text ?i @ ?f) = n"
    using assms(1) div_mult_mod_eq [of n "10 ^ d"] by (simp add: digits_val_append digits_val_pad zdiv_int zmod_int)
  then have "number_value False (nat_text ?i) ?f None = of_int n / 10 ^ d"
    by (simp add: number_value_def power_int_minus divide_inverse)
  then show "json_value (Suc k) (decimal_text n d @ r) = Some (JNum (rnd (of_int n / 10 ^ d)), r)"
    unfolding t by (simp del: json_value.simps add: json_value_nat_text json_number_def w s f r nat_text_no_zero)
qed

lemma reads_as_string [tokens]: "list_all plain_char s \<Longrightarrow> reads_as (CHR 0x22 # s @ [CHR 0x22]) (JStr s)"
  by (simp add: reads_as_def skip_ws_Cons json_string_plain)

subsection \<open>The text of an object\<close>

fun members_text :: "(string \<times> string) list \<Rightarrow> string" where
  "members_text [] = ''}''"
| "members_text [(k, t)] = CHR 0x22 # k @ CHR 0x22 # CHR '':'' # t @ ''}''"
| "members_text ((k, t) # ms) = CHR 0x22 # k @ CHR 0x22 # CHR '':'' # t @ CHR '','' # members_text ms"

lemma json_members_step:
  assumes "list_all plain_char k" and "reads_as t v" and "closes r"
  shows "json_members (Suc (Suc n)) (CHR 0x22 # k @ CHR 0x22 # CHR '':'' # t @ r)
    = (if hd r = CHR '','' then map_option (apfst ((#) (k, v))) (json_members (Suc n) (tl r)) else Some ([(k, v)], tl r))"
proof -
  obtain c q where "r = c # q" "c = CHR '','' \<or> c = CHR ''}''" using assms(3) by (cases r) (auto simp: closes_def)
  then show ?thesis using assms(1,2) assms(3) [folded reads_as_def]
    by (auto simp: skip_ws_Cons json_string_plain reads_as_def simp del: json_value.simps)
qed

lemma json_members_text:
  assumes "ms \<noteq> []" and "\<And>k t v. (k, t, v) \<in> set ms \<Longrightarrow> list_all plain_char k \<and> reads_as t v"
  shows "json_members (Suc (length ms + n)) (members_text (map (\<lambda>(k, t, v). (k, t)) ms) @ r) = Some (map (\<lambda>(k, t, v). (k, v)) ms, r)"
  using assms
proof (induction ms)
  case (Cons m ms)
  obtain k t v where m: "m = (k, t, v)" by (cases m)
  have p: "list_all plain_char k" "reads_as t v" using Cons.prems(2) m by auto
  show ?case
  proof (cases ms)
    case Nil
    then show ?thesis using json_members_step [OF p, of "CHR ''}'' # r"] by (simp add: m closes_def del: json_members.simps)
  next
    case (Cons m' ms')
    obtain k' t' v' where m': "m' = (k', t', v')" by (cases m')
    have i: "json_members (Suc (length ms + n)) (members_text (map (\<lambda>(k, t, v). (k, t)) ms) @ r) = Some (map (\<lambda>(k, t, v). (k, v)) ms, r)"
      by (rule Cons.IH) (use Cons Cons.prems(2) in auto)
    show ?thesis using i json_members_step [OF p, of "CHR '','' # members_text (map (\<lambda>(k, t, v). (k, t)) ms) @ r"]
      unfolding m Cons m' by (simp add: closes_def del: json_members.simps)
  qed
qed simp

lemma length_members_text: "length ms \<le> length (members_text ms)"
  by (induction ms rule: members_text.induct) simp_all

text \<open>An object whose members are printed one after the other is read back.\<close>

lemma json_read_object:
  assumes "ms \<noteq> []" and "\<And>k t v. (k, t, v) \<in> set ms \<Longrightarrow> list_all plain_char k \<and> reads_as t v"
  shows "json_read (CHR ''{'' # members_text (map (\<lambda>(k, t, v). (k, t)) ms)) = Some (JObj (map (\<lambda>(k, t, v). (k, v)) ms))"
proof -
  let ?t = "members_text (map (\<lambda>(k, t, v). (k, t)) ms)"
  obtain k t v ms' where ms: "ms = (k, t, v) # ms'" using assms(1) by (cases ms) auto
  have q: "\<exists>u. ?t = CHR 0x22 # u" by (cases ms') (auto simp: ms)
  have "length ms \<le> length ?t" using length_members_text by (metis length_map)
  then obtain n where n: "length ?t = length ms + n" using le_Suc_ex by blast
  from json_members_text [OF assms, of n "[]"] q show ?thesis
    by (auto simp: json_read_def n skip_ws_Cons simp del: json_members.simps)
qed

end
