(* ===== verification/Quoting.thy ===== *)
theory Quoting
  imports SignalHandler JsonText
begin

text \<open>
  The bytes of an error answer that \<open>writeError\<close> and \<open>writeJSONError\<close> print: the verb \<open>%q\<close> quotes by
  the rules of Go, a client reads by those of JSON. The lemmas say for which messages the two agree.
\<close>

subsection \<open>The verb \<open>%q\<close>\<close>

text \<open>
  \<open>strconv.Quote\<close> on ASCII; for the other characters it asks the tables of Unicode, and the result
  is \<open>None\<close> here.
\<close>

definition IsPrint :: "char \<Rightarrow> bool" where
  "IsPrint c \<longleftrightarrow> 32 \<le> code c \<and> code c < 127"

definition quote_char :: "char \<Rightarrow> string" where
  "quote_char c =
     (if c = CHR 0x22 \<or> c = CHR 0x5C then [CHR 0x5C, c]
      else if IsPrint c then [c]
      else CHR 0x5C # (case map_of [(7, CHR ''a''), (8, CHR ''b''), (12, CHR ''f''), (10, CHR ''n''), (13, CHR ''r''),
           (9, CHR ''t''), (11, CHR ''v'')] (code c) of
         Some e \<Rightarrow> [e]
       | None \<Rightarrow> [CHR ''x'', hex_digit (code c div 16), hex_digit (code c mod 16)]))"

definition Quote :: "string \<Rightarrow> string option" where
  "Quote s = (if list_all (\<lambda>c. code c < 128) s then Some (CHR 0x22 # concat (map quote_char s) @ [CHR 0x22]) else None)"

text \<open>The format of both functions.\<close>

definition error_open :: string where
  "error_open = CHR ''{'' # CHR 0x22 # ''error'' @ [CHR 0x22, CHR '':'']"

definition quoted_body :: "string \<Rightarrow> string option" where
  "quoted_body msg = map_option (\<lambda>q. error_open @ q @ ''}'') (Quote msg)"

subsection \<open>Reading the answer\<close>

definition read_error :: "string \<Rightarrow> string option" where
  "read_error body = (if HasPrefix body (error_open @ [CHR 0x22]) then
       (case json_string (drop (length error_open + 1) body) of Some (m, rest) \<Rightarrow> if rest = ''}'' then Some m else None
        | None \<Rightarrow> None)
     else None)"

text \<open>The control characters that \<open>%q\<close> escapes in a way JSON does not know.\<close>

definition go_only :: "char \<Rightarrow> bool" where
  "go_only c \<longleftrightarrow> code c = 127 \<or> (code c < 32 \<and> code c \<notin> {8, 9, 10, 12, 13})"

lemma code_simps [simp]:
  "code (CHR 0x08) = 8" "code (CHR 0x09) = 9" "code (CHR 0x0A) = 10" "code (CHR 0x0C) = 12" "code (CHR 0x0D) = 13"
  by (simp_all add: code_def)

lemma code_inj: "code c = code d \<longleftrightarrow> c = d"
  by (simp add: code_def)

lemma escaped_codes: "code c \<in> {8, 9, 10, 12, 13} \<Longrightarrow> c \<in> {CHR 0x08, CHR 0x09, CHR 0x0A, CHR 0x0C, CHR 0x0D}"
  using code_inj [of c "CHR 0x08"] code_inj [of c "CHR 0x09"] code_inj [of c "CHR 0x0A"] code_inj [of c "CHR 0x0C"]
    code_inj [of c "CHR 0x0D"] by auto

lemma json_escape_none: "json_escape (CHR ''a'') = None" "json_escape (CHR ''v'') = None" "json_escape (CHR ''x'') = None"
  by (simp_all add: json_escape_def)

lemma json_string_char:
  assumes "code c < 128"
  shows "json_string (quote_char c @ s) = (if go_only c then None else map_option (apfst ((#) c)) (json_string s))"
proof (cases "IsPrint c")
  case True
  then show ?thesis by (auto simp: quote_char_def IsPrint_def go_only_def json_escape_def)
next
  case False
  have n: "c \<noteq> CHR 0x22" "c \<noteq> CHR 0x5C" using False by (auto simp: IsPrint_def code_def)
  consider (known) "code c \<in> {8, 9, 10, 12, 13}" | (bell) "code c = 7" | (vert) "code c = 11"
    | (hex) "code c \<notin> {7, 8, 9, 10, 11, 12, 13}" by auto
  then show ?thesis
  proof cases
    case known
    from escaped_codes [OF this] show ?thesis by (auto simp: quote_char_def go_only_def json_escape_def IsPrint_def)
  next
    case bell
    then show ?thesis using n False by (simp add: quote_char_def go_only_def json_escape_none)
  next
    case vert
    then show ?thesis using n False by (simp add: quote_char_def go_only_def json_escape_none)
  next
    case hex
    then have "go_only c" using False assms by (auto simp: go_only_def IsPrint_def)
    then show ?thesis using n False hex by (simp add: quote_char_def json_escape_none)
  qed
qed

lemma json_string_quoted:
  "list_all (\<lambda>c. code c < 128) m \<Longrightarrow> json_string (concat (map quote_char m) @ CHR 0x22 # rest)
    = (if list_ex go_only m then None else Some (m, rest))"
  by (induction m) (simp_all add: json_string_char)

lemma read_quoted:
  assumes "list_all (\<lambda>c. code c < 128) m"
  shows "\<exists>text. quoted_body m = Some text \<and> read_error text = (if list_ex go_only m then None else Some m)"
  using assms json_string_quoted [OF assms, of "''}''"]
  by (simp add: quoted_body_def Quote_def read_error_def HasPrefix_def)

subsection \<open>The answer to an unknown signal type\<close>

lemma type_message:
  "list_all (\<lambda>c. code c < 128) (''invalid signal_type: '' @ t) \<longleftrightarrow> list_all (\<lambda>c. code c < 128) t"
  "list_ex go_only (''invalid signal_type: '' @ t) \<longleftrightarrow> list_ex go_only t"
  by (simp_all add: go_only_def code_def)

text \<open>
  The error answer to an unknown signal type quotes it as Go does, not as JSON does: POST
  /signal answers 400 without any effect, and a client that reads the body gets back the message
  with the type it has sent, unless an (ASCII) type holds a control character other than backspace,
  tab, newline, form feed and carriage return, or a delete: then the body is no JSON at all.
\<close>

theorem unknown_type_readable:
  assumes "rq_header r ''X-Signal-Signature'' \<noteq> []" and "rq_header r ''X-Signal-Timestamp'' \<noteq> []"
    and "Option.bind (rq_body r) Unmarshal_signal = Some sg" and "0 < TicketID sg"
    and "SignalType sg \<notin> {SignalOpen, SignalModify, SignalClose, SignalPartial}"
    and "list_all (\<lambda>c. code c < 128) (SignalType sg)"
  shows "\<exists>resp msg text. run_state (Receive E cfg r) w = (resp, w) \<and> status resp = 400 \<and> headers resp = json_type
    \<and> rbody resp = Quoted (EMsg msg) \<and> quoted_body msg = Some text
    \<and> read_error text = (if \<exists>c \<in> set (SignalType sg). go_only c then None else Some (''invalid signal_type: '' @ SignalType sg))"
proof -
  have "validate sg = Inl (EMsg (''invalid signal_type: '' @ SignalType sg))"
    using assms(4,5) by (simp add: validate_def)
  then have "run_state (Receive E cfg r) w = (writeError (EMsg (''invalid signal_type: '' @ SignalType sg)) 400, w)"
    using assms(1-3) by (simp add: Receive_def Let_def)
  then show ?thesis
    using read_quoted [of "''invalid signal_type: '' @ SignalType sg", unfolded type_message, OF assms(6)]
    by (simp add: writeError_def list_ex_iff)
qed

theorem unknown_type_readable_witness:
  "\<exists>resp msg text. run_state (Receive calm_env demo_cfg (demo_post ''2026-01-01T00:00:00Z'' [CHR 0x01] (27 / 20)))
      (calm_world empty_tables demo_time) = (resp, calm_world empty_tables demo_time)
    \<and> rbody resp = Quoted (EMsg msg) \<and> quoted_body msg = Some text \<and> read_error text = None"
proof -
  let ?r = "demo_post ''2026-01-01T00:00:00Z'' [CHR 0x01] (27 / 20)" and ?sg = "(demo_signal [CHR 0x01] (27 / 20))\<lparr>Symbol := '' eurusd.m''\<rparr>"
  have b: "Option.bind (rq_body ?r) Unmarshal_signal = Some ?sg" by (simp add: demo_post_def demo_decode)
  have h: "rq_header ?r ''X-Signal-Signature'' \<noteq> []" "rq_header ?r ''X-Signal-Timestamp'' \<noteq> []"
    by (simp_all add: demo_post_def bare_request_def GenerateSignalHMAC_def flip: length_greater_0_conv)
  have t: "0 < TicketID ?sg" "SignalType ?sg = [CHR 0x01]" by (simp_all add: demo_signal_def)
  have "SignalType ?sg \<notin> {SignalOpen, SignalModify, SignalClose, SignalPartial}" "list_all (\<lambda>c. code c < 128) (SignalType ?sg)"
    "go_only (CHR 0x01)"
    by (simp_all add: t signal_types code_def go_only_def)
  then show ?thesis using unknown_type_readable [OF h b t(1), of calm_env demo_cfg "calm_world empty_tables demo_time"]
    unfolding t(2) by auto
qed

end
