(* ===== verification/Terminal.thy ===== *)
theory Terminal
  imports JsonText
begin

text \<open>
  The functions of the MQL language that the MetaTrader programs under \<open>mql4\<close> and \<open>mql5\<close> call, on
  ASCII texts: strings, numbers and their texts, times, arrays of bytes. A position in a text is an
  \<open>int\<close>, \<open>-1\<close> where nothing is found. How \<open>DoubleToString\<close> breaks ties is not documented: it is a
  parameter of the programs, with its law in the locale \<open>mql_numbers\<close>.
\<close>

subsection \<open>Strings\<close>

fun find_text :: "string \<Rightarrow> string \<Rightarrow> nat option" where
  "find_text [] p = (if p = [] then Some 0 else None)"
| "find_text (c # s) p = (if HasPrefix (c # s) p then Some 0 else map_option Suc (find_text s p))"

definition StringFind :: "string \<Rightarrow> string \<Rightarrow> nat \<Rightarrow> int" where
  "StringFind s p start = (case find_text (drop start s) p of None \<Rightarrow> - 1 | Some i \<Rightarrow> int (start + i))"

definition StringSubstr :: "string \<Rightarrow> int \<Rightarrow> int \<Rightarrow> string" where
  "StringSubstr s start len = take (nat len) (drop (nat start) s)"

definition StringReplace :: "string \<Rightarrow> char \<Rightarrow> char \<Rightarrow> string" where
  "StringReplace s c d = map (\<lambda>x. if x = c then d else x) s"

abbreviation StringToUpper :: "string \<Rightarrow> string" where
  "StringToUpper \<equiv> ToUpper"

text \<open>A string literal of MQL with its escaped quotes: \<open>"\"key\":"\<close> and \<open>"\"key\":\"" + s + "\""\<close>.\<close>

definition key_text :: "string \<Rightarrow> string" where
  "key_text k = CHR 0x22 # k @ CHR 0x22 # '':''"

definition text_field :: "string \<Rightarrow> string \<Rightarrow> string" where
  "text_field k s = key_text k @ CHR 0x22 # s @ [CHR 0x22]"

subsection \<open>Numbers\<close>

abbreviation IntegerToString :: "int \<Rightarrow> string" where
  "IntegerToString \<equiv> FormatInt"

text \<open>The longest numeral at the start of the text; \<open>0\<close> if there is none.\<close>

definition StringToInteger :: "string \<Rightarrow> int" where
  "StringToInteger s = (let neg = HasPrefix s ''-''; t = (if neg \<or> HasPrefix s ''+'' then tl s else s);
     v = digits_val (takeWhile is_digit t) in sat64 (if neg then - v else v))"

definition StringToDouble :: "string \<Rightarrow> rat" where
  "StringToDouble s = (let neg = HasPrefix s ''-''; t = (if neg \<or> HasPrefix s ''+'' then tl s else s);
     ip = takeWhile is_digit t; (fr, u) = scan_frac (dropWhile is_digit t); (e, r) = scan_exp u in
     rnd (number_value neg ip fr e))"

text \<open>\<open>MathRound\<close> rounds half away from zero.\<close>

definition MathRound :: "rat \<Rightarrow> rat" where
  "MathRound x = sgn x * of_int \<lfloor>\<bar>x\<bar> + 1 / 2\<rfloor>"

text \<open>The text of a number to \<open>d\<close> places is a decimal numeral within half a unit of its last place.\<close>

locale mql_numbers =
  fixes DoubleToString :: "rat \<Rightarrow> nat \<Rightarrow> string"
  assumes to_string: "\<exists>n. DoubleToString v d = decimal_text n d \<and> \<bar>of_int n / 10 ^ d - v\<bar> \<le> 1 / (2 * 10 ^ d)"

definition decimal_nearest :: "rat \<Rightarrow> nat \<Rightarrow> string" where
  "decimal_nearest v d = decimal_text (round_rat (v * 10 ^ d)) d"

interpretation nearest: mql_numbers decimal_nearest
proof
  fix v :: rat and d :: nat
  have "\<bar>of_int (round_rat (v * 10 ^ d)) / 10 ^ d - v\<bar> = \<bar>of_int (round_rat (v * 10 ^ d)) - v * 10 ^ d\<bar> / 10 ^ d"
    by (simp add: field_simps flip: abs_divide [of _ "10 ^ d", simplified])
  also have "\<dots> \<le> (1 / 2) / 10 ^ d" by (rule divide_right_mono [OF round_rat_near]) simp
  also have "(1 / 2) / 10 ^ d = 1 / (2 * 10 ^ d :: rat)" by simp
  finally show "\<exists>n. decimal_nearest v d = decimal_text n d \<and> \<bar>of_int n / 10 ^ d - v\<bar> \<le> 1 / (2 * 10 ^ d)"
    unfolding decimal_nearest_def by blast
qed

subsection \<open>Times\<close>

text \<open>
  A \<open>datetime\<close> counts seconds since 1970. \<open>time_fields\<close> are the fields that \<open>TimeToStruct\<close> fills in;
  \<open>zero_text\<close> is the format \<open>%04d\<close> or \<open>%02d\<close>.
\<close>

definition zero_text :: "nat \<Rightarrow> nat \<Rightarrow> string" where
  "zero_text k n = replicate (k - length (nat_text n)) CHR ''0'' @ nat_text n"

definition time_fields :: "int \<Rightarrow> nat list" where
  "time_fields t = (let (y, m, d) = civil (t div 86400 + epoch_day); r = nat (t mod 86400) in
     [nat y, m, nat d, r div 3600, r div 60 mod 60, r mod 60])"

text \<open>\<open>TimeToString\<close> with the flags for date, minutes and seconds: \<open>yyyy.mm.dd hh:mi:ss\<close>.\<close>

definition TimeToString :: "int \<Rightarrow> string" where
  "TimeToString t = (case time_fields t of
     [y, m, d, h, mi, s] \<Rightarrow> zero_text 4 y @ CHR ''.'' # zero_text 2 m @ CHR ''.'' # zero_text 2 d @ CHR '' ''
       # zero_text 2 h @ CHR '':'' # zero_text 2 mi @ CHR '':'' # zero_text 2 s
   | _ \<Rightarrow> [])"

subsection \<open>Arrays\<close>

text \<open>
  \<open>ArrayCopy\<close> into a dynamic array overwrites from the start, extends the array if it must and
  never shrinks it. \<open>ArrayResize\<close> truncates or extends; what the new elements hold is not documented:
  \<open>fresh\<close>. Its third argument only reserves memory.
\<close>

definition ArrayCopy :: "byte list \<Rightarrow> byte list \<Rightarrow> byte list" where
  "ArrayCopy dst src = src @ drop (length src) dst"

definition ArrayResize :: "(nat \<Rightarrow> byte) \<Rightarrow> nat \<Rightarrow> byte list \<Rightarrow> byte list" where
  "ArrayResize fresh n a = take n a @ map fresh [length a..<n]"

text \<open>The cells of a CSV file that is read one by one: a cell beyond the end of the file reads as the empty text.\<close>

definition cell :: "nat \<Rightarrow> string list \<Rightarrow> string" where
  "cell n cs = (if n < length cs then cs ! n else [])"

subsection \<open>Texts of numbers and times\<close>

lemma decimal_scan:
  assumes "0 \<le> n"
  shows "takeWhile is_digit (decimal_text n d) = nat_text (nat n div 10 ^ d)"
    and "dropWhile is_digit (decimal_text n d) = CHR ''.'' # pad d (nat n mod 10 ^ d)"
    and "scan_frac (CHR ''.'' # pad d k) = (pad d k, [])"
    and "number_value False (nat_text (nat n div 10 ^ d)) (pad d (nat n mod 10 ^ d)) None = of_int n / 10 ^ d"
proof -
  have t: "decimal_text n d = nat_text (nat n div 10 ^ d) @ CHR ''.'' # pad d (nat n mod 10 ^ d)"
    using assms by (simp add: decimal_text_def)
  show "takeWhile is_digit (decimal_text n d) = nat_text (nat n div 10 ^ d)"
    "dropWhile is_digit (decimal_text n d) = CHR ''.'' # pad d (nat n mod 10 ^ d)"
    unfolding t by (rule takeWhile_digits [OF nat_text_digits]; simp add: is_digit_def)+
  show "scan_frac (CHR ''.'' # pad d k) = (pad d k, [])"
    using takeWhile_digits [OF pad_digits, of "[]" d k] by (simp add: scan_frac_def)
  have "digits_val (nat_text (nat n div 10 ^ d) @ pad d (nat n mod 10 ^ d)) = n"
    using assms div_mult_mod_eq [of n "10 ^ d"] by (simp add: digits_val_append digits_val_pad zdiv_int zmod_int)
  then show "number_value False (nat_text (nat n div 10 ^ d)) (pad d (nat n mod 10 ^ d)) None = of_int n / 10 ^ d"
    by (simp add: number_value_def power_int_minus divide_inverse)
qed

lemma StringToDouble_decimal:
  assumes "0 \<le> n"
  shows "StringToDouble (decimal_text n d) = rnd (of_int n / 10 ^ d)"
proof -
  have "\<not> HasPrefix (decimal_text n d) ''-''" "\<not> HasPrefix (decimal_text n d) ''+''"
    using assms nat_text_no_sign [of "nat n div 10 ^ d"] nat_text_neq_Nil [of "nat n div 10 ^ d"]
    by (cases "nat_text (nat n div 10 ^ d)"; simp add: decimal_text_def)+
  then show ?thesis by (simp add: StringToDouble_def decimal_scan [OF assms] scan_exp_def)
qed

lemma StringToInteger_FormatInt:
  assumes "in64 i"
  shows "StringToInteger (FormatInt i) = i"
proof -
  have w: "takeWhile is_digit (nat_text k) = nat_text k" for k
    using takeWhile_digits(1) [OF nat_text_digits, of "[]" k] by simp
  show ?thesis
  proof (cases "i < 0")
    case True
    then show ?thesis using assms by (simp add: StringToInteger_def FormatInt_def Let_def w sat64_id)
  next
    case False
    then show ?thesis using assms by (simp add: StringToInteger_def FormatInt_def Let_def w sat64_id nat_text_no_sign)
  qed
qed

text \<open>A numeral that fits is printed as the padded one of RFC 3339.\<close>

lemma length_nat_text: "0 < k \<Longrightarrow> n < 10 ^ k \<Longrightarrow> length (nat_text n) \<le> k"
proof (induction k arbitrary: n)
  case (Suc k)
  show ?case
  proof (cases "n < 10")
    case False
    then have "0 < k" using Suc.prems(2) by (cases k) auto
    moreover have "n div 10 < 10 ^ k" using Suc.prems(2) by (simp add: div_less_iff_less_mult mult.commute)
    ultimately have "length (nat_text (n div 10)) \<le> k" by (rule Suc.IH)
    with False show ?thesis by (subst nat_text.simps) simp
  qed (subst nat_text.simps, simp)
qed simp

lemma digit_char_0 [simp]: "digit_char 0 = CHR ''0''"
  by code_simp

lemma zero_text_pad: "0 < k \<Longrightarrow> n < 10 ^ k \<Longrightarrow> zero_text k n = pad k n"
proof (induction k arbitrary: n)
  case (Suc k)
  show ?case
  proof (cases "k = 0")
    case True
    then show ?thesis using Suc.prems by (subst zero_text_def, subst (1 2) nat_text.simps) simp
  next
    case False
    have d: "n div 10 < 10 ^ k" using Suc.prems(2) by (simp add: div_less_iff_less_mult mult.commute)
    have i: "zero_text k (n div 10) = pad k (n div 10)" using Suc.IH False d by simp
    show ?thesis
    proof (cases "n < 10")
      case True
      obtain j where j: "k = Suc j" using False by (cases k) auto
      from True have n: "n div 10 = 0" "n mod 10 = n" by simp_all
      have "nat_text n = [digit_char n]" "nat_text 0 = ''0''" using True
        by (subst nat_text.simps, simp)+
      then show ?thesis using i unfolding n j by (simp add: zero_text_def n replicate_append_same)
    next
      case False
      then have "nat_text n = nat_text (n div 10) @ [digit_char (n mod 10)]" by (subst nat_text.simps) simp
      then show ?thesis using i by (simp add: zero_text_def)
    qed
  qed
qed simp

lemma StringReplace_append: "StringReplace (s @ t) c d = StringReplace s c d @ StringReplace t c d"
  by (simp add: StringReplace_def)

lemma StringReplace_Cons: "StringReplace (x # s) c d = (if x = c then d else x) # StringReplace s c d"
  by (simp add: StringReplace_def)

lemma StringReplace_none: "c \<notin> set s \<Longrightarrow> StringReplace s c d = s"
  unfolding StringReplace_def by (rule map_idI) auto

end
