(* ===== verification/Monitor.thy ===== *)
theory Monitor
  imports Terminal SignalHandler
begin

text \<open>
  The signals of the program on the source account, \<open>mql5/MT5Signal_Monitor.mq5\<close>: how it signs and
  prints them. The lemmas say when its signature is the one of the server and that the server takes what
  it posts. What it reports is the subject of \<open>Tickets\<close>.
\<close>

subsection \<open>The terminal\<close>

record Position =
  POSITION_TICKET :: int
  POSITION_SYMBOL :: string
  POSITION_BUY :: bool
  POSITION_VOLUME :: rat
  POSITION_SL :: rat
  POSITION_TP :: rat
  POSITION_PRICE_OPEN :: rat

datatype DealEntry = DEAL_ENTRY_IN | DEAL_ENTRY_OUT | DEAL_ENTRY_INOUT | DEAL_ENTRY_OUT_BY

record Deal =
  DEAL_POSITION_ID :: int
  DEAL_ENTRY :: DealEntry
  DEAL_BUY :: bool
  DEAL_PRICE :: rat
  DEAL_SYMBOL :: string
  DEAL_VOLUME :: rat

text \<open>\<open>Deals\<close> are those of the last seven days; \<open>FileOpens\<close> says whether \<open>FileOpen\<close> succeeds.\<close>

record terminal =
  Positions :: "Position list"
  Deals :: "Deal list"
  TimeGMT :: int
  FileOpens :: bool

definition direction_text :: "bool \<Rightarrow> string" where
  "direction_text buy = (if buy then ''BUY'' else ''SELL'')"

subsection \<open>Sending a signal\<close>

text \<open>
  \<open>ComputeHMAC\<close>: HMAC-SHA256 from the hash that \<open>CryptEncode\<close> offers. \<open>fresh\<close> is what \<open>ArrayResize\<close>
  leaves in new elements.
\<close>

definition mt5_key :: "(nat \<Rightarrow> byte) \<Rightarrow> byte list \<Rightarrow> byte list" where
  "mt5_key fresh keyBytes = (let k = (if length keyBytes > 64 then ArrayCopy keyBytes (Sum256 keyBytes) else keyBytes)
     in ArrayResize fresh 64 k)"

definition ComputeHMAC :: "(nat \<Rightarrow> byte) \<Rightarrow> string \<Rightarrow> string \<Rightarrow> string" where
  "ComputeHMAC fresh key message = (let keyBytes = mt5_key fresh (bytes_of key); msgBytes = bytes_of message;
       ipad = map (\<lambda>b. b XOR 0x36) keyBytes; opad = map (\<lambda>b. b XOR 0x5C) keyBytes;
       innerHash = Sum256 (ipad @ msgBytes); finalHash = Sum256 (opad @ innerHash)
     in hex_encode finalHash)"

text \<open>The arguments of one call of \<open>SendSignal\<close>.\<close>

record SignalCall =
  sc_ticket :: int
  sc_type :: string
  sc_symbol :: string
  sc_direction :: string
  sc_price :: rat
  sc_sl :: rat
  sc_tp :: rat
  sc_lot :: rat

definition monitor_symbol :: "string \<Rightarrow> string" where
  "monitor_symbol symbol = (let dotPos = StringFind symbol ''.'' 0;
       s = (if dotPos > 0 then StringSubstr symbol 0 dotPos else symbol) in StringToUpper s)"

definition monitor_timestamp :: "int \<Rightarrow> string" where
  "monitor_timestamp t = (case time_fields t of
     [y, m, d, h, mi, s] \<Rightarrow> zero_text 4 y @ CHR ''-'' # zero_text 2 m @ CHR ''-'' # zero_text 2 d @ CHR ''T''
       # zero_text 2 h @ CHR '':'' # zero_text 2 mi @ CHR '':'' # zero_text 2 s @ ''Z''
   | _ \<Rightarrow> [])"

definition monitor_payload :: "(rat \<Rightarrow> nat \<Rightarrow> string) \<Rightarrow> int \<Rightarrow> SignalCall \<Rightarrow> string" where
  "monitor_payload dts gmt c = ''{''
     @ key_text ''ticket_id'' @ IntegerToString (wrap64 (sc_ticket c)) @ '',''
     @ text_field ''signal_type'' (sc_type c) @ '',''
     @ text_field ''symbol'' (monitor_symbol (sc_symbol c)) @ '',''
     @ text_field ''direction'' (sc_direction c) @ '',''
     @ key_text ''price'' @ dts (sc_price c) 8 @ '',''
     @ (if sc_sl c > 0 then key_text ''sl'' @ dts (sc_sl c) 8 @ '','' else [])
     @ (if sc_tp c > 0 then key_text ''tp'' @ dts (sc_tp c) 8 @ '','' else [])
     @ key_text ''lot'' @ dts (sc_lot c) 4 @ '',''
     @ text_field ''timestamp'' (monitor_timestamp gmt) @ ''}''"

text \<open>The request that \<open>WebRequest\<close> sends; its answer is only printed.\<close>

record Post =
  post_headers :: "(string \<times> string) list"
  post_body :: string

definition SendSignal :: "(nat \<Rightarrow> byte) \<Rightarrow> (rat \<Rightarrow> nat \<Rightarrow> string) \<Rightarrow> string \<Rightarrow> int \<Rightarrow> SignalCall \<Rightarrow> Post" where
  "SendSignal fresh dts HMACSecret gmt c = (let symbol = monitor_symbol (sc_symbol c); timestamp = monitor_timestamp gmt;
       signature = ComputeHMAC fresh HMACSecret
         (IntegerToString (wrap64 (sc_ticket c)) @ '':'' @ sc_type c @ '':'' @ symbol @ '':'' @ timestamp)
     in \<lparr>post_headers = [(''Content-Type'', ''application/json''), (''X-Signal-Signature'', signature),
           (''X-Signal-Timestamp'', timestamp)],
         post_body = monitor_payload dts gmt c\<rparr>)"

text \<open>The call for an open position.\<close>

definition position_call :: "string \<Rightarrow> Position \<Rightarrow> SignalCall" where
  "position_call ty p = \<lparr>sc_ticket = POSITION_TICKET p, sc_type = ty, sc_symbol = POSITION_SYMBOL p,
     sc_direction = direction_text (POSITION_BUY p), sc_price = POSITION_PRICE_OPEN p, sc_sl = POSITION_SL p,
     sc_tp = POSITION_TP p, sc_lot = POSITION_VOLUME p\<rparr>"

subsection \<open>The key of the signature\<close>

text \<open>
  A secret of more than 64 bytes leaves its bytes 32 to 63 in the array behind the hash, so the key
  is that of HMAC only if these are all zero.
\<close>

lemma mt5_key_long: "64 < length k \<Longrightarrow> mt5_key fresh k = Sum256 k @ take 32 (drop 32 k)"
  by (simp add: mt5_key_def ArrayCopy_def ArrayResize_def)

lemma mt5_key_short: "length k \<le> 64 \<Longrightarrow> mt5_key fresh k = k @ map fresh [length k..<64]"
  by (simp add: mt5_key_def ArrayResize_def)

lemma length_mt5_key: "length (mt5_key fresh k) = 64"
  by (cases "64 < length k") (simp_all add: mt5_key_long mt5_key_short)

lemma mt5_key_hmac:
  assumes "fresh = (\<lambda>_. 0)"
  shows "mt5_key fresh k = hmac_key k \<longleftrightarrow> length k \<le> 64 \<or> take 32 (drop 32 k) = replicate 32 0"
proof (cases "64 < length k")
  case True
  then show ?thesis by (simp add: mt5_key_long hmac_key_def)
next
  case False
  have "map fresh [length k..<64] = replicate (64 - length k) 0"
    using assms by (intro nth_equalityI) simp_all
  with False show ?thesis by (simp add: mt5_key_short hmac_key_def)
qed

lemma ComputeHMAC_eq:
  "mt5_key fresh (bytes_of key) = hmac_key (bytes_of key) \<Longrightarrow> ComputeHMAC fresh key m = hex_encode (HmacSHA256 (bytes_of key) (bytes_of m))"
proof -
  assume k: "mt5_key fresh (bytes_of key) = hmac_key (bytes_of key)"
  have "(XOR) (0x5C :: byte) = (\<lambda>b. b XOR 0x5C)" "(XOR) (0x36 :: byte) = (\<lambda>b. b XOR 0x36)"
    by (rule ext, rule xor.commute)+
  then show ?thesis unfolding ComputeHMAC_def HmacSHA256_def Let_def k by (simp only:)
qed

lemma length_bytes_of [simp]: "length (bytes_of s) = length s"
  by (simp add: bytes_of_def)

lemma ComputeHMAC_signs:
  assumes "fresh = (\<lambda>_. 0)" and "length secret \<le> 64"
  shows "ComputeHMAC fresh secret (tid @ '':'' @ ty @ '':'' @ smb @ '':'' @ ts) = GenerateSignalHMAC secret tid ty smb ts"
  using mt5_key_hmac [where fresh = fresh and k = "bytes_of secret", OF assms(1)] assms(2)
  by (simp add: GenerateSignalHMAC_def signal_message_def ComputeHMAC_eq)



subsection \<open>The timestamp\<close>

lemma zone_num_strict: "zone_num True s = Some z \<Longrightarrow> zone_num False s = Some z"
  by (auto simp: zone_num_def split: list.splits if_splits bind_splits prod.splits)

lemma frac_num_strict: "zone_num True (snd (frac_num True s)) = Some z \<Longrightarrow> frac_num False s = frac_num True s"
  by (auto simp: frac_num_def zone_num_def split: list.splits if_splits bind_splits prod.splits)

lemma hour_num_strict: "hour_num True s = Some r \<Longrightarrow> hour_num False s = Some r"
  by (auto simp: hour_num_def split: option.splits)

lemma parse_strict: "parse_rfc3339 True s = Some t \<Longrightarrow> parse_rfc3339 False s = Some t"
  unfolding parse_rfc3339_def
  by (auto simp: hour_num_strict frac_num_strict zone_num_strict Let_def split: bind_splits prod.splits if_splits)

lemma civil_year:
  assumes "0 \<le> t" and "t < 253402300800" and "civil (t div 86400 + epoch_day) = (y, m, d)"
  shows "0 \<le> y \<and> y \<le> 9999"
proof -
  define n where "n = t div 86400 + epoch_day"
  have n: "719162 \<le> n" "n \<le> 3652058" using assms(1,2) by (simp_all add: n_def epoch_day_def)
  have y: "y = year_of n" using assms(3) by (auto simp: n_def civil_def Let_def split: prod.splits)
  show ?thesis
    using n year_of_correct [of n] days_before_year_bounds [of y] days_before_year_bounds [of "y + 1"] unfolding y by simp
qed

lemma monitor_timestamp_format:
  assumes "0 \<le> t" and "t < 253402300800"
  shows "format_rfc3339 \<lparr>inst = t * Second, zone = 0\<rparr> = Some (monitor_timestamp t)"
proof -
  obtain y m d where c: "civil (t div 86400 + epoch_day) = (y, m, d)" by (metis prod_cases3)
  have y: "0 \<le> y" "y \<le> 9999" using civil_year [OF assms c] by simp_all
  have md: "m < 100" "0 \<le> d" "d \<le> 31"
    using civil_correct [OF c] month_days_pos(2) [of "leap y" m] by simp_all
  have s: "t * Second div Second = t" "t * Second mod Second = 0" by (simp_all add: Second_def)
  have r: "nat (t mod 86400) div 3600 < 100" by simp
  show ?thesis
    using y md r by (simp add: format_rfc3339_def monitor_timestamp_def time_fields_def s c frac_text_def zone_text_def zero_text_pad Let_def)
qed

lemma monitor_timestamp_parse:
  assumes "0 \<le> t" and "t < 253402300800"
  shows "ParseRFC3339 (monitor_timestamp t) = Some (t * Second)"
    and "parse_rfc3339 True (monitor_timestamp t) = Some \<lparr>inst = t * Second, zone = 0\<rparr>"
proof -
  show p: "parse_rfc3339 True (monitor_timestamp t) = Some \<lparr>inst = t * Second, zone = 0\<rparr>"
    by (rule parse_format_rfc3339 [OF monitor_timestamp_format [OF assms]]) simp
  show "ParseRFC3339 (monitor_timestamp t) = Some (t * Second)"
    using parse_strict [OF p] by (simp add: ParseRFC3339_def)
qed

subsection \<open>The payload\<close>

text \<open>What a number becomes on its way: printed to \<open>d\<close> places and read as a \<open>double\<close>.\<close>

definition printed :: "(rat \<Rightarrow> nat \<Rightarrow> string) \<Rightarrow> rat \<Rightarrow> nat \<Rightarrow> rat" where
  "printed dts v d = StringToDouble (dts v d)"

text \<open>The signal that the server reads from the payload.\<close>

definition sent_signal :: "(rat \<Rightarrow> nat \<Rightarrow> string) \<Rightarrow> int \<Rightarrow> SignalCall \<Rightarrow> InboundSignal" where
  "sent_signal dts gmt c = \<lparr>TicketID = wrap64 (sc_ticket c), SignalType = sc_type c, Symbol = monitor_symbol (sc_symbol c),
     Direction = sc_direction c, Price = printed dts (sc_price c) 8,
     SL = (if sc_sl c > 0 then Some (printed dts (sc_sl c) 8) else None),
     TP = (if sc_tp c > 0 then Some (printed dts (sc_tp c) 8) else None),
     Lot = printed dts (sc_lot c) 4, Timestamp = \<lparr>inst = gmt * Second, zone = 0\<rparr>\<rparr>"

context mql_numbers
begin

lemma decimal_of:
  assumes "0 \<le> v"
  obtains n where "0 \<le> n" and "DoubleToString v d = decimal_text n d" and "\<bar>of_int n / 10 ^ d - v\<bar> \<le> 1 / (2 * 10 ^ d)"
    and "printed DoubleToString v d = rnd (of_int n / 10 ^ d)"
proof -
  obtain n where n: "DoubleToString v d = decimal_text n d" "\<bar>of_int n / 10 ^ d - v\<bar> \<le> 1 / (2 * 10 ^ d)"
    using to_string by blast
  have "- (1 / (2 * 10 ^ d)) \<le> (of_int n / 10 ^ d :: rat)" using n(2) assms unfolding abs_le_iff by linarith
  then have "- (1 / 2) \<le> (of_int n :: rat)" by (simp add: field_simps)
  then have "- 1 < n" using of_int_less_iff [of "- 1" n, where 'a = rat] by simp
  then have "0 \<le> n" by simp
  with n StringToDouble_decimal show ?thesis by (intro that) (simp_all add: printed_def)
qed

lemma reads_as_printed [tokens]:
  "0 \<le> v \<Longrightarrow> 0 < d \<Longrightarrow> reads_as (DoubleToString v d) (JNum (printed DoubleToString v d))"
  by (rule decimal_of [of v d]) (simp_all add: reads_as_decimal)

text \<open>A number that is at least half a unit of the last place is not printed as zero.\<close>

lemma printed_pos:
  assumes "1 / (2 * 10 ^ d) < v"
  shows "0 < printed DoubleToString v d"
proof -
  have v: "0 \<le> v" using assms by (rule order_trans [OF _ less_imp_le, rotated]) simp
  obtain n where n: "\<bar>of_int n / 10 ^ d - v\<bar> \<le> 1 / (2 * 10 ^ d)" "printed DoubleToString v d = rnd (of_int n / 10 ^ d)"
    using decimal_of [OF v] by metis
  have "0 < (of_int n / 10 ^ d :: rat)" using n(1) assms by (simp add: abs_le_iff)
  then show ?thesis unfolding n(2) using rnd_bounds zero_less_power_int [of "2 :: rat"] by (meson less_le_trans zero_less_numeral)
qed

end

definition call_members :: "(rat \<Rightarrow> nat \<Rightarrow> string) \<Rightarrow> int \<Rightarrow> SignalCall \<Rightarrow> (string \<times> string \<times> json) list" where
  "call_members dts gmt c = (let q = (\<lambda>s. (CHR 0x22 # s @ [CHR 0x22], JStr s)); f = (\<lambda>v d. (dts v d, JNum (printed dts v d))) in
     [(''ticket_id'', FormatInt (wrap64 (sc_ticket c)), JInt (wrap64 (sc_ticket c))), (''signal_type'', q (sc_type c)),
      (''symbol'', q (monitor_symbol (sc_symbol c))), (''direction'', q (sc_direction c)), (''price'', f (sc_price c) 8)]
     @ (if sc_sl c > 0 then [(''sl'', f (sc_sl c) 8)] else []) @ (if sc_tp c > 0 then [(''tp'', f (sc_tp c) 8)] else [])
     @ [(''lot'', f (sc_lot c) 4), (''timestamp'', q (monitor_timestamp gmt))])"

lemma payload_members: "monitor_payload dts gmt c = CHR ''{'' # members_text (map (\<lambda>(k, t, v). (k, t)) (call_members dts gmt c))"
  by (simp add: monitor_payload_def call_members_def key_text_def text_field_def Let_def)

text \<open>The texts of a call that need no escape in JSON.\<close>

definition plain_call :: "SignalCall \<Rightarrow> bool" where
  "plain_call c \<longleftrightarrow> list_all plain_char (sc_type c) \<and> list_all plain_char (sc_symbol c) \<and> list_all plain_char (sc_direction c)"

lemma plain_upper: "plain_char c \<Longrightarrow> plain_char (upper_char c)"
proof -
  assume p: "plain_char c"
  have "code (upper_char c) = 34 \<or> code (upper_char c) = 92 \<Longrightarrow> code c = 34 \<or> code c = 92"
    by (auto simp: code_def upper_char_code split: if_splits)
  moreover have "code d = 34 \<longleftrightarrow> d = CHR 0x22" "code d = 92 \<longleftrightarrow> d = CHR 0x5C" for d
    using of_char_eq_iff [of d "CHR 0x22", where 'a = nat] of_char_eq_iff [of d "CHR 0x5C", where 'a = nat] by (auto simp: code_def)
  moreover have "32 \<le> code (upper_char c) \<and> code (upper_char c) < 127"
    using p by (auto simp: plain_char_def code_def upper_char_code)
  ultimately show ?thesis using p by (auto simp: plain_char_def)
qed

lemma monitor_symbol_plain: "list_all plain_char s \<Longrightarrow> list_all plain_char (monitor_symbol s)"
  by (auto simp: monitor_symbol_def StringSubstr_def ToUpper_def Let_def list_all_iff plain_upper dest: in_set_takeD)

lemma plain_digit: "is_digit c \<Longrightarrow> plain_char c"
  by (auto simp: is_digit_def plain_char_def code_def)

lemma monitor_timestamp_plain: "list_all plain_char (monitor_timestamp t)"
proof -
  have "list_all plain_char (nat_text n)" for n
    using nat_text_digits [of n] plain_digit by (auto simp: list_all_iff)
  moreover have "plain_char CHR ''0''" by (simp add: plain_char_def code_def)
  ultimately have "list_all plain_char (zero_text k n)" for k n by (auto simp: zero_text_def list_all_iff)
  then show ?thesis by (simp add: monitor_timestamp_def time_fields_def Let_def plain_char_def code_def split: prod.splits list.splits)
qed

subsection \<open>The server takes what the monitor sends\<close>

text \<open>The request as \<open>net/http\<close> hands it to the server.\<close>

definition signal_request :: "Post \<Rightarrow> request" where
  "signal_request p = (bare_request (post_headers p))\<lparr>rq_method := ''POST'', rq_path := ''/signal'', rq_body := json_read (post_body p)\<rparr>"

text \<open>The calls that the program is meant to make.\<close>

definition proper_call :: "SignalCall \<Rightarrow> bool" where
  "proper_call c \<longleftrightarrow> 0 < sc_ticket c \<and> sc_ticket c < 2 ^ 63
     \<and> sc_type c \<in> {SignalOpen, SignalModify, SignalClose, SignalPartial} \<and> sc_direction c \<in> {''BUY'', ''SELL''}
     \<and> list_all plain_char (sc_symbol c) \<and> CHR '' '' \<notin> set (sc_symbol c) \<and> sc_symbol c \<noteq> [] \<and> hd (sc_symbol c) \<noteq> CHR ''.''
     \<and> 1 / (2 * 10 ^ 8) < sc_price c \<and> 1 / (2 * 10 ^ 4) < sc_lot c"

lemma proper_plain: "proper_call c \<Longrightarrow> plain_call c"
  by (auto simp: proper_call_def plain_call_def signal_types plain_char_def code_def)

lemma wrap64_ticket: "proper_call c \<Longrightarrow> wrap64 (sc_ticket c) = sc_ticket c"
  by (rule wrap64_id) (simp add: proper_call_def in64_def min64_def max64_def)

lemma find_text_char: "find_text s [c] = IndexByte s c"
  by (induction s) (auto simp: HasPrefix_def)

lemma monitor_symbol_stem:
  assumes "s = [] \<or> hd s \<noteq> CHR ''.''"
  shows "monitor_symbol s = ToUpper (takeWhile (\<lambda>c. c \<noteq> CHR ''.'') s)"
proof (cases "IndexByte s CHR ''.''")
  case None
  then have t: "takeWhile (\<lambda>c. c \<noteq> CHR ''.'') s = s" unfolding IndexByte_None takeWhile_eq_all_conv by auto
  show ?thesis unfolding t using None by (simp add: monitor_symbol_def StringFind_def find_text_char)
next
  case (Some i)
  have i: "i < length s" "s ! i = CHR ''.''" "CHR ''.'' \<notin> set (take i s)" using IndexByte_Some [OF Some] by simp_all
  then have "i \<noteq> 0" using assms by (cases s; cases i) auto
  have "takeWhile (\<lambda>c. c \<noteq> CHR ''.'') s = take i s"
    by (rule takeWhile_eq_take_P_nth) (use i nth_mem [of _ "take i s"] in \<open>auto simp: in_set_conv_nth\<close>)
  with Some \<open>i \<noteq> 0\<close> show ?thesis by (simp add: monitor_symbol_def StringFind_def find_text_char StringSubstr_def)
qed

text \<open>The server's normalisation leaves it alone.\<close>

lemma monitor_symbol_normal:
  assumes "s \<noteq> []" and "hd s \<noteq> CHR ''.''" and "list_all plain_char s" and "CHR '' '' \<notin> set s"
  shows "normalizeSymbol (monitor_symbol s) = monitor_symbol s" and "monitor_symbol s \<noteq> []"
proof -
  let ?t = "takeWhile (\<lambda>c. c \<noteq> CHR ''.'') s"
  have m: "monitor_symbol s = ToUpper ?t" using monitor_symbol_stem assms(2) by blast
  have t: "?t \<noteq> []" using assms(1,2) by (cases s) auto
  then show "monitor_symbol s \<noteq> []" by (simp add: m)
  have "\<not> is_space c" if "c \<in> set ?t" for c
  proof -
    have c: "32 \<le> code c" "c \<noteq> CHR '' ''" using that assms(3,4) by (auto simp: list_all_iff plain_char_def dest: set_takeWhileD)
    then have "code c \<noteq> 32" using of_char_eq_iff [of c "CHR '' ''", where 'a = nat] by (simp add: code_def)
    with c(1) show ?thesis by (auto simp: is_space_code code_def)
  qed
  then have "TrimSpace ?t = ?t" using t by (intro TrimSpace_id) (meson hd_in_set last_in_set)
  then have i: "TrimSpace (ToUpper ?t) = ToUpper ?t" by (simp add: TrimSpace_ToUpper)
  have d: "upper_char c \<noteq> CHR ''.''" if "c \<noteq> CHR ''.''" for c
  proof
    assume "upper_char c = CHR ''.''"
    then have "of_char (upper_char c) = (46 :: nat)" by simp
    then have "of_char c = (of_char CHR ''.'' :: nat)" unfolding upper_char_code by (auto split: if_splits)
    with that show False by (simp only: of_char_eq_iff)
  qed
  have "CHR ''.'' \<notin> set (ToUpper ?t)"
  proof
    assume "CHR ''.'' \<in> set (ToUpper ?t)"
    then obtain c where c: "c \<in> set ?t" "upper_char c = CHR ''.''" unfolding ToUpper_def set_map by (metis imageE)
    from set_takeWhileD [OF c(1)] d [of c] c(2) show False by blast
  qed
  then show "normalizeSymbol (monitor_symbol s) = monitor_symbol s"
    unfolding m by (simp add: normalizeSymbol_def i IndexByte_None [THEN iffD2])
qed

lemma payload_decoded:
  assumes "in64 (wrap64 (sc_ticket c))" and "parse_rfc3339 True (monitor_timestamp gmt) = Some t"
  shows "Unmarshal_signal (JObj (map (\<lambda>(k, t, v). (k, v)) (call_members dts gmt c))) = Some ((sent_signal dts gmt c)\<lparr>Timestamp := t\<rparr>)"
  using assms by (simp add: Unmarshal_signal_def dec_signal_def signal_fields_def call_members_def sent_signal_def field_def
      key_match_def zero_signal_def Let_def)

lemma payload_read:
  assumes "mql_numbers dts" and "proper_call c"
  shows "json_read (monitor_payload dts gmt c) = Some (JObj (map (\<lambda>(k, t, v). (k, v)) (call_members dts gmt c)))"
  unfolding payload_members
proof (rule json_read_object)
  fix k t v assume m: "(k, t, v) \<in> set (call_members dts gmt c)"
  note r = mql_numbers.reads_as_printed [OF assms(1)] reads_as_string reads_as_int
  have "list_all plain_char (monitor_symbol (sc_symbol c))" "list_all plain_char (sc_type c)" "list_all plain_char (sc_direction c)"
    "0 \<le> sc_price c" "0 \<le> sc_lot c" "0 \<le> wrap64 (sc_ticket c)"
    using proper_plain [OF assms(2)] monitor_symbol_plain wrap64_ticket [OF assms(2)] assms(2)
    by (auto simp: plain_call_def proper_call_def)
  with m r monitor_timestamp_plain [of gmt] show "list_all plain_char k \<and> reads_as t v"
    by (auto simp: call_members_def Let_def plain_char_def code_def split: if_splits)
qed (simp add: call_members_def)

lemma sent_valid:
  assumes "mql_numbers dts" and "proper_call c"
  shows "validate (sent_signal dts gmt c) = Inr ()"
proof -
  have "0 < printed dts (sc_price c) 8" "0 < printed dts (sc_lot c) 4"
    using mql_numbers.printed_pos [OF assms(1)] assms(2) by (auto simp: proper_call_def)
  then show ?thesis
    using assms(2) monitor_symbol_normal(2) [of "sc_symbol c"] unfolding validate_ok
    by (auto simp: sent_signal_def proper_call_def wrap64_ticket [OF assms(2)])
qed

lemma sent_admissible:
  assumes "mql_numbers dts" and "proper_call c" and "length (SignalHMACSecret cfg) \<le> 64"
    and "0 \<le> gmt" and "gmt < 253402300800" and "\<bar>now - gmt * Second\<bar> \<le> SignalTimestampTTL cfg" and "SignalTimestampTTL cfg < max64"
  shows "admissible cfg now (signal_request (SendSignal (\<lambda>_. 0) dts (SignalHMACSecret cfg) gmt c)) (sent_signal dts gmt c)"
proof -
  let ?r = "signal_request (SendSignal (\<lambda>_. 0) dts (SignalHMACSecret cfg) gmt c)" and ?sg = "sent_signal dts gmt c"
  have i: "in64 (wrap64 (sc_ticket c))" by simp
  have b: "Option.bind (rq_body ?r) Unmarshal_signal = Some ?sg"
    using payload_read [OF assms(1,2), of gmt] payload_decoded [OF i monitor_timestamp_parse(2) [OF assms(4,5)], of dts]
    by (simp add: signal_request_def SendSignal_def Let_def) (simp add: sent_signal_def)
  have h: "rq_header ?r ''X-Signal-Timestamp'' = monitor_timestamp gmt"
    "rq_header ?r ''X-Signal-Signature'' = GenerateSignalHMAC (SignalHMACSecret cfg) (FormatInt (TicketID ?sg)) (SignalType ?sg)
       (Symbol ?sg) (monitor_timestamp gmt)"
    using ComputeHMAC_signs [OF refl assms(3)] by (simp_all add: signal_request_def SendSignal_def bare_request_def Let_def sent_signal_def)
  have "age_of now (gmt * Second) = \<bar>now - gmt * Second\<bar>" using assms(6,7) by (intro age_of_near) simp
  then have v: "VerifySignalHMACWithTTL now (SignalHMACSecret cfg) (FormatInt (TicketID ?sg)) (SignalType ?sg) (Symbol ?sg)
      (rq_header ?r ''X-Signal-Timestamp'') (rq_header ?r ''X-Signal-Signature'') (SignalTimestampTTL cfg) = Inr ()"
    unfolding Verify_iff h using monitor_timestamp_parse(1) [OF assms(4,5)] assms(6) by simp
  have n: "?sg\<lparr>Symbol := normalizeSymbol (Symbol ?sg)\<rparr> = ?sg"
    using monitor_symbol_normal(1) [of "sc_symbol c"] assms(2) by (simp add: sent_signal_def proper_call_def)
  show ?thesis unfolding admissible_def using b sent_valid [OF assms(1,2)] v n by metis
qed


definition demo_position :: Position where
  "demo_position = \<lparr>POSITION_TICKET = 7001, POSITION_SYMBOL = ''eurusd.m'', POSITION_BUY = True, POSITION_VOLUME = 1 / 2,
     POSITION_SL = 0, POSITION_TP = 5 / 4, POSITION_PRICE_OPEN = 9 / 8\<rparr>"


subsection \<open>The timestamp of the MT4 monitor\<close>

text \<open>\<open>mql4/monitor_ea.mq4\<close> builds the timestamp from \<open>TimeToString\<close>; the text is the same.\<close>

definition mt4_timestamp :: "int \<Rightarrow> string" where
  "mt4_timestamp t = StringReplace (StringReplace (TimeToString t) CHR ''.'' CHR ''-'') CHR '' '' CHR ''T'' @ ''Z''"

lemma mt4_timestamp_same: "mt4_timestamp t = monitor_timestamp t"
proof -
  have d: "\<not> is_digit CHR ''.''" "\<not> is_digit CHR '' ''" "is_digit CHR ''0''" by (simp_all add: is_digit_def)
  have "list_all is_digit (zero_text k n)" for k n
    using nat_text_digits [of n] d(3) by (auto simp: zero_text_def list_all_iff)
  then have "CHR ''.'' \<notin> set (zero_text k n)" "CHR '' '' \<notin> set (zero_text k n)" for k n
    using d(1,2) unfolding list_all_iff by blast+
  then have z: "StringReplace (zero_text k n) CHR ''.'' c = zero_text k n" "StringReplace (zero_text k n) CHR '' '' c = zero_text k n" for k n c
    by (simp_all add: StringReplace_none)
  have n: "StringReplace [] a b = []" for a b by (simp add: StringReplace_def)
  show ?thesis
    by (simp add: mt4_timestamp_def monitor_timestamp_def TimeToString_def time_fields_def Let_def StringReplace_append StringReplace_Cons z n
        split: prod.splits)
qed

end
