(* ===== verification/Tickets.thy ===== *)
theory Tickets
  imports Monitor
begin

text \<open>
  What the program on the source account, \<open>mql5/MT5Signal_Monitor.mq5\<close>, reports: at every tick of a
  timer it compares the open positions with the tickets it knows, posts a signal for every difference,
  and keeps the tickets in a file. One tick sees one state of the terminal, the record \<open>terminal\<close>. The
  lemmas say that a tick implements the comparison of two lists, that it settles, and what a restart
  keeps and loses.
\<close>

subsection \<open>The tickets it knows\<close>

record TicketState =
  kt_ticket :: int
  kt_lot :: rat
  kt_sl :: rat
  kt_tp :: rat

text \<open>The state of the program: its tickets, the signals sent so far, the cells of its CSV file.\<close>

record monitor =
  knownTickets :: "TicketState list"
  calls :: "SignalCall list"
  stateFile :: "string list option"

definition IsKnownTicket :: "int \<Rightarrow> monitor \<Rightarrow> bool" where
  "IsKnownTicket t m \<longleftrightarrow> list_ex (\<lambda>k. kt_ticket k = t) (knownTickets m)"

definition AddKnownTicket :: "int \<Rightarrow> rat \<Rightarrow> rat \<Rightarrow> rat \<Rightarrow> monitor \<Rightarrow> monitor" where
  "AddKnownTicket t lot sl tp m = m\<lparr>knownTickets := knownTickets m @ [\<lparr>kt_ticket = t, kt_lot = lot, kt_sl = sl, kt_tp = tp\<rparr>]\<rparr>"

definition RemoveKnownTicket :: "nat \<Rightarrow> monitor \<Rightarrow> monitor" where
  "RemoveKnownTicket i m = m\<lparr>knownTickets := take i (knownTickets m) @ drop (Suc i) (knownTickets m)\<rparr>"

definition send :: "SignalCall \<Rightarrow> monitor \<Rightarrow> monitor" where
  "send c m = m\<lparr>calls := calls m @ [c]\<rparr>"

definition state_row :: "(rat \<Rightarrow> nat \<Rightarrow> string) \<Rightarrow> TicketState \<Rightarrow> string list" where
  "state_row dts k = [IntegerToString (wrap64 (kt_ticket k)), dts (kt_lot k) 4, dts (kt_sl k) 8, dts (kt_tp k) 8]"

definition SaveStateToFile :: "(rat \<Rightarrow> nat \<Rightarrow> string) \<Rightarrow> terminal \<Rightarrow> monitor \<Rightarrow> monitor" where
  "SaveStateToFile dts T m = (if FileOpens T then m\<lparr>stateFile := Some (concat (map (state_row dts) (knownTickets m)))\<rparr> else m)"

function load_rows :: "terminal \<Rightarrow> string list \<Rightarrow> TicketState list" where
  "load_rows T cs = (if cs = [] \<or> hd cs = [] then [] else
     let t = StringToInteger (hd cs) mod 2 ^ 64;
       k = \<lparr>kt_ticket = t, kt_lot = StringToDouble (cell 1 cs), kt_sl = StringToDouble (cell 2 cs), kt_tp = StringToDouble (cell 3 cs)\<rparr>
     in (if list_ex (\<lambda>p. POSITION_TICKET p = t) (Positions T) then [k] else []) @ load_rows T (drop 4 cs))"
  by pat_completeness auto
termination
  by (relation "measure (\<lambda>(T, cs). length cs)") auto

declare load_rows.simps [simp del]

definition LoadStateFromFile :: "terminal \<Rightarrow> monitor \<Rightarrow> monitor" where
  "LoadStateFromFile T m = (case stateFile m of None \<Rightarrow> m
     | Some cs \<Rightarrow> if FileOpens T then m\<lparr>knownTickets := load_rows T cs\<rparr> else m)"

text \<open>The program starts with no tickets but those of the file.\<close>

definition OnInit :: "terminal \<Rightarrow> monitor \<Rightarrow> monitor" where
  "OnInit T m = LoadStateFromFile T (m\<lparr>knownTickets := []\<rparr>)"

subsection \<open>One tick of the timer\<close>

definition moved :: "rat \<Rightarrow> rat \<Rightarrow> bool" where
  "moved x y \<longleftrightarrow> \<bar>rnd (x - y)\<bar> > rnd (1 / 1000000)"

definition modified :: "Position \<Rightarrow> TicketState \<Rightarrow> bool" where
  "modified p k \<longleftrightarrow> moved (POSITION_SL p) (kt_sl k) \<or> moved (POSITION_TP p) (kt_tp k)"

definition reduced :: "Position \<Rightarrow> TicketState \<Rightarrow> bool" where
  "reduced p k \<longleftrightarrow> POSITION_VOLUME p < rnd (kt_lot k - rnd (1 / 1000))"

text \<open>The body of the first loop for a position that is still open, and for one that is not.\<close>

definition scan_open :: "(rat \<Rightarrow> nat \<Rightarrow> string) \<Rightarrow> terminal \<Rightarrow> nat \<Rightarrow> Position \<Rightarrow> monitor \<Rightarrow> monitor" where
  "scan_open dts T i p m =
     (let m = (if modified p (knownTickets m ! i)
        then SaveStateToFile dts T ((send (position_call ''MODIFY'' p) m)\<lparr>knownTickets :=
          (knownTickets m)[i := (knownTickets m ! i)\<lparr>kt_sl := POSITION_SL p, kt_tp := POSITION_TP p\<rparr>]\<rparr>)
        else m)
      in if reduced p (knownTickets m ! i)
        then SaveStateToFile dts T ((send (position_call ''PARTIAL'' p) m)\<lparr>knownTickets :=
          (knownTickets m)[i := (knownTickets m ! i)\<lparr>kt_lot := POSITION_VOLUME p\<rparr>]\<rparr>)
        else m)"

text \<open>
  The closing deal is the last one of the position that takes it out of the market. Without one
  the price stays \<open>0\<close> and nothing is sent.
\<close>

definition closing_deal :: "terminal \<Rightarrow> int \<Rightarrow> Deal option" where
  "closing_deal T t = find (\<lambda>d. DEAL_POSITION_ID d = wrap64 t
     \<and> (DEAL_ENTRY d = DEAL_ENTRY_OUT \<or> DEAL_ENTRY d = DEAL_ENTRY_INOUT)) (rev (Deals T))"

definition close_call :: "terminal \<Rightarrow> int \<Rightarrow> SignalCall list" where
  "close_call T t = (case closing_deal T t of None \<Rightarrow> [] | Some d \<Rightarrow>
     if DEAL_PRICE d > 0 then [\<lparr>sc_ticket = t, sc_type = ''CLOSE'', sc_symbol = DEAL_SYMBOL d,
       sc_direction = direction_text (DEAL_BUY d), sc_price = DEAL_PRICE d, sc_sl = 0, sc_tp = 0, sc_lot = DEAL_VOLUME d\<rparr>]
     else [])"

definition scan_gone :: "(rat \<Rightarrow> nat \<Rightarrow> string) \<Rightarrow> terminal \<Rightarrow> nat \<Rightarrow> monitor \<Rightarrow> monitor" where
  "scan_gone dts T i m = SaveStateToFile dts T
     (RemoveKnownTicket i (m\<lparr>calls := calls m @ close_call T (kt_ticket (knownTickets m ! i))\<rparr>))"

definition position_of :: "terminal \<Rightarrow> int \<Rightarrow> Position option" where
  "position_of T t = find (\<lambda>p. POSITION_TICKET p = t) (rev (Positions T))"

fun scan_known :: "(rat \<Rightarrow> nat \<Rightarrow> string) \<Rightarrow> terminal \<Rightarrow> nat \<Rightarrow> monitor \<Rightarrow> monitor" where
  "scan_known dts T 0 m = m"
| "scan_known dts T (Suc i) m = scan_known dts T i
     (case position_of T (kt_ticket (knownTickets m ! i)) of
        Some p \<Rightarrow> scan_open dts T i p m
      | None \<Rightarrow> scan_gone dts T i m)"

fun scan_new :: "(rat \<Rightarrow> nat \<Rightarrow> string) \<Rightarrow> terminal \<Rightarrow> Position list \<Rightarrow> monitor \<Rightarrow> monitor" where
  "scan_new dts T [] m = m"
| "scan_new dts T (p # ps) m = scan_new dts T ps
     (if POSITION_TICKET p = 0 then m
      else if \<not> IsKnownTicket (POSITION_TICKET p) m
      then SaveStateToFile dts T (send (position_call ''OPEN'' p)
        (AddKnownTicket (POSITION_TICKET p) (POSITION_VOLUME p) (POSITION_SL p) (POSITION_TP p) m))
      else m)"

definition ScanTrades :: "(rat \<Rightarrow> nat \<Rightarrow> string) \<Rightarrow> terminal \<Rightarrow> monitor \<Rightarrow> monitor" where
  "ScanTrades dts T m = scan_new dts T (rev (Positions T)) (scan_known dts T (length (knownTickets m)) m)"

subsection \<open>What a tick reports\<close>

text \<open>The abstract tick: what becomes of one known ticket, what is sent for it, and the new positions.\<close>

definition refreshed :: "Position \<Rightarrow> TicketState \<Rightarrow> TicketState" where
  "refreshed p k = (let k = (if modified p k then k\<lparr>kt_sl := POSITION_SL p, kt_tp := POSITION_TP p\<rparr> else k) in
     if reduced p k then k\<lparr>kt_lot := POSITION_VOLUME p\<rparr> else k)"

definition known_after :: "terminal \<Rightarrow> TicketState \<Rightarrow> TicketState option" where
  "known_after T k = map_option (\<lambda>p. refreshed p k) (position_of T (kt_ticket k))"

definition reported :: "terminal \<Rightarrow> TicketState \<Rightarrow> SignalCall list" where
  "reported T k = (case position_of T (kt_ticket k) of
     None \<Rightarrow> close_call T (kt_ticket k)
   | Some p \<Rightarrow> (if modified p k then [position_call ''MODIFY'' p] else []) @ (if reduced p k then [position_call ''PARTIAL'' p] else []))"

definition new_positions :: "terminal \<Rightarrow> TicketState list \<Rightarrow> Position list" where
  "new_positions T ks = filter (\<lambda>p. POSITION_TICKET p \<notin> kt_ticket ` set ks) (rev (Positions T))"

definition opened :: "Position \<Rightarrow> TicketState" where
  "opened p = \<lparr>kt_ticket = POSITION_TICKET p, kt_lot = POSITION_VOLUME p, kt_sl = POSITION_SL p, kt_tp = POSITION_TP p\<rparr>"

lemma save_simps [simp]:
  "knownTickets (SaveStateToFile dts T m) = knownTickets m" "calls (SaveStateToFile dts T m) = calls m"
  "knownTickets (send c m) = knownTickets m" "calls (send c m) = calls m @ [c]"
  by (simp_all add: SaveStateToFile_def send_def)

lemma reduced_stops [simp]: "reduced p (k\<lparr>kt_sl := x, kt_tp := y\<rparr>) = reduced p k"
  by (simp add: reduced_def)

lemma scan_open_effect:
  assumes "i < length (knownTickets m)"
  shows "knownTickets (scan_open dts T i p m) = (knownTickets m)[i := refreshed p (knownTickets m ! i)]"
    and "calls (scan_open dts T i p m) = calls m @ (if modified p (knownTickets m ! i) then [position_call ''MODIFY'' p] else [])
      @ (if reduced p (knownTickets m ! i) then [position_call ''PARTIAL'' p] else [])"
  using assms by (simp_all add: scan_open_def refreshed_def Let_def)

lemma scan_gone_effect:
  "knownTickets (scan_gone dts T i m) = take i (knownTickets m) @ drop (Suc i) (knownTickets m)"
  "calls (scan_gone dts T i m) = calls m @ close_call T (kt_ticket (knownTickets m ! i))"
  by (simp_all add: scan_gone_def RemoveKnownTicket_def)

lemma map_filter_snoc: "List.map_filter f (xs @ [x]) = List.map_filter f xs @ (case f x of None \<Rightarrow> [] | Some y \<Rightarrow> [y])"
  by (simp add: List.map_filter_def split: option.splits)

lemma scan_known_effect:
  assumes "n \<le> length (knownTickets m)"
  shows "knownTickets (scan_known dts T n m) = List.map_filter (known_after T) (take n (knownTickets m)) @ drop n (knownTickets m)
    \<and> calls (scan_known dts T n m) = calls m @ concat (map (reported T) (rev (take n (knownTickets m))))"
  using assms
proof (induction n arbitrary: m)
  case 0
  then show ?case by (simp add: List.map_filter_def)
next
  case (Suc n)
  let ?k = "knownTickets m ! n"
  have t: "take (Suc n) (knownTickets m) = take n (knownTickets m) @ [?k]" using Suc.prems by (simp add: take_Suc_conv_app_nth)
  show ?case
  proof (cases "position_of T (kt_ticket ?k)")
    case None
    let ?m = "scan_gone dts T n m"
    have "n \<le> length (knownTickets ?m)" using Suc.prems by (simp add: scan_gone_effect)
    from Suc.IH [OF this] None Suc.prems show ?thesis
      by (simp add: t scan_gone_effect map_filter_snoc known_after_def reported_def)
  next
    case (Some p)
    let ?m = "scan_open dts T n p m"
    have n: "n < length (knownTickets m)" using Suc.prems by simp
    then have "n \<le> length (knownTickets ?m)" by (simp add: scan_open_effect)
    from Suc.IH [OF this] Some n show ?thesis
      by (simp add: t scan_open_effect map_filter_snoc known_after_def reported_def drop_update_cancel Cons_nth_drop_Suc [symmetric])
  qed
qed

lemma scan_new_effect:
  assumes "distinct (map POSITION_TICKET ps)" and "0 \<notin> POSITION_TICKET ` set ps"
  shows "knownTickets (scan_new dts T ps m) = knownTickets m @ map opened (filter (\<lambda>p. POSITION_TICKET p \<notin> kt_ticket ` set (knownTickets m)) ps)
    \<and> calls (scan_new dts T ps m) = calls m @ map (position_call ''OPEN'') (filter (\<lambda>p. POSITION_TICKET p \<notin> kt_ticket ` set (knownTickets m)) ps)"
  using assms
proof (induction ps arbitrary: m)
  case (Cons p ps)
  let ?new = "SaveStateToFile dts T (send (position_call ''OPEN'' p)
        (AddKnownTicket (POSITION_TICKET p) (POSITION_VOLUME p) (POSITION_SL p) (POSITION_TP p) m))"
  have k: "IsKnownTicket (POSITION_TICKET p) m \<longleftrightarrow> POSITION_TICKET p \<in> kt_ticket ` set (knownTickets m)"
    unfolding IsKnownTicket_def list_ex_iff image_iff by metis
  have a: "knownTickets ?new = knownTickets m @ [opened p]" "calls ?new = calls m @ [position_call ''OPEN'' p]"
    by (simp_all add: AddKnownTicket_def opened_def)
  have o: "filter (\<lambda>q. POSITION_TICKET q \<notin> kt_ticket ` set (knownTickets m @ [opened p])) ps
      = filter (\<lambda>q. POSITION_TICKET q \<notin> kt_ticket ` set (knownTickets m)) ps"
  proof (rule filter_cong [OF refl])
    fix q assume "q \<in> set ps"
    then have "POSITION_TICKET q \<in> set (map POSITION_TICKET ps)" by simp
    then have "POSITION_TICKET q \<noteq> POSITION_TICKET p" using Cons.prems(1) by (metis distinct.simps(2) list.map(2))
    then show "POSITION_TICKET q \<notin> kt_ticket ` set (knownTickets m @ [opened p]) \<longleftrightarrow> POSITION_TICKET q \<notin> kt_ticket ` set (knownTickets m)"
      by (simp add: opened_def)
  qed
  have d: "distinct (map POSITION_TICKET ps)" "0 \<notin> POSITION_TICKET ` set ps" "POSITION_TICKET p \<noteq> 0" using Cons.prems by auto
  show ?case
  proof (cases "POSITION_TICKET p \<in> kt_ticket ` set (knownTickets m)")
    case True
    then show ?thesis using Cons.IH [OF d(1,2), of m] d(3) k by simp
  next
    case False
    then show ?thesis using Cons.IH [OF d(1,2), of ?new] d(3) k unfolding a o by simp
  qed
qed simp

lemma position_of_Some: "position_of T t = Some p \<Longrightarrow> p \<in> set (Positions T) \<and> POSITION_TICKET p = t"
  unfolding position_of_def find_Some_iff by (metis nth_mem set_rev)

lemma position_of_None: "position_of T t = None \<longleftrightarrow> t \<notin> POSITION_TICKET ` set (Positions T)"
  by (auto simp: position_of_def find_None_iff)

lemma position_of_member:
  assumes "distinct (map POSITION_TICKET (Positions T))" and "p \<in> set (Positions T)"
  shows "position_of T (POSITION_TICKET p) = Some p"
proof (cases "position_of T (POSITION_TICKET p)")
  case None
  then show ?thesis using assms(2) unfolding position_of_None by blast
next
  case (Some q)
  then have "q \<in> set (Positions T)" "POSITION_TICKET q = POSITION_TICKET p" using position_of_Some by blast+
  then have "q = p" using assms by (auto simp: distinct_map inj_on_def)
  with Some show ?thesis by simp
qed

lemma refreshed_ticket [simp]: "kt_ticket (refreshed p k) = kt_ticket k"
  by (simp add: refreshed_def Let_def)

lemma map_filter_tickets:
  "map kt_ticket (List.map_filter (known_after T) ks) = filter (\<lambda>t. t \<in> POSITION_TICKET ` set (Positions T)) (map kt_ticket ks)"
proof (induction ks)
  case (Cons k ks)
  show ?case
  proof (cases "position_of T (kt_ticket k)")
    case None
    then have "kt_ticket k \<notin> POSITION_TICKET ` set (Positions T)" unfolding position_of_None .
    then show ?thesis using Cons None by (simp add: known_after_def)
  next
    case (Some p)
    then have "kt_ticket k \<in> POSITION_TICKET ` set (Positions T)" using position_of_Some by force
    then show ?thesis using Cons Some by (simp add: known_after_def)
  qed
qed (simp add: List.map_filter_def)

text \<open>The tick implements the abstract one.\<close>

lemma ScanTrades_effect:
  assumes "distinct (map POSITION_TICKET (Positions T))" and "0 \<notin> POSITION_TICKET ` set (Positions T)"
  shows "knownTickets (ScanTrades dts T m) = List.map_filter (known_after T) (knownTickets m) @ map opened (new_positions T (knownTickets m))"
    and "calls (ScanTrades dts T m) = calls m @ concat (map (reported T) (rev (knownTickets m)))
      @ map (position_call ''OPEN'') (new_positions T (knownTickets m))"
proof -
  let ?m = "scan_known dts T (length (knownTickets m)) m"
  have e: "knownTickets ?m = List.map_filter (known_after T) (knownTickets m)"
    "calls ?m = calls m @ concat (map (reported T) (rev (knownTickets m)))"
    using scan_known_effect [of "length (knownTickets m)" m dts T] by simp_all
  have "kt_ticket ` set (knownTickets ?m) = kt_ticket ` set (knownTickets m) \<inter> POSITION_TICKET ` set (Positions T)"
    using arg_cong [OF map_filter_tickets [of T "knownTickets m"], of set] unfolding e by auto
  then have "filter (\<lambda>p. POSITION_TICKET p \<notin> kt_ticket ` set (knownTickets ?m)) (rev (Positions T)) = new_positions T (knownTickets m)"
    unfolding new_positions_def by (intro filter_cong) auto
  with scan_new_effect [of "rev (Positions T)" dts T ?m] assms e
  show "knownTickets (ScanTrades dts T m) = List.map_filter (known_after T) (knownTickets m) @ map opened (new_positions T (knownTickets m))"
    "calls (ScanTrades dts T m) = calls m @ concat (map (reported T) (rev (knownTickets m)))
      @ map (position_call ''OPEN'') (new_positions T (knownTickets m))"
    by (simp_all add: ScanTrades_def rev_map [symmetric])
qed

lemma not_moved_self: "\<not> moved x x"
  using rnd_nonneg [of "1 / 1000000"] by (simp add: moved_def)

lemma not_reduced_self: "is_double (POSITION_VOLUME p) \<Longrightarrow> kt_lot k = POSITION_VOLUME p \<Longrightarrow> \<not> reduced p k"
  using rnd_le [of "POSITION_VOLUME p - rnd (1 / 1000)" "POSITION_VOLUME p"] rnd_nonneg [of "1 / 1000"] by (simp add: reduced_def)

lemma reduced_lot: "reduced p k = (POSITION_VOLUME p < rnd (kt_lot k - rnd (1 / 1000)))"
  by (rule reduced_def)

lemma refreshed_settled:
  assumes "is_double (POSITION_VOLUME p)"
  shows "\<not> modified p (refreshed p k) \<and> \<not> reduced p (refreshed p k)"
proof (cases "reduced p k")
  case True
  then have "kt_lot (refreshed p k) = POSITION_VOLUME p" by (simp add: refreshed_def Let_def)
  then have "\<not> reduced p (refreshed p k)" using not_reduced_self [OF assms] by blast
  moreover have "\<not> modified p (refreshed p k)" by (auto simp: refreshed_def modified_def not_moved_self Let_def)
  ultimately show ?thesis by blast
next
  case False
  then have "kt_lot (refreshed p k) = kt_lot k" by (simp add: refreshed_def Let_def)
  then have "\<not> reduced p (refreshed p k)" using False by (simp add: reduced_def)
  moreover have "\<not> modified p (refreshed p k)" by (auto simp: refreshed_def modified_def not_moved_self Let_def)
  ultimately show ?thesis by blast
qed

text \<open>A program whose tickets agree with the positions has nothing to report.\<close>

definition settled :: "terminal \<Rightarrow> TicketState list \<Rightarrow> bool" where
  "settled T ks \<longleftrightarrow> kt_ticket ` set ks = POSITION_TICKET ` set (Positions T)
     \<and> (\<forall>k \<in> set ks. \<forall>p. position_of T (kt_ticket k) = Some p \<longrightarrow> \<not> modified p k \<and> \<not> reduced p k)"

lemma settled_quiet:
  assumes "settled T (knownTickets m)" and "distinct (map POSITION_TICKET (Positions T))" and "0 \<notin> POSITION_TICKET ` set (Positions T)"
  shows "calls (ScanTrades dts T m) = calls m" and "map kt_ticket (knownTickets (ScanTrades dts T m)) = map kt_ticket (knownTickets m)"
proof -
  have s: "kt_ticket ` set (knownTickets m) = POSITION_TICKET ` set (Positions T)" using assms(1) by (simp add: settled_def)
  then have n: "new_positions T (knownTickets m) = []" by (auto simp: new_positions_def)
  have "reported T k = []" if k: "k \<in> set (knownTickets m)" for k
  proof (cases "position_of T (kt_ticket k)")
    case None
    then have "kt_ticket k \<notin> POSITION_TICKET ` set (Positions T)" unfolding position_of_None .
    with s k show ?thesis by blast
  next
    case (Some p)
    then show ?thesis using assms(1) k by (simp add: settled_def reported_def)
  qed
  then show "calls (ScanTrades dts T m) = calls m" by (simp add: ScanTrades_effect [OF assms(2,3)] n)
  have "filter (\<lambda>t. t \<in> POSITION_TICKET ` set (Positions T)) (map kt_ticket (knownTickets m)) = map kt_ticket (knownTickets m)"
    unfolding s [symmetric] by (rule filter_True) simp
  then show "map kt_ticket (knownTickets (ScanTrades dts T m)) = map kt_ticket (knownTickets m)"
    by (simp add: ScanTrades_effect [OF assms(2,3)] n map_filter_tickets)
qed

lemma in_map_filter: "x \<in> set (List.map_filter f xs) \<longleftrightarrow> (\<exists>y \<in> set xs. f y = Some x)"
  by (force simp: List.map_filter_def)

lemma scan_settles:
  assumes "distinct (map POSITION_TICKET (Positions T))" and "0 \<notin> POSITION_TICKET ` set (Positions T)"
    and "\<And>p. p \<in> set (Positions T) \<Longrightarrow> is_double (POSITION_VOLUME p)"
  shows "settled T (knownTickets (ScanTrades dts T m))"
  unfolding settled_def
proof (intro conjI ballI allI impI)
  let ?K = "knownTickets m" and ?P = "POSITION_TICKET ` set (Positions T)"
  have a: "kt_ticket ` set (List.map_filter (known_after T) ?K) = kt_ticket ` set ?K \<inter> ?P"
    using arg_cong [OF map_filter_tickets [of T ?K], of set] by auto
  have b: "kt_ticket ` set (map opened (new_positions T ?K)) = ?P - kt_ticket ` set ?K"
    by (auto simp: new_positions_def opened_def image_image)
  show "kt_ticket ` set (knownTickets (ScanTrades dts T m)) = ?P"
    unfolding ScanTrades_effect [OF assms(1,2)] set_append image_Un a b by blast
next
  fix k p assume k: "k \<in> set (knownTickets (ScanTrades dts T m))" and p: "position_of T (kt_ticket k) = Some p"
  have d: "is_double (POSITION_VOLUME p)" using assms(3) position_of_Some [OF p] by blast
  from k consider (old) k0 where "known_after T k0 = Some k" | (new) q where "q \<in> set (Positions T)" "k = opened q"
    unfolding ScanTrades_effect [OF assms(1,2)] by (auto simp: in_map_filter new_positions_def)
  then have "\<not> modified p k \<and> \<not> reduced p k"
  proof cases
    case old
    then obtain q where q: "position_of T (kt_ticket k0) = Some q" "k = refreshed q k0" by (auto simp: known_after_def)
    then have "q = p" using p by simp
    then show ?thesis using refreshed_settled [OF d] q(2) by blast
  next
    case new
    then have "q = p" using p position_of_member [OF assms(1) new(1)] by (simp add: opened_def)
    then show ?thesis using new(2) not_reduced_self [OF d] not_moved_self by (simp add: opened_def modified_def)
  qed
  then show "\<not> modified p k" "\<not> reduced p k" by blast+
qed

text \<open>
  C13: A tick of the monitor reports the differences between the tickets it knows and the open
  positions, each once: a MODIFY and a PARTIAL of every known ticket whose stops moved or whose volume
  shrank, a CLOSE of every known ticket that is gone and has a closing deal, an OPEN of every position
  it does not know. Afterwards it knows exactly the open positions, and a second tick over the same
  positions reports nothing.
\<close>

theorem scan_reports:
  assumes "distinct (map POSITION_TICKET (Positions T))" and "0 \<notin> POSITION_TICKET ` set (Positions T)"
    and "\<And>p. p \<in> set (Positions T) \<Longrightarrow> is_double (POSITION_VOLUME p)"
  shows "calls (ScanTrades dts T m) = calls m @ concat (map (reported T) (rev (knownTickets m)))
      @ map (position_call ''OPEN'') (filter (\<lambda>p. POSITION_TICKET p \<notin> kt_ticket ` set (knownTickets m)) (rev (Positions T)))
    \<and> kt_ticket ` set (knownTickets (ScanTrades dts T m)) = POSITION_TICKET ` set (Positions T)
    \<and> (distinct (map kt_ticket (knownTickets m)) \<longrightarrow> distinct (map kt_ticket (knownTickets (ScanTrades dts T m))))
    \<and> calls (ScanTrades dts T (ScanTrades dts T m)) = calls (ScanTrades dts T m)"
proof -
  let ?K = "knownTickets m" and ?N = "new_positions T (knownTickets m)"
  note s = scan_settles [OF assms, of dts m]
  have "distinct (map kt_ticket (knownTickets (ScanTrades dts T m)))" if d: "distinct (map kt_ticket ?K)"
  proof -
    have n: "map kt_ticket (map opened ?N) = map POSITION_TICKET ?N" by (simp add: opened_def)
    have "distinct (map POSITION_TICKET ?N)"
      using assms(1) unfolding new_positions_def by (intro distinct_map_filter) (simp add: rev_map [symmetric])
    moreover have "set (map POSITION_TICKET ?N) \<inter> kt_ticket ` set ?K = {}" by (auto simp: new_positions_def)
    ultimately show ?thesis
      using d by (auto simp: ScanTrades_effect [OF assms(1,2)] map_append map_filter_tickets n simp del: map_map)
  qed
  with s settled_quiet(1) [OF s assms(1,2), of dts] show ?thesis
    by (auto simp: ScanTrades_effect(2) [OF assms(1,2), of dts m] new_positions_def settled_def)
qed

definition demo_terminal :: "rat \<Rightarrow> terminal" where
  "demo_terminal sl = \<lparr>Positions = [demo_position\<lparr>POSITION_SL := sl\<rparr>], Deals = [], TimeGMT = 1767225600, FileOpens = True\<rparr>"

definition fresh_monitor :: monitor where
  "fresh_monitor = \<lparr>knownTickets = [], calls = [], stateFile = None\<rparr>"

lemma demo_terminal_ok:
  "distinct (map POSITION_TICKET (Positions (demo_terminal sl)))" "0 \<notin> POSITION_TICKET ` set (Positions (demo_terminal sl))"
  "p \<in> set (Positions (demo_terminal sl)) \<Longrightarrow> is_double (POSITION_VOLUME p)"
proof -
  have "rnd (1 / 2) = 1 / 2" by code_simp
  then show "distinct (map POSITION_TICKET (Positions (demo_terminal sl)))" "0 \<notin> POSITION_TICKET ` set (Positions (demo_terminal sl))"
    "p \<in> set (Positions (demo_terminal sl)) \<Longrightarrow> is_double (POSITION_VOLUME p)"
    by (auto simp: demo_terminal_def demo_position_def is_double_def)
qed

theorem scan_reports_witness:
  "map (\<lambda>c. (sc_ticket c, sc_type c)) (calls (ScanTrades decimal_nearest (demo_terminal 1) (ScanTrades decimal_nearest (demo_terminal 0) fresh_monitor)))
     = [(7001, ''OPEN''), (7001, ''MODIFY'')]"
proof -
  let ?m = "ScanTrades decimal_nearest (demo_terminal 0) fresh_monitor"
  have p: "Positions (demo_terminal sl) = [demo_position\<lparr>POSITION_SL := sl\<rparr>]" for sl by (simp add: demo_terminal_def)
  have d: "POSITION_TICKET demo_position = 7001" "POSITION_TP demo_position = 5 / 4" "POSITION_VOLUME demo_position = 1 / 2"
    by (simp_all add: demo_position_def)
  have 1: "map (\<lambda>c. (sc_ticket c, sc_type c)) (calls ?m) = [(7001, ''OPEN'')]"
    using scan_reports [where T = "demo_terminal 0" and dts = decimal_nearest and m = fresh_monitor, OF demo_terminal_ok]
    by (simp add: p d fresh_monitor_def position_call_def)
  have k: "knownTickets ?m = [opened (demo_position\<lparr>POSITION_SL := 0\<rparr>)]"
    using ScanTrades_effect(1) [where T = "demo_terminal 0" and dts = decimal_nearest and m = fresh_monitor, OF demo_terminal_ok(1,2)]
    by (simp add: p d fresh_monitor_def new_positions_def List.map_filter_def)
  have r: "rnd 1 = 1" "rnd (1 / 2) = 1 / 2" by code_simp+
  have "rnd (1 / 1000000) \<le> rnd (1 / 2)" by (rule rnd_mono) simp
  then have "moved 1 0" using r by (simp add: moved_def)
  moreover have "\<not> reduced (demo_position\<lparr>POSITION_SL := 1\<rparr>) (opened (demo_position\<lparr>POSITION_SL := 0\<rparr>))"
    by (rule not_reduced_self) (simp_all add: is_double_def d r opened_def)
  ultimately have "reported (demo_terminal 1) (opened (demo_position\<lparr>POSITION_SL := 0\<rparr>)) = [position_call ''MODIFY'' (demo_position\<lparr>POSITION_SL := 1\<rparr>)]"
    by (simp add: reported_def position_of_def p d modified_def) (simp add: opened_def d)
  then show ?thesis
    using scan_reports [where T = "demo_terminal 1" and dts = decimal_nearest and m = ?m, OF demo_terminal_ok] 1 k by (simp add: p d opened_def position_call_def)
qed

subsection \<open>A restart\<close>

text \<open>What the file keeps of a ticket.\<close>

definition reread :: "(rat \<Rightarrow> nat \<Rightarrow> string) \<Rightarrow> TicketState \<Rightarrow> TicketState" where
  "reread dts k = k\<lparr>kt_lot := printed dts (kt_lot k) 4, kt_sl := printed dts (kt_sl k) 8, kt_tp := printed dts (kt_tp k) 8\<rparr>"

definition is_ulong :: "int \<Rightarrow> bool" where
  "is_ulong t \<longleftrightarrow> 0 \<le> t \<and> t < 2 ^ 64"

lemma wrap64_mod: "wrap64 x mod 2 ^ 64 = x mod 2 ^ 64"
proof -
  have "wrap64 x mod 2 ^ 64 = (x + 2 ^ 63 - 2 ^ 63) mod 2 ^ 64"
    unfolding wrap64_def by (rule mod_diff_left_eq)
  then show ?thesis by simp
qed

lemma FormatInt_neq_Nil [simp]: "FormatInt n \<noteq> []"
  by (simp add: FormatInt_def)

lemma load_rows_row:
  assumes "is_ulong (kt_ticket k)"
  shows "load_rows T (state_row dts k @ cs) = (if kt_ticket k \<in> POSITION_TICKET ` set (Positions T) then [reread dts k] else []) @ load_rows T cs"
proof -
  have t: "StringToInteger (FormatInt (wrap64 (kt_ticket k))) mod 2 ^ 64 = kt_ticket k"
    using assms wrap64_mod [of "kt_ticket k"] by (simp add: StringToInteger_FormatInt is_ulong_def)
  have o: "list_ex (\<lambda>p. POSITION_TICKET p = kt_ticket k) (Positions T) \<longleftrightarrow> kt_ticket k \<in> POSITION_TICKET ` set (Positions T)"
    unfolding list_ex_iff image_iff by metis
  show ?thesis
    by (subst load_rows.simps) (simp only: t Let_def state_row_def list.sel append.simps, simp add: t o cell_def reread_def printed_def)
qed

lemma load_rows_state:
  assumes "\<And>k. k \<in> set ks \<Longrightarrow> is_ulong (kt_ticket k)"
  shows "load_rows T (concat (map (state_row dts) ks)) = map (reread dts) (filter (\<lambda>k. kt_ticket k \<in> POSITION_TICKET ` set (Positions T)) ks)"
  using assms by (induction ks) (simp_all add: load_rows_row, subst load_rows.simps, simp)

lemma OnInit_effect:
  assumes "FileOpens T" and "stateFile m = Some (concat (map (state_row dts) (knownTickets m)))"
    and "\<And>k. k \<in> set (knownTickets m) \<Longrightarrow> is_ulong (kt_ticket k)"
  shows "knownTickets (OnInit T m) = map (reread dts) (filter (\<lambda>k. kt_ticket k \<in> POSITION_TICKET ` set (Positions T)) (knownTickets m))"
    and "calls (OnInit T m) = calls m"
  using assms load_rows_state [OF assms(3)] by (simp_all add: OnInit_def LoadStateFromFile_def)

text \<open>Printing and reading moves a number of at most a billion by less than the tolerances.\<close>

context mql_numbers
begin

lemma printed_near:
  assumes "0 \<le> v" and "v \<le> 10 ^ 9"
  shows "\<bar>printed DoubleToString v d - v\<bar> \<le> 1 / (2 * 10 ^ d) + 1 / 4000000"
proof -
  obtain n where n: "\<bar>of_int n / 10 ^ d - v\<bar> \<le> 1 / (2 * 10 ^ d)" "printed DoubleToString v d = rnd (of_int n / 10 ^ d)" "0 \<le> n"
    using decimal_of [OF assms(1)] by metis
  have h: "1 / (2 * 10 ^ d) \<le> (1 / 2 :: rat)" by simp
  let ?x = "of_int n / 10 ^ d :: rat"
  have "?x \<le> v + 1 / 2" using n(1) h unfolding abs_le_iff by linarith
  then have x: "0 \<le> ?x" "?x \<le> 10 ^ 9 + 1" using n(3) assms(2) by simp_all
  have "\<bar>rnd ?x - ?x\<bar> \<le> \<bar>?x\<bar> / 2 ^ 53" by (rule rnd_near)
  also have "\<bar>?x\<bar> = ?x" using x(1) by (rule abs_of_nonneg)
  also have "?x / 2 ^ 53 \<le> (10 ^ 9 + 1) / 2 ^ 53" using x(2) by (rule divide_right_mono) simp
  also have "(10 ^ 9 + 1) / 2 ^ 53 \<le> (1 / 4000000 :: rat)" by simp
  finally show ?thesis using n(1,2) by linarith
qed

end

lemma not_moved_near:
  assumes "\<bar>x - y\<bar> \<le> 1 / 1000000"
  shows "\<not> moved x y"
proof -
  have "rnd (x - y) \<le> rnd (1 / 1000000)" "rnd (- (1 / 1000000)) \<le> rnd (x - y)"
    by (rule rnd_mono; use assms in \<open>unfold abs_le_iff, linarith\<close>)+
  then show ?thesis by (simp add: moved_def abs_le_iff not_less)
qed

lemma not_reduced_near:
  assumes "is_double (POSITION_VOLUME p)" and "kt_lot k \<le> POSITION_VOLUME p + 1 / 2000"
  shows "\<not> reduced p k"
proof -
  have "\<bar>1 / 1000\<bar> / 2 ^ 53 \<le> (1 / 2000 :: rat)" by simp
  then have "1 / 2000 \<le> rnd (1 / 1000)" using rnd_near [of "1 / 1000"] unfolding abs_le_iff by linarith
  then have "rnd (kt_lot k - rnd (1 / 1000)) \<le> POSITION_VOLUME p" using assms by (intro rnd_le) simp_all
  then show ?thesis by (simp add: reduced_def not_less)
qed

text \<open>The terminal shows what the program has recorded, in numbers of a reasonable size.\<close>

definition recorded :: "terminal \<Rightarrow> TicketState list \<Rightarrow> bool" where
  "recorded T ks \<longleftrightarrow> kt_ticket ` set ks = POSITION_TICKET ` set (Positions T)
     \<and> (\<forall>k \<in> set ks. is_ulong (kt_ticket k) \<and> (\<exists>p. position_of T (kt_ticket k) = Some p \<and> k = opened p \<and> is_double (POSITION_VOLUME p)
       \<and> 0 \<le> kt_lot k \<and> kt_lot k \<le> 10 ^ 9 \<and> 0 \<le> kt_sl k \<and> kt_sl k \<le> 10 ^ 9 \<and> 0 \<le> kt_tp k \<and> kt_tp k \<le> 10 ^ 9))"

lemma reread_settled:
  assumes "mql_numbers dts" and "recorded T ks"
  shows "settled T (map (reread dts) ks)"
  unfolding settled_def
proof (intro conjI ballI allI impI)
  show "kt_ticket ` set (map (reread dts) ks) = POSITION_TICKET ` set (Positions T)"
    using assms(2) by (simp add: recorded_def image_image reread_def)
next
  fix k p assume k: "k \<in> set (map (reread dts) ks)" and p: "position_of T (kt_ticket k) = Some p"
  then obtain k0 where k0: "k0 \<in> set ks" "k = reread dts k0" by auto
  then obtain q where q: "position_of T (kt_ticket k0) = Some q" "k0 = opened q" "is_double (POSITION_VOLUME q)"
    and b: "0 \<le> kt_lot k0" "kt_lot k0 \<le> 10 ^ 9" "0 \<le> kt_sl k0" "kt_sl k0 \<le> 10 ^ 9" "0 \<le> kt_tp k0" "kt_tp k0 \<le> 10 ^ 9"
    using assms(2) unfolding recorded_def by blast
  have "q = p" using p q(1) unfolding k0(2) reread_def by simp
  note near = mql_numbers.printed_near [OF assms(1)]
  have n: "\<bar>kt_lot k - kt_lot k0\<bar> \<le> 1 / 2000" "\<bar>kt_sl k0 - kt_sl k\<bar> \<le> 1 / 1000000" "\<bar>kt_tp k0 - kt_tp k\<bar> \<le> 1 / 1000000"
    using near [OF b(1,2), of 4] near [OF b(3,4), of 8] near [OF b(5,6), of 8] unfolding k0(2) reread_def
    by (simp_all add: abs_minus_commute)
  have s: "kt_lot k0 = POSITION_VOLUME p" "kt_sl k0 = POSITION_SL p" "kt_tp k0 = POSITION_TP p"
    using q(2) \<open>q = p\<close> by (simp_all add: opened_def)
  show "\<not> modified p k" unfolding modified_def using not_moved_near n(2,3) unfolding s by blast
  show "\<not> reduced p k" 
    by (rule not_reduced_near) (use q(3) \<open>q = p\<close> n(1) in \<open>simp, unfold s abs_le_iff, linarith\<close>)
qed

text \<open>
  C26: The state file survives a restart without firing a signal again: if the file holds the known
  tickets and these show what the terminal shows (ordinary prices and volumes, below a billion), the
  restarted program knows the same tickets in the same order, and its first tick sends nothing: what
  printing to four and eight places loses stays below the tolerances of the comparison.
\<close>

theorem restart_is_quiet:
  assumes "mql_numbers dts" and "FileOpens T" and "stateFile m = Some (concat (map (state_row dts) (knownTickets m)))"
    and "recorded T (knownTickets m)" and "distinct (map POSITION_TICKET (Positions T))" and "0 \<notin> POSITION_TICKET ` set (Positions T)"
  shows "map kt_ticket (knownTickets (OnInit T m)) = map kt_ticket (knownTickets m)
    \<and> calls (ScanTrades dts T (OnInit T m)) = calls m
    \<and> map kt_ticket (knownTickets (ScanTrades dts T (OnInit T m))) = map kt_ticket (knownTickets m)"
proof -
  have u: "\<And>k. k \<in> set (knownTickets m) \<Longrightarrow> is_ulong (kt_ticket k)"
    and t: "kt_ticket ` set (knownTickets m) = POSITION_TICKET ` set (Positions T)"
    using assms(4) unfolding recorded_def by blast+
  have "filter (\<lambda>k. kt_ticket k \<in> POSITION_TICKET ` set (Positions T)) (knownTickets m) = knownTickets m"
    unfolding t [symmetric] by (rule filter_True) simp
  then have k: "knownTickets (OnInit T m) = map (reread dts) (knownTickets m)"
    using OnInit_effect(1) [OF assms(2,3) u] by simp
  have "settled T (knownTickets (OnInit T m))" unfolding k by (rule reread_settled [OF assms(1,4)])
  from settled_quiet [OF this assms(5,6), of dts] OnInit_effect(2) [OF assms(2,3) u] show ?thesis
    by (simp add: k reread_def comp_def)
qed

theorem restart_is_quiet_witness:
  "calls (ScanTrades decimal_nearest (demo_terminal 0) (OnInit (demo_terminal 0) (ScanTrades decimal_nearest (demo_terminal 0) fresh_monitor)))
     = calls (ScanTrades decimal_nearest (demo_terminal 0) fresh_monitor)"
proof -
  let ?T = "demo_terminal 0" and ?p = "demo_position\<lparr>POSITION_SL := 0\<rparr>"
  let ?m = "ScanTrades decimal_nearest ?T fresh_monitor"
  have p: "Positions ?T = [?p]" "FileOpens ?T" by (simp_all add: demo_terminal_def)
  have d: "POSITION_TICKET demo_position = 7001" "POSITION_TP demo_position = 5 / 4" "POSITION_VOLUME demo_position = 1 / 2"
    by (simp_all add: demo_position_def)
  have m: "knownTickets ?m = [opened ?p]" "stateFile ?m = Some (concat (map (state_row decimal_nearest) [opened ?p]))"
    by (simp_all add: ScanTrades_def p d fresh_monitor_def IsKnownTicket_def AddKnownTicket_def SaveStateToFile_def send_def opened_def)
  have "rnd (1 / 2) = 1 / 2" by code_simp
  then have "recorded ?T (knownTickets ?m)"
    unfolding m by (simp add: recorded_def p d position_of_def is_ulong_def is_double_def) (simp add: opened_def d is_double_def)
  moreover have "stateFile ?m = Some (concat (map (state_row decimal_nearest) (knownTickets ?m)))" unfolding m ..
  ultimately show ?thesis
    using restart_is_quiet [OF nearest.mql_numbers_axioms p(2) _ _ demo_terminal_ok(1,2), of ?m] by blast
qed

subsection \<open>A position closed while the program is down\<close>

text \<open>Neither known nor open: such a ticket is not reported and not learnt.\<close>

definition unknown :: "int \<Rightarrow> monitor \<Rightarrow> bool" where
  "unknown t m \<longleftrightarrow> (\<forall>k \<in> set (knownTickets m). kt_ticket k \<noteq> t)"

definition not_open :: "int \<Rightarrow> terminal \<Rightarrow> bool" where
  "not_open t T \<longleftrightarrow> (\<forall>p \<in> set (Positions T). POSITION_TICKET p \<noteq> t)"

definition silent :: "int \<Rightarrow> monitor \<Rightarrow> monitor \<Rightarrow> bool" where
  "silent t m m' \<longleftrightarrow> (\<exists>cs. calls m' = calls m @ cs \<and> (\<forall>c \<in> set cs. sc_ticket c \<noteq> t))"

lemma silent_refl [simp]: "silent t m m"
  by (simp add: silent_def)

lemma silent_trans: "silent t m m' \<Longrightarrow> silent t m' m'' \<Longrightarrow> silent t m m''"
  unfolding silent_def by (elim exE conjE, rule_tac x = "cs @ csa" in exI) auto

lemma scan_new_silent:
  assumes "\<forall>p \<in> set ps. POSITION_TICKET p \<noteq> t" and "unknown t m"
  shows "silent t m (scan_new dts T ps m) \<and> unknown t (scan_new dts T ps m)"
  using assms
proof (induction ps arbitrary: m)
  case (Cons p ps)
  let ?m = "if POSITION_TICKET p = 0 then m else if \<not> IsKnownTicket (POSITION_TICKET p) m
      then SaveStateToFile dts T (send (position_call ''OPEN'' p)
        (AddKnownTicket (POSITION_TICKET p) (POSITION_VOLUME p) (POSITION_SL p) (POSITION_TP p) m)) else m"
  have "silent t m ?m" "unknown t ?m"
    using Cons.prems by (auto simp: silent_def unknown_def AddKnownTicket_def position_call_def)
  moreover have "silent t ?m (scan_new dts T ps ?m) \<and> unknown t (scan_new dts T ps ?m)"
    by (rule Cons.IH) (use Cons.prems(1) \<open>unknown t ?m\<close> in simp_all)
  ultimately show ?case using silent_trans unfolding scan_new.simps by blast
qed simp

lemma scan_new_extends: "\<exists>cs. calls (scan_new dts T ps m) = calls m @ cs"
proof (induction ps arbitrary: m)
  case (Cons p ps)
  obtain cs where "calls (scan_new dts T (p # ps) m) = calls (if POSITION_TICKET p = 0 then m else if \<not> IsKnownTicket (POSITION_TICKET p) m
      then SaveStateToFile dts T (send (position_call ''OPEN'' p)
        (AddKnownTicket (POSITION_TICKET p) (POSITION_VOLUME p) (POSITION_SL p) (POSITION_TP p) m)) else m) @ cs"
    using Cons.IH unfolding scan_new.simps by blast
  then show ?case by (auto simp: AddKnownTicket_def split: if_splits)
qed simp

lemma reported_ticket: "c \<in> set (reported T k) \<Longrightarrow> sc_ticket c = kt_ticket k"
  by (auto simp: reported_def close_call_def position_call_def dest: position_of_Some split: option.splits if_splits)

lemma ScanTrades_silent:
  assumes "unknown t m" and "not_open t T"
  shows "silent t m (ScanTrades dts T m) \<and> unknown t (ScanTrades dts T m)"
proof -
  let ?m = "scan_known dts T (length (knownTickets m)) m"
  have e: "knownTickets ?m = List.map_filter (known_after T) (knownTickets m)"
    "calls ?m = calls m @ concat (map (reported T) (rev (knownTickets m)))"
    using scan_known_effect [of "length (knownTickets m)" m dts T] by simp_all
  have "silent t m ?m" using assms(1) reported_ticket by (fastforce simp: silent_def unknown_def e(2))
  moreover have "unknown t ?m" unfolding unknown_def e(1)
  proof
    fix k assume "k \<in> set (List.map_filter (known_after T) (knownTickets m))"
    then obtain k0 where "k0 \<in> set (knownTickets m)" "known_after T k0 = Some k" unfolding in_map_filter by blast
    then show "kt_ticket k \<noteq> t" using assms(1) by (auto simp: unknown_def known_after_def)
  qed
  ultimately show ?thesis
    using scan_new_silent [of "rev (Positions T)" t ?m dts T] assms(2) silent_trans unfolding ScanTrades_def not_open_def by auto
qed

text \<open>The ticks of a run, one terminal state each.\<close>

definition ticks :: "(rat \<Rightarrow> nat \<Rightarrow> string) \<Rightarrow> terminal list \<Rightarrow> monitor \<Rightarrow> monitor" where
  "ticks dts Ts m = fold (ScanTrades dts) Ts m"

lemma ticks_silent:
  assumes "unknown t m" and "\<forall>T \<in> set Ts. not_open t T"
  shows "silent t m (ticks dts Ts m)"
  using assms
proof (induction Ts arbitrary: m)
  case (Cons T Ts)
  have "silent t m (ScanTrades dts T m) \<and> unknown t (ScanTrades dts T m)"
    by (rule ScanTrades_silent) (use Cons.prems in simp_all)
  moreover from this have "silent t (ScanTrades dts T m) (ticks dts Ts (ScanTrades dts T m))"
    by (intro Cons.IH) (use Cons.prems(2) in simp_all)
  ultimately show ?case unfolding ticks_def fold_Cons comp_def using silent_trans by blast
qed (simp add: ticks_def)

text \<open>
  C25: A position that is closed while the program is down is never reported. The running program
  sends the CLOSE at its next tick, from the closing deal in the history; the restarted one drops the
  ticket from the file it reads, because the position is not open any more, and over any run of ticks
  it sends nothing of that ticket: the copies of the trade stay open.
\<close>

theorem closed_while_down:
  assumes "FileOpens T" and "stateFile m = Some (concat (map (state_row dts) (knownTickets m)))"
    and "\<And>k. k \<in> set (knownTickets m) \<Longrightarrow> is_ulong (kt_ticket k)"
    and "k \<in> set (knownTickets m)" and "not_open (kt_ticket k) T" and "close_call T (kt_ticket k) = [c]"
    and "\<forall>T' \<in> set Ts. not_open (kt_ticket k) T'"
  shows "c \<in> set (drop (length (calls m)) (calls (ScanTrades dts T m))) \<and> sc_type c = ''CLOSE'' \<and> sc_ticket c = kt_ticket k
    \<and> (\<forall>c' \<in> set (drop (length (calls m)) (calls (ticks dts (T # Ts) (OnInit T m)))). sc_ticket c' \<noteq> kt_ticket k)"
proof -
  have "position_of T (kt_ticket k) = None" using assms(5) unfolding position_of_None not_open_def by (metis imageE)
  then have r: "reported T k = [c]" by (simp add: reported_def assms(6))
  let ?m = "scan_known dts T (length (knownTickets m)) m"
  have "c \<in> set (concat (map (reported T) (rev (knownTickets m))))" using r assms(4) by (simp, intro bexI [of _ k]) simp_all
  moreover have "calls ?m = calls m @ concat (map (reported T) (rev (knownTickets m)))"
    using scan_known_effect [of "length (knownTickets m)" m dts T] by simp
  moreover obtain cs where "calls (ScanTrades dts T m) = calls ?m @ cs"
    using scan_new_extends unfolding ScanTrades_def by blast
  ultimately have "c \<in> set (drop (length (calls m)) (calls (ScanTrades dts T m)))" by simp
  moreover have "sc_type c = ''CLOSE'' \<and> sc_ticket c = kt_ticket k"
    using assms(6) by (auto simp: close_call_def split: option.splits if_splits)
  moreover have "unknown (kt_ticket k) (OnInit T m)"
    using assms(5) by (auto simp: unknown_def OnInit_effect(1) [OF assms(1-3)] reread_def not_open_def)
  then have "silent (kt_ticket k) (OnInit T m) (ticks dts (T # Ts) (OnInit T m))"
    by (rule ticks_silent) (use assms(5,7) in simp)
  moreover have "calls (OnInit T m) = calls m" by (rule OnInit_effect(2) [OF assms(1-3)])
  ultimately show ?thesis unfolding silent_def by auto
qed

definition closed_terminal :: terminal where
  "closed_terminal = (demo_terminal 0)\<lparr>Positions := [], Deals := [\<lparr>DEAL_POSITION_ID = 7001, DEAL_ENTRY = DEAL_ENTRY_OUT, DEAL_BUY = False,
     DEAL_PRICE = 9 / 8, DEAL_SYMBOL = ''eurusd.m'', DEAL_VOLUME = 1 / 2\<rparr>]\<rparr>"

theorem closed_while_down_witness:
  "let m = ScanTrades decimal_nearest (demo_terminal 0) fresh_monitor in
     (\<exists>c \<in> set (drop (length (calls m)) (calls (ScanTrades decimal_nearest closed_terminal m))). sc_type c = ''CLOSE'' \<and> sc_direction c = ''SELL'')
     \<and> (\<forall>c \<in> set (drop (length (calls m)) (calls (ticks decimal_nearest [closed_terminal] (OnInit closed_terminal m)))). sc_ticket c \<noteq> 7001)"
proof -
  let ?m = "ScanTrades decimal_nearest (demo_terminal 0) fresh_monitor" and ?k = "opened (demo_position\<lparr>POSITION_SL := 0\<rparr>)"
  let ?c = "\<lparr>sc_ticket = 7001, sc_type = ''CLOSE'', sc_symbol = ''eurusd.m'', sc_direction = ''SELL'', sc_price = 9 / 8, sc_sl = 0, sc_tp = 0,
    sc_lot = 1 / 2\<rparr>"
  have m: "knownTickets ?m = [?k]" "stateFile ?m = Some (concat (map (state_row decimal_nearest) [?k]))"
    by (simp_all add: ScanTrades_def demo_terminal_def demo_position_def fresh_monitor_def IsKnownTicket_def AddKnownTicket_def
        SaveStateToFile_def send_def opened_def)
  have k: "kt_ticket ?k = 7001" by (simp add: opened_def demo_position_def)
  have h: "FileOpens closed_terminal" "not_open (kt_ticket ?k) closed_terminal" "close_call closed_terminal (kt_ticket ?k) = [?c]"
    by (simp_all add: closed_terminal_def demo_terminal_def not_open_def close_call_def closing_deal_def k wrap64_def direction_text_def)
  have u: "is_ulong (kt_ticket k')" if "k' \<in> set (knownTickets ?m)" for k' using that unfolding m by (simp add: k is_ulong_def)
  have s: "stateFile ?m = Some (concat (map (state_row decimal_nearest) (knownTickets ?m)))" unfolding m ..
  have i: "?k \<in> set (knownTickets ?m)" unfolding m by simp
  have "\<forall>T' \<in> set []. not_open (kt_ticket ?k) T'" by simp
  from closed_while_down [OF h(1) s u i h(2,3) this] show ?thesis unfolding k Let_def by fastforce
qed

end
