(* ===== verification/Receiver.thy ===== *)
theory Receiver
  imports Terminal Wire
begin

text \<open>
  The programs on the copying accounts, \<open>mql5/MT5Signal_Receiver.mq5\<close> and \<open>mql4/receiver_ea.mq4\<close>: at
  every tick of a timer they poll the latest signal of one symbol, trade it unless its ticket and type
  were handled in the last day, and remember it in a file. The lemmas say that they read from the text
  of an answer what the server has published, that a ticket and type is traded once, and which trades
  a signal touches.
\<close>

subsection \<open>The text of an answer\<close>

text \<open>
  \<open>json.Marshal\<close> as text. A number that is not an integer is printed with the fewest places that read
  back as the same \<open>float64\<close>; numbers below one millionth, which are printed with an exponent, are left
  out, and so are integers beyond \<open>2 ^ 53\<close>. Names of members are printed as they are.
\<close>

definition places :: "rat \<Rightarrow> nat" where
  "places x = (case find (\<lambda>d. rnd (of_int (round_rat (x * 10 ^ d)) / 10 ^ d) = x) [0..<1075] of Some d \<Rightarrow> d | None \<Rightarrow> 1075)"

definition FormatFloat :: "rat \<Rightarrow> string" where
  "FormatFloat x = decimal_text (round_rat (x * 10 ^ places x)) (places x)"

definition escape_char :: "char \<Rightarrow> string" where
  "escape_char c = (if c = CHR 0x22 \<or> c = CHR 0x5C then [CHR 0x5C, c]
     else if c = CHR 0x0A then [CHR 0x5C, CHR ''n''] else if c = CHR 0x0D then [CHR 0x5C, CHR ''r'']
     else if c = CHR 0x09 then [CHR 0x5C, CHR ''t''] else if c = CHR 0x08 then [CHR 0x5C, CHR ''b'']
     else if c = CHR 0x0C then [CHR 0x5C, CHR ''f'']
     else if code c < 32 \<or> c = CHR ''<'' \<or> c = CHR ''>'' \<or> c = CHR ''&''
     then CHR 0x5C # ''u00'' @ [hex_digit (code c div 16), hex_digit (code c mod 16)] else [c])"

definition string_text :: "string \<Rightarrow> string" where
  "string_text s = CHR 0x22 # concat (map escape_char s) @ [CHR 0x22]"

fun json_text :: "json \<Rightarrow> string" where
  "json_text JNull = ''null''"
| "json_text (JBool b) = (if b then ''true'' else ''false'')"
| "json_text (JInt i) = FormatInt i"
| "json_text (JNum x) = FormatFloat x"
| "json_text (JStr s) = string_text s"
| "json_text (JArr vs) = CHR ''['' # Join (map json_text vs) '','' @ '']''"
| "json_text (JObj ms) = CHR ''{'' # members_text (map (\<lambda>(k, v). (k, json_text v)) ms)"

subsection \<open>Reading a member\<close>

definition JSONGetRaw :: "string \<Rightarrow> string \<Rightarrow> string" where
  "JSONGetRaw json key = (let search = key_text key; start = StringFind json search 0 in
     if start < 0 then []
     else let rest = dropWhile (\<lambda>c. c = CHR '' '') (drop (nat start + length search) json)
       in takeWhile (\<lambda>c. c \<noteq> CHR '','' \<and> c \<noteq> CHR ''}'') rest)"

definition JSONGetString :: "string \<Rightarrow> string \<Rightarrow> string" where
  "JSONGetString json key = (let search = key_text key @ [CHR 0x22]; start = StringFind json search 0 in
     if start < 0 then []
     else let start = nat start + length search; end = StringFind json [CHR 0x22] start in
       if end < 0 then [] else StringSubstr json (int start) (end - int start))"

definition JSONGetLong :: "string \<Rightarrow> string \<Rightarrow> int" where
  "JSONGetLong json key = StringToInteger (JSONGetRaw json key)"

definition JSONGetDouble :: "string \<Rightarrow> string \<Rightarrow> rat" where
  "JSONGetDouble json key = (let val = JSONGetRaw json key in
     if val = [] \<or> val = ''null'' then 0 else StringToDouble val)"

subsection \<open>The first occurrence of a text\<close>

text \<open>What follows the first occurrence of \<open>p\<close> in \<open>s\<close>.\<close>

definition seek :: "string \<Rightarrow> string \<Rightarrow> string option" where
  "seek s p = map_option (\<lambda>i. drop (i + length p) s) (find_text s p)"

lemma seek_Cons: "p \<noteq> [] \<Longrightarrow> seek (c # s) p = (if HasPrefix (c # s) p then Some (drop (length p) (c # s)) else seek s p)"
  by (simp add: seek_def option.map_comp comp_def)

lemma seek_Nil: "p \<noteq> [] \<Longrightarrow> seek [] p = None"
  by (simp add: seek_def)

lemma seek_hit: "p \<noteq> [] \<Longrightarrow> seek (p @ s) p = Some s"
proof -
  assume p: "p \<noteq> []"
  then obtain c t where "p @ s = c # t" by (cases p) auto
  then show ?thesis using seek_Cons [OF p, of c t] HasPrefix_append [of p s] by (metis append_eq_conv_conj)
qed

lemma seek_skip: "p = d # q \<Longrightarrow> d \<notin> set t \<Longrightarrow> seek (t @ s) p = seek s p"
  by (induction t) (auto simp: seek_Cons)

lemma JSONGetRaw_seek:
  "JSONGetRaw json key = (case seek json (key_text key) of None \<Rightarrow> []
     | Some r \<Rightarrow> takeWhile (\<lambda>c. c \<noteq> CHR '','' \<and> c \<noteq> CHR ''}'') (dropWhile (\<lambda>c. c = CHR '' '') r))"
  by (simp add: JSONGetRaw_def seek_def StringFind_def Let_def split: option.splits)

lemma JSONGetString_seek:
  "JSONGetString json key = (case seek json (key_text key @ [CHR 0x22]) of None \<Rightarrow> []
     | Some r \<Rightarrow> (case find_text r [CHR 0x22] of None \<Rightarrow> [] | Some i \<Rightarrow> take i r))"
proof -
  have n: "nat (1 + (int a + int b)) = Suc (a + b)" for a b by simp
  show ?thesis by (simp add: JSONGetString_def seek_def StringFind_def StringSubstr_def Let_def n split: option.splits)
qed

text \<open>A value that is printed without quotes, or as a quoted text that needs no escape.\<close>

definition flat :: "string \<Rightarrow> bool" where
  "flat t \<longleftrightarrow> CHR 0x22 \<notin> set t \<or> (\<exists>s. t = CHR 0x22 # s @ [CHR 0x22] \<and> CHR 0x22 \<notin> set s)"

definition name_ok :: "string \<Rightarrow> bool" where
  "name_ok k \<longleftrightarrow> k \<noteq> [] \<and> CHR 0x22 \<notin> set k \<and> hd k \<notin> {CHR '':'', CHR '','', CHR ''}''}"

lemma prefix_quoted:
  "CHR 0x22 \<notin> set k \<Longrightarrow> CHR 0x22 \<notin> set k' \<Longrightarrow> HasPrefix (k @ CHR 0x22 # x) (k' @ CHR 0x22 # y) \<longleftrightarrow> k = k' \<and> HasPrefix x y"
proof (induction k arbitrary: k')
  case Nil
  then show ?case by (cases k') auto
next
  case (Cons c k)
  then show ?case by (cases k') auto
qed

lemma seek_other:
  assumes "name_ok key" and "CHR 0x22 \<notin> set k" and "k \<noteq> key" and "flat t" and "closes r"
  shows "seek (CHR 0x22 # k @ CHR 0x22 # CHR '':'' # t @ r) (key_text key @ q) = seek r (key_text key @ q)"
proof -
  let ?p = "CHR 0x22 # key @ CHR 0x22 # CHR '':'' # q"
  have key: "CHR 0x22 \<notin> set key" "key \<noteq> []" using assms(1) by (simp_all add: name_ok_def)
  obtain c u where r: "r = c # u" "c = CHR '','' \<or> c = CHR ''}''" using assms(5) by (cases r) (auto simp: closes_def)
  have skip: "seek (x @ y) ?p = seek y ?p" if "CHR 0x22 \<notin> set x" for x y by (rule seek_skip [OF refl that])
  have quote: "seek (CHR 0x22 # x # y) ?p = seek (x # y) ?p" if "x \<in> {CHR '':'', CHR '','', CHR ''}''}" for x y
    using that assms(1) key by (cases key) (auto simp: seek_Cons name_ok_def)
  have "seek (CHR 0x22 # k @ CHR 0x22 # CHR '':'' # t @ r) ?p = seek (k @ CHR 0x22 # CHR '':'' # t @ r) ?p"
    using prefix_quoted [OF assms(2) key(1)] assms(3) by (simp add: seek_Cons)
  also have "\<dots> = seek (CHR '':'' # t @ r) ?p" by (simp add: skip assms(2) quote)
  also have "\<dots> = seek (t @ r) ?p" using skip [of "'':''" "t @ r"] by simp
  also have "\<dots> = seek r ?p"
  proof (cases "CHR 0x22 \<in> set t")
    case False
    then show ?thesis by (rule skip)
  next
    case True
    then obtain s where s: "t = CHR 0x22 # s @ [CHR 0x22]" "CHR 0x22 \<notin> set s" using assms(4) by (auto simp: flat_def)
    have "seek (t @ r) ?p = seek (s @ CHR 0x22 # r) ?p"
      using prefix_quoted [OF s(2) key(1), of r "CHR '':'' # q"] r by (auto simp: s(1) seek_Cons)
    also have "\<dots> = seek (CHR 0x22 # c # u) ?p" using skip [OF s(2)] unfolding r(1) .
    also have "\<dots> = seek r ?p" unfolding r(1) by (rule quote) (use r(2) in blast)
    finally show ?thesis .
  qed
  finally show ?thesis by (simp add: key_text_def)
qed

lemma seek_found: "seek (CHR 0x22 # k @ CHR 0x22 # CHR '':'' # q @ r) (key_text k @ q) = Some r"
  using seek_hit [of "key_text k @ q" r] by (simp add: key_text_def)

definition member_ok :: "string \<times> string \<Rightarrow> bool" where
  "member_ok m \<longleftrightarrow> CHR 0x22 \<notin> set (fst m) \<and> flat (snd m)"

text \<open>Where a member of an object is found.\<close>

lemma seek_members:
  assumes "name_ok key" and "list_all member_ok ms" and "map_of ms key = Some (q @ u)"
  shows "\<exists>r. closes r \<and> seek (members_text ms) (key_text key @ q) = Some (u @ r)"
  using assms(2,3)
proof (induction ms rule: members_text.induct)
  case (2 k t)
  then have "k = key" "t = q @ u" by (simp_all split: if_splits)
  then show ?case using seek_found [of key q "u @ ''}''"] by (intro exI [of _ "''}''"]) (simp add: closes_def)
next
  case (3 k t m ms)
  show ?case
  proof (cases "k = key")
    case True
    then have "t = q @ u" using "3.prems" by simp
    then show ?thesis using True seek_found [of key q "u @ CHR '','' # members_text (m # ms)"]
      by (intro exI [of _ "CHR '','' # members_text (m # ms)"]) (simp add: closes_def)
  next
    case False
    have c: "closes (CHR '','' # members_text (m # ms))" by (simp add: closes_def)
    have "seek (members_text ((k, t) # m # ms)) (key_text key @ q) = seek (CHR '','' # members_text (m # ms)) (key_text key @ q)"
      using seek_other [OF assms(1) _ False _ c] "3.prems"(1) by (simp add: member_ok_def)
    also have "\<dots> = seek (members_text (m # ms)) (key_text key @ q)" by (simp add: seek_Cons key_text_def)
    finally show ?thesis using "3.IH" "3.prems" False by simp
  qed
qed simp

lemma seek_no_member:
  assumes "name_ok key" and "list_all member_ok ms" and "map_of ms key = None"
  shows "seek (members_text ms) (key_text key) = None"
  using assms(2,3)
proof (induction ms rule: members_text.induct)
  case 1
  then show ?case by (simp add: seek_Cons seek_Nil key_text_def)
next
  case (2 k t)
  have "closes ''}''" by (simp add: closes_def)
  from seek_other [OF assms(1) _ _ _ this, of k t "[]"] 2 show ?case
    by (simp add: member_ok_def split: if_splits) (simp add: seek_Cons seek_Nil key_text_def)
next
  case (3 k t m ms)
  have c: "closes (CHR '','' # members_text (m # ms))" by (simp add: closes_def)
  have "seek (members_text ((k, t) # m # ms)) (key_text key) = seek (CHR '','' # members_text (m # ms)) (key_text key)"
    using seek_other [OF assms(1) _ _ _ c, of k t "[]"] "3.prems" by (simp add: member_ok_def split: if_splits)
  also have "\<dots> = seek (members_text (m # ms)) (key_text key)" by (simp add: seek_Cons key_text_def)
  finally show ?case using 3 by (simp split: if_splits)
qed

subsection \<open>What the helpers read\<close>

definition object_text :: "(string \<times> string) list \<Rightarrow> string" where
  "object_text ms = CHR ''{'' # members_text ms"

lemma seek_object: "seek (object_text ms) (key_text key @ q) = seek (members_text ms) (key_text key @ q)"
  by (simp add: object_text_def seek_Cons key_text_def)

lemma JSONGetRaw_member:
  assumes "name_ok key" and "list_all member_ok ms" and "map_of ms key = Some t"
    and "\<And>c. c \<in> set t \<Longrightarrow> c \<notin> {CHR '','', CHR ''}'', CHR '' ''}"
  shows "JSONGetRaw (object_text ms) key = t"
proof -
  obtain r where r: "closes r" "seek (members_text ms) (key_text key) = Some (t @ r)"
    using seek_members [OF assms(1,2), of "[]" t] assms(3) by auto
  then have s: "seek (object_text ms) (key_text key) = Some (t @ r)" using seek_object [of ms key "[]"] by simp
  have d: "dropWhile (\<lambda>c. c = CHR '' '') (t @ r) = t @ r"
    using assms(4) r(1) by (cases t; cases r) (auto simp: closes_def)
  have "takeWhile (\<lambda>c. c \<noteq> CHR '','' \<and> c \<noteq> CHR ''}'') (t @ r) = t @ takeWhile (\<lambda>c. c \<noteq> CHR '','' \<and> c \<noteq> CHR ''}'') r"
    using assms(4) by (intro takeWhile_append2) auto
  also have "takeWhile (\<lambda>c. c \<noteq> CHR '','' \<and> c \<noteq> CHR ''}'') r = []" using r(1) by (cases r) (auto simp: closes_def)
  finally show ?thesis by (simp add: JSONGetRaw_seek s d)
qed

lemma JSONGetRaw_absent:
  "name_ok key \<Longrightarrow> list_all member_ok ms \<Longrightarrow> map_of ms key = None \<Longrightarrow> JSONGetRaw (object_text ms) key = []"
  using seek_no_member [of key ms] seek_object [of ms key "[]"] by (simp add: JSONGetRaw_seek)

lemma find_quote: "CHR 0x22 \<notin> set s \<Longrightarrow> find_text (s @ CHR 0x22 # r) [CHR 0x22] = Some (length s)"
  by (induction s) auto

lemma JSONGetString_member:
  assumes "name_ok key" and "list_all member_ok ms" and "map_of ms key = Some (CHR 0x22 # s @ [CHR 0x22])" and "CHR 0x22 \<notin> set s"
  shows "JSONGetString (object_text ms) key = s"
proof -
  obtain r where "seek (members_text ms) (key_text key @ [CHR 0x22]) = Some ((s @ [CHR 0x22]) @ r)"
    using seek_members [OF assms(1,2), of "[CHR 0x22]" "s @ [CHR 0x22]"] assms(3) by auto
  then show ?thesis using find_quote [OF assms(4), of r] by (simp add: JSONGetString_seek seek_object)
qed

subsection \<open>Numbers as text\<close>

text \<open>The numbers that the text carries: \<open>0\<close>, or a \<open>float64\<close> from one millionth on.\<close>

definition carried :: "rat \<Rightarrow> bool" where
  "carried x \<longleftrightarrow> is_double x \<and> (x = 0 \<or> 1 / 1000000 \<le> x)"

lemma double_decimal:
  assumes "is_double x" and "1 / 1000000 \<le> x"
  shows "\<exists>n. x * 10 ^ 72 = of_int n"
proof -
  have x: "0 < x" using assms(2) by (rule less_le_trans [rotated]) simp
  let ?m = "round_rat (x / ulp x)"
  have m: "x = of_int ?m * ulp x" using assms(1) x rnd_pos [OF x] by (simp add: is_double_def)
  have "(2 :: rat) powi (- 20) \<le> x" using assms(2) by (simp add: power_int_minus)
  also have "x < 2 powi (binexp x + 1)" using binexp_bounds [OF x] by blast
  finally have "- 20 < binexp x + 1" by (rule powi_less_imp_less)
  then have "0 \<le> binexp x + 20" by simp
  then obtain k where k: "binexp x + 20 = int k" by (rule nonneg_int_cases)
  have e: "binexp x - 52 = int k + - 72" using k by simp
  have "ulp x = 2 powi (binexp x - 52)" using x by (simp add: ulp_def)
  then have "ulp x = 2 powi int k * 2 powi (- 72)" unfolding e powi_split .
  also have "\<dots> = 2 ^ k / 2 ^ 72" by (simp only: power_int_minus power_int_of_nat divide_inverse power_int_numeral)
  finally have u: "ulp x = 2 ^ k / 2 ^ 72" .
  have c: "a / b * (b * d) = a * d" if "b \<noteq> 0" for a b d :: rat using that by simp
  have t: "(10 :: rat) ^ n = 2 ^ n * 5 ^ n" for n by (simp add: power_mult_distrib [symmetric])
  have "ulp x * 10 ^ 72 = 2 ^ k * 5 ^ 72" unfolding u t [of 72] by (rule c) simp
  then have "ulp x * 10 ^ 72 = of_int (2 ^ k * 5 ^ 72)" by (simp only: of_int_mult of_int_power of_int_numeral)
  then have "x * 10 ^ 72 = of_int (?m * (2 ^ k * 5 ^ 72))" using m by (metis mult.assoc of_int_mult)
  then show ?thesis by blast
qed

lemma places_read:
  assumes "is_double x" and "1 / 1000000 \<le> x"
  shows "rnd (of_int (round_rat (x * 10 ^ places x)) / 10 ^ places x) = x"
proof -
  let ?P = "\<lambda>d. rnd (of_int (round_rat (x * 10 ^ d)) / 10 ^ d) = x"
  obtain n where "x * 10 ^ 72 = of_int n" using double_decimal [OF assms] by blast
  then have "of_int (round_rat (x * 10 ^ 72)) / 10 ^ 72 = x" by (simp only: round_rat_of_int) (simp add: field_simps)
  then have "?P 72" using assms(1) by (simp only: is_double_def)
  moreover have "72 \<in> set [0..<1075]" by simp
  ultimately have "find ?P [0..<1075] \<noteq> None" unfolding find_None_iff by blast
  then obtain d where d: "find ?P [0..<1075] = Some d" by blast
  then have "places x = d" by (simp add: places_def)
  moreover have "?P d" using d unfolding find_Some_iff by blast
  ultimately show ?thesis by metis
qed

lemma StringToDouble_int:
  assumes "0 \<le> i"
  shows "StringToDouble (FormatInt i) = rnd (of_int i)"
proof -
  have f: "FormatInt i = nat_text (nat i)" using assms by (simp add: FormatInt_def)
  have w: "takeWhile is_digit (nat_text k) = nat_text k" "dropWhile is_digit (nat_text k) = []" for k
    using takeWhile_digits [OF nat_text_digits, of "[]" k] by simp_all
  show ?thesis using assms nat_text_no_sign [of "nat i"]
    by (simp add: w f StringToDouble_def scan_frac_def scan_exp_def number_value_def Let_def)
qed

definition number_char :: "char \<Rightarrow> bool" where
  "number_char c \<longleftrightarrow> is_digit c \<or> c = CHR ''.'' \<or> c = CHR ''-''"

lemma decimal_chars: "list_all number_char (decimal_text n d)"
  using nat_text_digits pad_digits by (auto simp: decimal_text_def number_char_def list_all_iff)

lemma integer_chars: "list_all number_char (FormatInt i)"
  using nat_text_digits by (auto simp: FormatInt_def number_char_def list_all_iff)

lemma json_float_text:
  "carried x \<Longrightarrow> list_all number_char (json_text (json_float x)) \<and> StringToDouble (json_text (json_float x)) = x"
proof (cases "of_int \<lfloor>x\<rfloor> = x \<and> \<bar>x\<bar> < 10 ^ 21")
  case True
  assume "carried x"
  then have "0 \<le> x" "is_double x" by (auto simp: carried_def)
  then have "StringToDouble (FormatInt \<lfloor>x\<rfloor>) = x" 
    using True StringToDouble_int [of "\<lfloor>x\<rfloor>"] by (metis is_double_def zero_le_floor)
  with True show ?thesis by (simp add: json_float_def integer_chars)
next
  case False
  assume "carried x"
  with False have x: "is_double x" "1 / 1000000 \<le> x" by (auto simp: carried_def)
  then have "0 \<le> x * 10 ^ places x" by simp
  then have "round_rat 0 \<le> round_rat (x * 10 ^ places x)" by (rule round_rat_mono)
  then have "0 \<le> round_rat (x * 10 ^ places x)" using round_rat_of_int [of 0] by simp
  then have "StringToDouble (FormatFloat x) = x"
    unfolding FormatFloat_def using places_read [OF x] by (simp add: StringToDouble_decimal)
  then show ?thesis unfolding json_float_def if_not_P [OF False] by (simp add: FormatFloat_def decimal_chars)
qed

lemma number_token:
  assumes "list_all number_char t"
  shows "CHR 0x22 \<notin> set t" and "flat t" and "c \<in> set t \<Longrightarrow> c \<notin> {CHR '','', CHR ''}'', CHR '' ''}"
proof -
  have n: "\<not> number_char CHR 0x22" "\<not> number_char CHR '',''" "\<not> number_char CHR ''}''" "\<not> number_char CHR '' ''"
    by (simp_all add: number_char_def is_digit_def)
  show "CHR 0x22 \<notin> set t" using assms n(1) unfolding list_all_iff by blast
  then show "flat t" by (simp add: flat_def)
  show "c \<in> set t \<Longrightarrow> c \<notin> {CHR '','', CHR ''}'', CHR '' ''}" using assms n unfolding list_all_iff by blast
qed

lemma JSONGetDouble_member:
  assumes "name_ok key" and "list_all member_ok ms" and "map_of ms key = Some (json_text (json_float x))" and "carried x"
  shows "JSONGetDouble (object_text ms) key = x"
proof -
  note t = json_float_text [OF assms(4)]
  have "JSONGetRaw (object_text ms) key = json_text (json_float x)"
    using JSONGetRaw_member [OF assms(1-3)] number_token(3) t by blast
  moreover have "json_text (json_float x) \<noteq> ''null''" using t by (auto simp: number_char_def is_digit_def)
  moreover have "StringToDouble [] = 0" by (simp add: StringToDouble_def scan_frac_def scan_exp_def number_value_def digits_val_def)
  ultimately show ?thesis using t by (cases "json_text (json_float x) = []") (auto simp: JSONGetDouble_def)
qed

subsection \<open>The answer to a poll\<close>

definition unescaped :: "string \<Rightarrow> bool" where
  "unescaped s \<longleftrightarrow> list_all (\<lambda>c. escape_char c = [c]) s"

lemma string_text_unescaped: "unescaped s \<Longrightarrow> string_text s = CHR 0x22 # s @ [CHR 0x22]"
proof -
  assume u: "unescaped s"
  have "concat (map escape_char s) = s" using u unfolding unescaped_def by (induction s) simp_all
  then show ?thesis by (simp add: string_text_def)
qed

lemma unescaped_no_quote: "unescaped s \<Longrightarrow> CHR 0x22 \<notin> set s"
  by (auto simp: unescaped_def list_all_iff escape_char_def)

lemma flat_string: "unescaped s \<Longrightarrow> flat (string_text s)"
  using unescaped_no_quote by (auto simp: flat_def string_text_unescaped)

text \<open>A time in RFC 3339 needs no escape.\<close>

lemma time_unescaped:
  assumes "format_rfc3339 t = Some s"
  shows "unescaped s"
proof -
  have d: "escape_char c = [c]" if c: "is_digit c" for c
  proof -
    have "c \<notin> set [CHR 0x22, CHR 0x5C, CHR 0x0A, CHR 0x0D, CHR 0x09, CHR 0x08, CHR 0x0C, CHR ''<'', CHR ''>'', CHR ''&'']"
      using c by (auto simp: is_digit_def)
    moreover have "\<not> code c < 32" using c by (simp add: is_digit_def code_def)
    ultimately show ?thesis by (simp add: escape_char_def)
  qed
  have u: "unescaped (pad k n)" for k n
    using pad_digits [of k n] d unfolding unescaped_def list_all_iff by blast
  have f: "unescaped (strip_zeros (pad k n))" for k n
    using strip_zeros_digits [OF pad_digits, of k n] d unfolding unescaped_def list_all_iff by blast
  have c: "escape_char CHR ''-'' = ''-''" "escape_char CHR ''T'' = ''T''" "escape_char CHR '':'' = '':''" "escape_char CHR ''.'' = ''.''"
    "escape_char CHR ''Z'' = ''Z''" "escape_char CHR ''+'' = ''+''"
    by (simp_all add: escape_char_def code_def)
  have a: "unescaped (x @ y) \<longleftrightarrow> unescaped x \<and> unescaped y" "unescaped (e # y) \<longleftrightarrow> escape_char e = [e] \<and> unescaped y" "unescaped []" for x y e
    by (simp_all add: unescaped_def)
  show ?thesis using assms
    by (auto simp: format_rfc3339_def frac_text_def zone_text_def Let_def a c u f split: prod.splits if_splits)
qed

text \<open>A signal whose numbers and texts are carried as they are.\<close>

definition printable :: "InboundSignal \<Rightarrow> bool" where
  "printable sg \<longleftrightarrow> in64 (TicketID sg) \<and> unescaped (SignalType sg) \<and> unescaped (Symbol sg) \<and> unescaped (Direction sg)
     \<and> carried (Price sg) \<and> carried (Lot sg) \<and> pred_option carried (SL sg) \<and> pred_option carried (TP sg)"

definition signal_members :: "InboundSignal \<Rightarrow> string \<Rightarrow> (string \<times> string) list" where
  "signal_members sg ts = [(''ticket_id'', FormatInt (TicketID sg)), (''signal_type'', string_text (SignalType sg)),
     (''symbol'', string_text (Symbol sg)), (''direction'', string_text (Direction sg)), (''price'', json_text (json_float (Price sg)))]
     @ (case SL sg of None \<Rightarrow> [] | Some x \<Rightarrow> [(''sl'', json_text (json_float x))])
     @ (case TP sg of None \<Rightarrow> [] | Some x \<Rightarrow> [(''tp'', json_text (json_float x))])
     @ [(''lot'', json_text (json_float (Lot sg))), (''timestamp'', string_text ts)]"

lemma signal_text:
  assumes "Marshal_signal sg = Some d"
  obtains ts where "unescaped ts" and "json_text d = object_text (signal_members sg ts)"
proof -
  obtain ts where ts: "format_rfc3339 (Timestamp sg) = Some ts" using assms
    by (auto simp: Marshal_signal_def json_time_def split: bind_splits)
  then have "json_text d = object_text (signal_members sg ts)"
    using assms by (auto simp: Marshal_signal_def json_time_def json_opt_def object_text_def signal_members_def split: option.splits)
  with time_unescaped [OF ts] show ?thesis by (rule that)
qed

lemma signal_members_ok:
  assumes "printable sg" and "unescaped ts"
  shows "list_all member_ok (signal_members sg ts)"
proof -
  have n: "carried x \<Longrightarrow> flat (json_text (json_float x))" for x using json_float_text number_token(2) by blast
  have i: "flat (FormatInt i)" for i using number_token(2) integer_chars by blast
  show ?thesis using assms n i flat_string
    by (auto simp: signal_members_def member_ok_def printable_def split: option.splits)
qed

lemma signal_read:
  assumes "Marshal_signal sg = Some d" and "printable sg"
  shows "JSONGetLong (json_text d) ''ticket_id'' = TicketID sg
    \<and> JSONGetString (json_text d) ''signal_type'' = SignalType sg \<and> JSONGetString (json_text d) ''direction'' = Direction sg
    \<and> JSONGetDouble (json_text d) ''price'' = Price sg \<and> JSONGetDouble (json_text d) ''lot'' = Lot sg
    \<and> JSONGetDouble (json_text d) ''sl'' = (case SL sg of None \<Rightarrow> 0 | Some x \<Rightarrow> x)
    \<and> JSONGetDouble (json_text d) ''tp'' = (case TP sg of None \<Rightarrow> 0 | Some x \<Rightarrow> x)"
proof -
  obtain ts where ts: "unescaped ts" and t: "json_text d = object_text (signal_members sg ts)" using signal_text [OF assms(1)] by blast
  let ?ms = "signal_members sg ts"
  note ok = signal_members_ok [OF assms(2) ts]
  have k: "name_ok ''ticket_id''" "name_ok ''signal_type''" "name_ok ''direction''" "name_ok ''price''" "name_ok ''lot''"
    "name_ok ''sl''" "name_ok ''tp''" by (simp_all add: name_ok_def)
  have m: "map_of ?ms ''ticket_id'' = Some (FormatInt (TicketID sg))" "map_of ?ms ''signal_type'' = Some (string_text (SignalType sg))"
    "map_of ?ms ''direction'' = Some (string_text (Direction sg))" "map_of ?ms ''price'' = Some (json_text (json_float (Price sg)))"
    "map_of ?ms ''lot'' = Some (json_text (json_float (Lot sg)))" "map_of ?ms ''sl'' = map_option (\<lambda>x. json_text (json_float x)) (SL sg)"
    "map_of ?ms ''tp'' = map_option (\<lambda>x. json_text (json_float x)) (TP sg)"
    by (simp_all add: signal_members_def split: option.splits)
  have p: "in64 (TicketID sg)" "unescaped (SignalType sg)" "unescaped (Direction sg)" "carried (Price sg)" "carried (Lot sg)"
    "pred_option carried (SL sg)" "pred_option carried (TP sg)" using assms(2) by (simp_all add: printable_def)
  have "JSONGetRaw (object_text ?ms) ''ticket_id'' = FormatInt (TicketID sg)"
    using JSONGetRaw_member [OF k(1) ok m(1)] number_token(3) [OF integer_chars] by blast
  then have 1: "JSONGetLong (object_text ?ms) ''ticket_id'' = TicketID sg"
    using StringToInteger_FormatInt [OF p(1)] by (simp add: JSONGetLong_def)
  have 2: "JSONGetString (object_text ?ms) ''signal_type'' = SignalType sg" "JSONGetString (object_text ?ms) ''direction'' = Direction sg"
    using JSONGetString_member [OF k(2) ok] JSONGetString_member [OF k(3) ok] m(2,3) p(2,3)
    by (simp_all add: string_text_unescaped unescaped_no_quote)
  have stop: "JSONGetDouble (object_text ?ms) key = (case s of None \<Rightarrow> 0 | Some x \<Rightarrow> x)"
    if "name_ok key" "map_of ?ms key = map_option (\<lambda>x. json_text (json_float x)) s" "pred_option carried s" for key s
    using that JSONGetDouble_member [OF that(1) ok] JSONGetRaw_absent [OF that(1) ok] by (cases s) (auto simp: JSONGetDouble_def)
  show ?thesis unfolding t
    using 1 2 JSONGetDouble_member [OF k(4) ok m(4) p(4)] JSONGetDouble_member [OF k(5) ok m(5) p(5)]
      stop [OF k(6) m(6) p(6)] stop [OF k(7) m(7) p(7)] by blast
qed

text \<open>
  C24: The receivers' text search reads from the answer to a poll what the server has published:
  ticket, type, direction, price and volume, and the stops, \<open>0\<close> where there is none; whatever the other
  members of the document are, and as long as no text needs an escape and every number is zero or
  at least one millionth.
\<close>

theorem receiver_reads_signal:
  assumes "Marshal_signal sg = Some d" and "printable sg"
  shows "JSONGetLong (json_text d) ''ticket_id'' = TicketID sg
    \<and> JSONGetString (json_text d) ''signal_type'' = SignalType sg \<and> JSONGetString (json_text d) ''direction'' = Direction sg
    \<and> JSONGetDouble (json_text d) ''price'' = Price sg \<and> JSONGetDouble (json_text d) ''lot'' = Lot sg
    \<and> JSONGetDouble (json_text d) ''sl'' = (case SL sg of None \<Rightarrow> 0 | Some x \<Rightarrow> x)
    \<and> JSONGetDouble (json_text d) ''tp'' = (case TP sg of None \<Rightarrow> 0 | Some x \<Rightarrow> x)"
  by (rule signal_read [OF assms])

definition published :: InboundSignal where
  "published = \<lparr>TicketID = 7001, SignalType = ''MODIFY'', Symbol = ''sl'', Direction = ''BUY'', Price = 9 / 8, SL = Some 1, TP = None,
     Lot = 1 / 2, Timestamp = zero_time\<rparr>"

theorem receiver_reads_signal_witness:
  "\<exists>d. Marshal_signal published = Some d \<and> JSONGetDouble (json_text d) ''sl'' = 1 \<and> JSONGetDouble (json_text d) ''price'' = 9 / 8
    \<and> JSONGetString (json_text d) ''signal_type'' = ''MODIFY''"
proof -
  have "format_rfc3339 zero_time \<noteq> None" by code_simp
  then obtain d where d: "Marshal_signal published = Some d" by (auto simp: Marshal_signal_def json_time_def published_def)
  have "rnd (9 / 8) = 9 / 8" "rnd 1 = 1" "rnd (1 / 2) = 1 / 2" by code_simp+
  then have "printable published"
    by (simp add: printable_def published_def carried_def is_double_def in64_def min64_def max64_def unescaped_def escape_char_def code_def)
  from receiver_reads_signal [OF d this] d show ?thesis by (auto simp: published_def)
qed

end
