(* ===== verification/Copies.thy ===== *)
theory Copies
  imports Receiver
begin

text \<open>
  What the programs on the copying accounts do with a signal: the trades of
  \<open>mql5/MT5Signal_Receiver.mq5\<close>, its memory of handled signals with the file behind it, and the search
  for the copied trade in \<open>mql4/receiver_ea.mq4\<close>. The lemmas say that a ticket and type is handled once
  a day, over restarts too, and which trades a signal touches.
\<close>

subsection \<open>The terminal\<close>

record ReceiverInputs =
  SymbolToWatch :: string
  LotMultiplier :: rat
  EnableModify :: bool
  EnableClose :: bool
  Magic :: int

record CopyPosition =
  cp_ticket :: int
  cp_symbol :: string
  cp_magic :: int
  cp_comment :: string
  cp_volume :: rat
  cp_buy :: bool

text \<open>One tick sees one state of the terminal; \<open>FileOk\<close> says whether \<open>FileOpen\<close> succeeds.\<close>

record market =
  CopyPositions :: "CopyPosition list"
  VolumeMin :: rat
  VolumeMax :: rat
  VolumeStep :: rat
  Ask :: "string \<Rightarrow> rat"
  Bid :: "string \<Rightarrow> rat"
  TimeCurrent :: int
  FileOk :: bool

datatype TradeAction = TRADE_ACTION_NONE | TRADE_ACTION_DEAL | TRADE_ACTION_SLTP

text \<open>The request of \<open>OrderSend\<close>, without the deviation and the filling mode.\<close>

record MqlTradeRequest =
  tr_action :: TradeAction
  tr_symbol :: string
  tr_volume :: rat
  tr_buy :: bool
  tr_price :: rat
  tr_sl :: rat
  tr_tp :: rat
  tr_comment :: string
  tr_magic :: int
  tr_position :: int

definition empty_request :: MqlTradeRequest where
  "empty_request = \<lparr>tr_action = TRADE_ACTION_NONE, tr_symbol = [], tr_volume = 0, tr_buy = True, tr_price = 0, tr_sl = 0, tr_tp = 0,
     tr_comment = [], tr_magic = 0, tr_position = 0\<rparr>"

subsection \<open>Trades\<close>

definition copy_comment :: "int \<Rightarrow> string" where
  "copy_comment sourceTicket = ''Copy#'' @ IntegerToString sourceTicket"

definition OpenTrade :: "ReceiverInputs \<Rightarrow> market \<Rightarrow> string \<Rightarrow> rat \<Rightarrow> rat \<Rightarrow> rat \<Rightarrow> int \<Rightarrow> MqlTradeRequest" where
  "OpenTrade inp M direction sl tp lot sourceTicket =
     (let lot = max (VolumeMin M) (min (VolumeMax M) (rnd (MathRound (rnd (lot / VolumeStep M)) * VolumeStep M)));
        buy = (direction = ''BUY'') in
      empty_request\<lparr>tr_action := TRADE_ACTION_DEAL, tr_symbol := SymbolToWatch inp, tr_volume := lot, tr_buy := buy,
        tr_price := (if buy then Ask M (SymbolToWatch inp) else Bid M (SymbolToWatch inp)), tr_sl := sl, tr_tp := tp,
        tr_magic := Magic inp, tr_comment := copy_comment sourceTicket\<rparr>)"

text \<open>The loops run from the last position down and return at the first copy they find.\<close>

definition find_copy :: "ReceiverInputs \<Rightarrow> market \<Rightarrow> int \<Rightarrow> CopyPosition option" where
  "find_copy inp M sourceTicket = find (\<lambda>p. cp_magic p = Magic inp \<and> cp_comment p = copy_comment sourceTicket) (rev (CopyPositions M))"

definition ModifyTrade :: "ReceiverInputs \<Rightarrow> market \<Rightarrow> int \<Rightarrow> rat \<Rightarrow> rat \<Rightarrow> MqlTradeRequest list" where
  "ModifyTrade inp M sourceTicket sl tp = (case find_copy inp M sourceTicket of None \<Rightarrow> []
     | Some p \<Rightarrow> [empty_request\<lparr>tr_action := TRADE_ACTION_SLTP, tr_symbol := cp_symbol p, tr_sl := sl, tr_tp := tp, tr_position := cp_ticket p\<rparr>])"

definition closing_request :: "ReceiverInputs \<Rightarrow> market \<Rightarrow> CopyPosition \<Rightarrow> rat \<Rightarrow> MqlTradeRequest" where
  "closing_request inp M p volume = empty_request\<lparr>tr_action := TRADE_ACTION_DEAL, tr_symbol := cp_symbol p, tr_volume := volume,
     tr_buy := \<not> cp_buy p, tr_price := (if cp_buy p then Bid M (cp_symbol p) else Ask M (cp_symbol p)), tr_magic := Magic inp,
     tr_position := cp_ticket p\<rparr>"

definition CloseTrade :: "ReceiverInputs \<Rightarrow> market \<Rightarrow> int \<Rightarrow> MqlTradeRequest list" where
  "CloseTrade inp M sourceTicket = (case find_copy inp M sourceTicket of None \<Rightarrow> []
     | Some p \<Rightarrow> [closing_request inp M p (cp_volume p)])"

definition PartialClose :: "ReceiverInputs \<Rightarrow> market \<Rightarrow> int \<Rightarrow> rat \<Rightarrow> MqlTradeRequest list" where
  "PartialClose inp M sourceTicket newLot = (case find_copy inp M sourceTicket of None \<Rightarrow> []
     | Some p \<Rightarrow> let closeAmount = rnd (cp_volume p - newLot) in
         if closeAmount \<le> 0 then []
         else [closing_request inp M p (rnd (MathRound (rnd (closeAmount / VolumeStep M)) * VolumeStep M))])"

subsection \<open>The memory of handled signals\<close>

record ProcessedSignal =
  pr_ticketID :: int
  pr_signalType :: string
  pr_processedAt :: int

record receiver =
  processedSignals :: "ProcessedSignal list"
  orders :: "MqlTradeRequest list"
  processedFile :: "string list option"

definition IsAlreadyProcessed :: "int \<Rightarrow> string \<Rightarrow> receiver \<Rightarrow> bool" where
  "IsAlreadyProcessed t ty r \<longleftrightarrow> list_ex (\<lambda>s. pr_ticketID s = t \<and> pr_signalType s = ty) (processedSignals r)"

definition processed_row :: "ProcessedSignal \<Rightarrow> string list" where
  "processed_row s = [IntegerToString (pr_ticketID s), pr_signalType s, IntegerToString (pr_processedAt s)]"

definition SaveProcessedSignals :: "market \<Rightarrow> receiver \<Rightarrow> receiver" where
  "SaveProcessedSignals M r = (if FileOk M then r\<lparr>processedFile := Some (concat (map processed_row (processedSignals r)))\<rparr> else r)"

definition CleanupOldSignals :: "market \<Rightarrow> receiver \<Rightarrow> receiver" where
  "CleanupOldSignals M r = (let cutoff = TimeCurrent M - 24 * 3600; kept = filter (\<lambda>s. pr_processedAt s > cutoff) (processedSignals r) in
     if length kept < length (processedSignals r) then SaveProcessedSignals M (r\<lparr>processedSignals := kept\<rparr>) else r)"

definition MarkAsProcessed :: "market \<Rightarrow> int \<Rightarrow> string \<Rightarrow> receiver \<Rightarrow> receiver" where
  "MarkAsProcessed M t ty r = CleanupOldSignals M (SaveProcessedSignals M (r\<lparr>processedSignals := processedSignals r
     @ [\<lparr>pr_ticketID = t, pr_signalType = ty, pr_processedAt = TimeCurrent M\<rparr>]\<rparr>))"

function processed_rows :: "string list \<Rightarrow> ProcessedSignal list" where
  "processed_rows cs = (if cs = [] \<or> hd cs = [] then [] else
     \<lparr>pr_ticketID = StringToInteger (hd cs), pr_signalType = cell 1 cs, pr_processedAt = StringToInteger (cell 2 cs)\<rparr>
       # processed_rows (drop 3 cs))"
  by pat_completeness auto
termination
  by (relation "measure length") auto

declare processed_rows.simps [simp del]

definition LoadProcessedSignals :: "market \<Rightarrow> receiver \<Rightarrow> receiver" where
  "LoadProcessedSignals M r = (case processedFile r of None \<Rightarrow> r
     | Some cs \<Rightarrow> if FileOk M then r\<lparr>processedSignals := processed_rows cs\<rparr> else r)"

text \<open>A start of the program: what is in memory comes from the file.\<close>

definition receiver_OnInit :: "market \<Rightarrow> receiver \<Rightarrow> receiver" where
  "receiver_OnInit M r = LoadProcessedSignals M (r\<lparr>processedSignals := []\<rparr>)"

subsection \<open>One poll\<close>

text \<open>The orders for the signal in a text.\<close>

definition signal_orders :: "ReceiverInputs \<Rightarrow> market \<Rightarrow> string \<Rightarrow> MqlTradeRequest list" where
  "signal_orders inp M json = (let ticketID = JSONGetLong json ''ticket_id''; signalType = JSONGetString json ''signal_type'';
       direction = JSONGetString json ''direction''; sl = JSONGetDouble json ''sl''; tp = JSONGetDouble json ''tp'';
       lot = rnd (JSONGetDouble json ''lot'' * LotMultiplier inp) in
     if signalType = ''OPEN'' then [OpenTrade inp M direction sl tp lot ticketID]
     else if signalType = ''MODIFY'' \<and> EnableModify inp then ModifyTrade inp M ticketID sl tp
     else if signalType = ''CLOSE'' \<and> EnableClose inp then CloseTrade inp M ticketID
     else if signalType = ''PARTIAL'' \<and> EnableClose inp then PartialClose inp M ticketID lot
     else [])"

text \<open>\<open>res\<close> is the result of \<open>WebRequest\<close>: \<open>-1\<close> or the status of the answer, with the text of its body.\<close>

definition PollAndAct :: "ReceiverInputs \<Rightarrow> market \<Rightarrow> int \<Rightarrow> string \<Rightarrow> receiver \<Rightarrow> receiver" where
  "PollAndAct inp M res json r =
     (if res = - 1 then r else if res = 204 then r else if res \<noteq> 200 then r else if json = [] then r
      else let ticketID = JSONGetLong json ''ticket_id''; signalType = JSONGetString json ''signal_type'' in
        if IsAlreadyProcessed ticketID signalType r then r
        else MarkAsProcessed M ticketID signalType (r\<lparr>orders := orders r @ signal_orders inp M json\<rparr>))"

text \<open>What happens to the program: ticks of its timer, and restarts.\<close>

datatype event = Tick market int string | Restart market

fun event_market :: "event \<Rightarrow> market" where
  "event_market (Tick M res json) = M"
| "event_market (Restart M) = M"

fun receiver_event :: "ReceiverInputs \<Rightarrow> event \<Rightarrow> receiver \<Rightarrow> receiver" where
  "receiver_event inp (Tick M res json) r = PollAndAct inp M res json r"
| "receiver_event inp (Restart M) r = receiver_OnInit M r"

definition receiver_run :: "ReceiverInputs \<Rightarrow> event list \<Rightarrow> receiver \<Rightarrow> receiver" where
  "receiver_run inp es r = fold (receiver_event inp) es r"

subsection \<open>The search of the MT4 receiver\<close>

text \<open>It takes an order whose comment contains the digits of the ticket.\<close>

definition StringContains :: "string \<Rightarrow> string \<Rightarrow> bool" where
  "StringContains haystack needle \<longleftrightarrow> StringFind haystack needle 0 \<ge> 0"

definition mt4_find :: "ReceiverInputs \<Rightarrow> market \<Rightarrow> int \<Rightarrow> CopyPosition option" where
  "mt4_find inp M sourceTicket = find (\<lambda>p. cp_magic p = Magic inp \<and> StringContains (cp_comment p) (IntegerToString sourceTicket))
     (rev (CopyPositions M))"

text \<open>The order that \<open>CloseTrade\<close> closes, with the volume it closes.\<close>

definition mt4_CloseTrade :: "ReceiverInputs \<Rightarrow> market \<Rightarrow> int \<Rightarrow> (int \<times> rat) option" where
  "mt4_CloseTrade inp M sourceTicket = map_option (\<lambda>p. (cp_ticket p, cp_volume p)) (mt4_find inp M sourceTicket)"

subsection \<open>The file keeps the memory\<close>

lemma processed_rows_row:
  assumes "in64 (pr_ticketID s)" and "in64 (pr_processedAt s)"
  shows "processed_rows (processed_row s @ cs) = s # processed_rows cs"
proof -
  have "FormatInt n \<noteq> []" for n by (simp add: FormatInt_def)
  then show ?thesis using assms by (subst processed_rows.simps) (simp add: processed_row_def cell_def StringToInteger_FormatInt)
qed

lemma processed_rows_state:
  assumes "\<And>s. s \<in> set ps \<Longrightarrow> in64 (pr_ticketID s) \<and> in64 (pr_processedAt s)"
  shows "processed_rows (concat (map processed_row ps)) = ps"
  using assms
proof (induction ps)
  case Nil
  then show ?case by (subst processed_rows.simps) simp
qed (simp add: processed_rows_row)

text \<open>The file holds what is in memory, and every number fits.\<close>

definition in_sync :: "receiver \<Rightarrow> bool" where
  "in_sync r \<longleftrightarrow> processedFile r = Some (concat (map processed_row (processedSignals r)))
     \<and> (\<forall>s \<in> set (processedSignals r). in64 (pr_ticketID s) \<and> in64 (pr_processedAt s))"

lemma CleanupOldSignals_effect:
  assumes "FileOk M" and "in_sync r"
  shows "in_sync (CleanupOldSignals M r)"
    and "set (processedSignals (CleanupOldSignals M r)) = {s \<in> set (processedSignals r). pr_processedAt s > TimeCurrent M - 24 * 3600}"
proof -
  let ?k = "filter (\<lambda>s. pr_processedAt s > TimeCurrent M - 24 * 3600) (processedSignals r)"
  have c: "CleanupOldSignals M r = (if length ?k < length (processedSignals r)
      then r\<lparr>processedSignals := ?k, processedFile := Some (concat (map processed_row ?k))\<rparr> else r)"
    using assms(1) by (simp add: CleanupOldSignals_def SaveProcessedSignals_def Let_def)
  show "in_sync (CleanupOldSignals M r)" using assms(2) unfolding c by (auto simp: in_sync_def)
  show "set (processedSignals (CleanupOldSignals M r)) = {s \<in> set (processedSignals r). pr_processedAt s > TimeCurrent M - 24 * 3600}"
  proof (cases "length ?k < length (processedSignals r)")
    case True
    then show ?thesis unfolding c by auto
  next
    case False
    have "pr_processedAt s > TimeCurrent M - 24 * 3600" if "s \<in> set (processedSignals r)" for s
      using False length_filter_less [OF that, of "\<lambda>s. pr_processedAt s > TimeCurrent M - 24 * 3600"] by blast
    then show ?thesis unfolding c if_not_P [OF False] by blast
  qed
qed

lemma MarkAsProcessed_effect:
  assumes "FileOk M" and "in_sync r" and "in64 t" and "in64 (TimeCurrent M)"
  shows "in_sync (MarkAsProcessed M t ty r)"
    and "set (processedSignals (MarkAsProcessed M t ty r)) = insert \<lparr>pr_ticketID = t, pr_signalType = ty, pr_processedAt = TimeCurrent M\<rparr>
      {s \<in> set (processedSignals r). pr_processedAt s > TimeCurrent M - 24 * 3600}"
proof -
  let ?r = "SaveProcessedSignals M (r\<lparr>processedSignals := processedSignals r @ [\<lparr>pr_ticketID = t, pr_signalType = ty, pr_processedAt = TimeCurrent M\<rparr>]\<rparr>)"
  have s: "in_sync ?r" using assms by (auto simp: in_sync_def SaveProcessedSignals_def)
  have p: "processedSignals ?r = processedSignals r @ [\<lparr>pr_ticketID = t, pr_signalType = ty, pr_processedAt = TimeCurrent M\<rparr>]"
    by (simp add: SaveProcessedSignals_def)
  show "in_sync (MarkAsProcessed M t ty r)"
    unfolding MarkAsProcessed_def by (rule CleanupOldSignals_effect(1) [OF assms(1) s])
  show "set (processedSignals (MarkAsProcessed M t ty r)) = insert \<lparr>pr_ticketID = t, pr_signalType = ty, pr_processedAt = TimeCurrent M\<rparr>
      {s \<in> set (processedSignals r). pr_processedAt s > TimeCurrent M - 24 * 3600}"
    unfolding MarkAsProcessed_def CleanupOldSignals_effect(2) [OF assms(1) s] p by auto
qed

lemma in64_StringToInteger [simp]: "in64 (StringToInteger s)"
  by (simp add: StringToInteger_def Let_def)

subsection \<open>Handled once a day\<close>

text \<open>A ticket and type that was handled at the time \<open>t0\<close> or later.\<close>

definition handled :: "int \<Rightarrow> int \<Rightarrow> string \<Rightarrow> receiver \<Rightarrow> bool" where
  "handled t0 t ty r \<longleftrightarrow> (\<exists>s \<in> set (processedSignals r). pr_ticketID s = t \<and> pr_signalType s = ty \<and> t0 \<le> pr_processedAt s)"

text \<open>The events of a day: the file opens, and the clock is less than a day ahead of \<open>t0\<close>.\<close>

definition within_day :: "int \<Rightarrow> event \<Rightarrow> bool" where
  "within_day t0 e \<longleftrightarrow> FileOk (event_market e) \<and> in64 (TimeCurrent (event_market e)) \<and> TimeCurrent (event_market e) < t0 + 24 * 3600"

lemma PollAndAct_cases:
  "PollAndAct inp M res json r = r \<or>
     (\<not> IsAlreadyProcessed (JSONGetLong json ''ticket_id'') (JSONGetString json ''signal_type'') r
       \<and> PollAndAct inp M res json r = MarkAsProcessed M (JSONGetLong json ''ticket_id'') (JSONGetString json ''signal_type'')
         (r\<lparr>orders := orders r @ signal_orders inp M json\<rparr>))"
  by (simp add: PollAndAct_def Let_def)

lemma event_handled:
  assumes "within_day t0 e" and "in_sync r" and "handled t0 t ty r"
  shows "in_sync (receiver_event inp e r) \<and> handled t0 t ty (receiver_event inp e r)"
proof (cases e)
  case (Restart M)
  have "receiver_OnInit M r = r"
    using assms processed_rows_state [of "processedSignals r"]
    by (simp add: Restart receiver_OnInit_def LoadProcessedSignals_def in_sync_def within_day_def)
  with Restart assms show ?thesis by simp
next
  case (Tick M res json)
  let ?t = "JSONGetLong json ''ticket_id''" and ?ty = "JSONGetString json ''signal_type''"
  have m: "FileOk M" "in64 (TimeCurrent M)" "TimeCurrent M < t0 + 24 * 3600" using assms(1) by (simp_all add: Tick within_day_def)
  consider "PollAndAct inp M res json r = r" | "PollAndAct inp M res json r = MarkAsProcessed M ?t ?ty (r\<lparr>orders := orders r @ signal_orders inp M json\<rparr>)"
    using PollAndAct_cases by blast
  then show ?thesis
  proof cases
    case 2
    have s: "in_sync (r\<lparr>orders := orders r @ signal_orders inp M json\<rparr>)" using assms(2) by (simp add: in_sync_def)
    have t: "in64 ?t" by (simp add: JSONGetLong_def)
    note e = MarkAsProcessed_effect [OF m(1) s t m(2), of ?ty]
    show ?thesis using e(1) assms(3) m(3) unfolding handled_def by (auto simp: Tick 2 e(2))
  qed (simp add: Tick assms(2,3))
qed

lemma run_handled:
  assumes "\<forall>e \<in> set es. within_day t0 e" and "in_sync r" and "handled t0 t ty r"
  shows "handled t0 t ty (receiver_run inp es r)"
  using assms
proof (induction es arbitrary: r)
  case (Cons e es)
  then have "in_sync (receiver_event inp e r) \<and> handled t0 t ty (receiver_event inp e r)" by (intro event_handled) simp_all
  with Cons show ?case by (simp add: receiver_run_def)
qed (simp add: receiver_run_def)

lemma handled_ignored:
  assumes "handled t0 (JSONGetLong json ''ticket_id'') (JSONGetString json ''signal_type'') r"
  shows "PollAndAct inp M res json r = r"
proof -
  have "IsAlreadyProcessed (JSONGetLong json ''ticket_id'') (JSONGetString json ''signal_type'') r"
    using assms unfolding IsAlreadyProcessed_def handled_def list_ex_iff by blast
  then show ?thesis using PollAndAct_cases by blast
qed

text \<open>
  C14: A receiver trades a ticket and type at most once a day: after a tick that handled a signal,
  and whatever else happens within 24 hours, restarts of the program included as long as the state
  file opens, a poll that brings a signal with the same ticket and type sends no order and changes
  nothing, whatever its stops, price or volume. So of two MODIFY signals of a position the second is
  dropped, and the copy keeps the first stop.
\<close>

theorem second_signal_ignored:
  assumes "in_sync r" and "FileOk M" and "in64 (TimeCurrent M)" and "res = 200" and "json \<noteq> []"
    and "\<not> IsAlreadyProcessed (JSONGetLong json ''ticket_id'') (JSONGetString json ''signal_type'') r"
    and "\<forall>e \<in> set es. within_day (TimeCurrent M) e"
    and "JSONGetLong json' ''ticket_id'' = JSONGetLong json ''ticket_id''"
    and "JSONGetString json' ''signal_type'' = JSONGetString json ''signal_type''"
  shows "receiver_run inp (Tick M res json # es @ [Tick M' res' json']) r = receiver_run inp (Tick M res json # es) r
    \<and> IsAlreadyProcessed (JSONGetLong json ''ticket_id'') (JSONGetString json ''signal_type'') (receiver_run inp (Tick M res json # es) r)"
proof -
  let ?t = "JSONGetLong json ''ticket_id''" and ?ty = "JSONGetString json ''signal_type''" and ?r = "PollAndAct inp M res json r"
  have p: "?r = MarkAsProcessed M ?t ?ty (r\<lparr>orders := orders r @ signal_orders inp M json\<rparr>)"
    using assms(4-6) by (simp add: PollAndAct_def Let_def)
  have s: "in_sync (r\<lparr>orders := orders r @ signal_orders inp M json\<rparr>)" using assms(1) by (simp add: in_sync_def)
  have t: "in64 ?t" by (simp add: JSONGetLong_def)
  note e = MarkAsProcessed_effect [OF assms(2) s t assms(3), of ?ty]
  have h: "handled (TimeCurrent M) ?t ?ty ?r" unfolding p handled_def e(2) by (intro bexI [OF _ insertI1]) simp
  have "in_sync ?r" unfolding p by (rule e(1))
  from run_handled [OF assms(7) this h] have r: "handled (TimeCurrent M) ?t ?ty (receiver_run inp es ?r)" .
  then have "PollAndAct inp M' res' json' (receiver_run inp es ?r) = receiver_run inp es ?r"
    using handled_ignored [where json = json'] assms(8,9) by metis
  then show ?thesis using r unfolding receiver_run_def IsAlreadyProcessed_def handled_def by (auto simp: list_ex_iff)
qed

definition demo_inputs :: ReceiverInputs where
  "demo_inputs = \<lparr>SymbolToWatch = ''EURUSD'', LotMultiplier = 1, EnableModify = True, EnableClose = True, Magic = 88001\<rparr>"

definition copy_of :: "int \<Rightarrow> int \<Rightarrow> CopyPosition" where
  "copy_of n t = \<lparr>cp_ticket = n, cp_symbol = ''EURUSD'', cp_magic = 88001, cp_comment = copy_comment t, cp_volume = 1 / 2, cp_buy = True\<rparr>"

definition demo_market :: "CopyPosition list \<Rightarrow> market" where
  "demo_market ps = \<lparr>CopyPositions = ps, VolumeMin = 1 / 100, VolumeMax = 100, VolumeStep = 1 / 100, Ask = (\<lambda>s. 9 / 8), Bid = (\<lambda>s. 9 / 8),
     TimeCurrent = 1767225600, FileOk = True\<rparr>"

definition modify_text :: "string \<Rightarrow> string" where
  "modify_text sl = object_text [(''ticket_id'', ''7001''), (''signal_type'', CHR 0x22 # ''MODIFY'' @ [CHR 0x22]), (''sl'', sl)]"

definition fresh_receiver :: receiver where
  "fresh_receiver = \<lparr>processedSignals = [], orders = [], processedFile = Some []\<rparr>"

theorem second_signal_ignored_witness:
  "let M = demo_market [copy_of 1 7001]; run = receiver_run demo_inputs [Tick M 200 (modify_text ''1.5''), Restart M, Tick M 200 (modify_text ''1.25'')] fresh_receiver
   in map (\<lambda>q. (tr_position q, tr_sl q)) (orders run) = [(1, 3 / 2)]"
proof -
  let ?M = "demo_market [copy_of 1 7001]" and ?j = "modify_text ''1.5''" and ?k = "modify_text ''1.25''"
  have j: "JSONGetLong ?j ''ticket_id'' = 7001" "JSONGetString ?j ''signal_type'' = ''MODIFY''" "JSONGetLong ?k ''ticket_id'' = 7001"
    "JSONGetString ?k ''signal_type'' = ''MODIFY''" "JSONGetDouble ?j ''sl'' = 3 / 2" by code_simp+
  have m: "TimeCurrent ?M = 1767225600" "FileOk ?M" "CopyPositions ?M = [copy_of 1 7001]" by (simp_all add: demo_market_def)
  have n: "?j \<noteq> []" by (simp add: modify_text_def object_text_def)
  have i: "in64 (TimeCurrent ?M)" unfolding m by (simp add: in64_def min64_def max64_def)
  have u: "in_sync fresh_receiver" "\<not> IsAlreadyProcessed t ty fresh_receiver" for t ty
    by (simp_all add: in_sync_def fresh_receiver_def IsAlreadyProcessed_def)
  have w: "\<forall>e \<in> set [Restart ?M]. within_day (TimeCurrent ?M) e" using i by (simp add: within_day_def m)
  have f: "find_copy demo_inputs ?M 7001 = Some (copy_of 1 7001)" unfolding find_copy_def m by (simp add: copy_of_def demo_inputs_def)
  have o: "orders (SaveProcessedSignals M r) = orders r" "orders (CleanupOldSignals M r) = orders r" for M r
    by (simp_all add: SaveProcessedSignals_def CleanupOldSignals_def Let_def)
  have e: "orders (PollAndAct demo_inputs ?M 200 ?j fresh_receiver) = ModifyTrade demo_inputs ?M 7001 (3 / 2) (JSONGetDouble ?j ''tp'')"
    using n u(2) by (simp add: PollAndAct_def signal_orders_def j MarkAsProcessed_def o Let_def demo_inputs_def fresh_receiver_def)
  have "map (\<lambda>q. (tr_position q, tr_sl q)) (orders (PollAndAct demo_inputs ?M 200 ?j fresh_receiver)) = [(1, 3 / 2)]"
    unfolding e ModifyTrade_def f by (simp add: copy_of_def)
  then have "map (\<lambda>q. (tr_position q, tr_sl q)) (orders (receiver_run demo_inputs [Tick ?M 200 ?j, Restart ?M] fresh_receiver)) = [(1, 3 / 2)]"
    by (simp add: receiver_run_def receiver_OnInit_def LoadProcessedSignals_def split: option.splits)
  then show ?thesis
    using second_signal_ignored [OF u(1) m(2) i refl n u(2) w, of ?k demo_inputs ?M 200] j(1-4) by (simp add: Let_def)
qed

subsection \<open>Which trades a signal touches\<close>

lemma copy_comment_inj: "copy_comment t = copy_comment t' \<longleftrightarrow> t = t'"
  using FormatInt_inj by (auto simp: copy_comment_def)

lemma find_copy_Some:
  "find_copy inp M t = Some p \<Longrightarrow> p \<in> set (CopyPositions M) \<and> cp_magic p = Magic inp \<and> cp_comment p = copy_comment t"
  unfolding find_copy_def find_Some_iff by (metis nth_mem set_rev)

lemma find_text_Contains: "find_text s p \<noteq> None \<longleftrightarrow> Contains s p"
  by (induction s) (auto simp: HasPrefix_def)

lemma StringContains_Contains: "StringContains s p \<longleftrightarrow> Contains s p"
  using find_text_Contains [of s p] by (auto simp: StringContains_def StringFind_def split: option.splits)

lemma Contains_append: "Contains s p \<Longrightarrow> Contains (t @ s) p"
  by (induction t) simp_all

text \<open>
  C27: A MODIFY, CLOSE or PARTIAL signal of a ticket makes the MT5 receiver touch at most one trade,
  and that is a copy of exactly this ticket that the program itself has opened. The MT4 receiver
  closes another trade instead if the digits of the ticket occur in the ticket of a copy that comes
  later in its list.
\<close>

theorem copies_touched:
  assumes "cp_magic p = Magic inp" and "cp_comment p = copy_comment t'" and "Contains (FormatInt t') (FormatInt t)"
  shows "(\<forall>q \<in> set (ModifyTrade inp M t sl tp @ CloseTrade inp M t @ PartialClose inp M t lot).
       \<exists>c \<in> set (CopyPositions M). tr_position q = cp_ticket c \<and> cp_magic c = Magic inp
         \<and> (\<forall>u. cp_comment c = copy_comment u \<longleftrightarrow> u = t))
    \<and> length (ModifyTrade inp M t sl tp) \<le> 1 \<and> length (CloseTrade inp M t) \<le> 1 \<and> length (PartialClose inp M t lot) \<le> 1
    \<and> mt4_CloseTrade inp (M\<lparr>CopyPositions := ps @ [p]\<rparr>) t = Some (cp_ticket p, cp_volume p)"
proof -
  have "Contains (cp_comment p) (FormatInt t)" unfolding assms(2) copy_comment_def by (rule Contains_append [OF assms(3)])
  then have m: "mt4_CloseTrade inp (M\<lparr>CopyPositions := ps @ [p]\<rparr>) t = Some (cp_ticket p, cp_volume p)"
    by (simp add: mt4_CloseTrade_def mt4_find_def StringContains_Contains assms(1))
  show ?thesis
  proof (cases "find_copy inp M t")
    case None
    then show ?thesis using m by (simp add: ModifyTrade_def CloseTrade_def PartialClose_def)
  next
    case (Some c)
    have c: "c \<in> set (CopyPositions M)" "cp_magic c = Magic inp" "\<forall>u. cp_comment c = copy_comment u \<longleftrightarrow> u = t"
      using find_copy_Some [OF Some] copy_comment_inj by auto
    have "tr_position q = cp_ticket c" if "q \<in> set (ModifyTrade inp M t sl tp @ CloseTrade inp M t @ PartialClose inp M t lot)" for q
      using that by (auto simp: ModifyTrade_def CloseTrade_def PartialClose_def Some closing_request_def Let_def split: if_splits)
    then show ?thesis using c m by (auto simp: ModifyTrade_def CloseTrade_def PartialClose_def Some Let_def)
  qed
qed

theorem copies_touched_witness:
  "map tr_position (CloseTrade demo_inputs (demo_market [copy_of 1 12, copy_of 2 123]) 12) = [1]
   \<and> mt4_CloseTrade demo_inputs (demo_market [copy_of 1 12, copy_of 2 123]) 12 = Some (2, 1 / 2)"
proof -
  let ?M = "demo_market [copy_of 1 12, copy_of 2 123]"
  have c: "cp_magic (copy_of n t) = Magic demo_inputs" "cp_comment (copy_of n t) = copy_comment t" "cp_volume (copy_of n t) = 1 / 2"
    "cp_ticket (copy_of n t) = n" for n t
    by (simp_all add: copy_of_def demo_inputs_def)
  have d: "Contains (FormatInt 123) (FormatInt 12)" by code_simp
  have M: "?M\<lparr>CopyPositions := [copy_of 1 12] @ [copy_of 2 123]\<rparr> = ?M" by (simp add: demo_market_def)
  have t: "mt4_CloseTrade demo_inputs (?M\<lparr>CopyPositions := [copy_of 1 12] @ [copy_of 2 123]\<rparr>) 12
      = Some (cp_ticket (copy_of 2 123), cp_volume (copy_of 2 123))"
    using copies_touched [OF c(1,2) d] by blast
  have "find_copy demo_inputs ?M 12 = Some (copy_of 1 12)"
    by (simp add: find_copy_def demo_market_def c copy_comment_inj)
  then have "CloseTrade demo_inputs ?M 12 = [closing_request demo_inputs ?M (copy_of 1 12) (1 / 2)]" by (simp add: CloseTrade_def c)
  then show ?thesis using t unfolding M c by (simp add: closing_request_def c)
qed

end
