(* ===== verification/Journey.thy ===== *)
theory Journey
  imports Tickets Copies
begin

text \<open>
  A signal from the terminal of the sender to the terminal of a receiver: what the monitor posts, what
  the server makes of it, what it publishes, and what the receiver does with the text it polls. The
  lemmas say that a call of \<open>SendSignal\<close> with ordinary numbers fits every hop: the checks of the
  server, the columns of the table, the JSON that is published and the text search of the receiver.
\<close>

subsection \<open>Ordinary prices and volumes\<close>

definition ordinary :: "rat \<Rightarrow> bool" where
  "ordinary v \<longleftrightarrow> 1 / 1000 \<le> v \<and> v \<le> 10 ^ 9"

context mql_numbers
begin

lemma printed_double: "0 \<le> v \<Longrightarrow> is_double (printed DoubleToString v d)"
  by (metis decimal_of is_double_rnd)

lemma printed_ordinary:
  assumes "ordinary v" and "4 \<le> d"
  shows "carried (printed DoubleToString v d)" and "printed DoubleToString v d \<le> 2 * 10 ^ 9" and "0 < printed DoubleToString v d"
proof -
  have v: "1 / 1000 \<le> v" "v \<le> 10 ^ 9" "0 \<le> v"
    using assms(1) by (auto simp: ordinary_def intro: order_trans [of 0 "1 / 1000"])
  let ?x = "printed DoubleToString v d"
  have "(2 :: rat) * 10 ^ 4 \<le> 2 * 10 ^ d" using assms(2) by (intro mult_left_mono power_increasing) simp_all
  then have "1 / (2 * 10 ^ d) \<le> (1 / (2 * 10 ^ 4) :: rat)" by (intro divide_left_mono) simp_all
  then have "\<bar>?x - v\<bar> \<le> 1 / (2 * 10 ^ 4) + 1 / 4000000" using printed_near [OF v(3,2), of d] by linarith
  then have x: "\<bar>?x - v\<bar> \<le> 1 / 10000" by simp
  have "1 / 1000000 \<le> ?x" "?x \<le> 2 * 10 ^ 9" using x v(1,2) unfolding abs_le_iff by simp_all
  then show "carried ?x" "?x \<le> 2 * 10 ^ 9" "0 < ?x"
    using printed_double [OF v(3)] by (auto simp: carried_def intro: less_le_trans [rotated])
qed

end

lemma numeric_ok_ordinary:
  assumes "0 \<le> x" and "x \<le> 2 * 10 ^ 9" and "p \<le> 8"
  shows "numeric_ok p x"
proof -
  let ?n = "\<lfloor>x * 10 ^ p + 1 / 2\<rfloor>"
  have n: "0 \<le> ?n" "of_int ?n \<le> x * 10 ^ p + 1 / 2" using assms(1) by simp_all
  have "\<bar>numeric_round p x\<bar> \<le> of_int ?n / 10 ^ p"
    using assms(1) n(1) by (auto simp: numeric_round_def sgn_if)
  also have "\<dots> \<le> (x * 10 ^ p + 1 / 2) / 10 ^ p" using n(2) by (intro divide_right_mono) simp_all
  also have "\<dots> = x + 1 / (2 * 10 ^ p)" by (simp add: field_simps)
  also have "\<dots> \<le> 2 * 10 ^ 9 + 1"
  proof (rule add_mono [OF assms(2)])
    have "(1 :: rat) \<le> 10 ^ p" by simp
    then have "(1 :: rat) \<le> 2 * 10 ^ p" by linarith
    then show "1 / (2 * 10 ^ p) \<le> (1 :: rat)" by (simp add: divide_le_eq)
  qed
  also have "\<dots> < 10 ^ 12" by simp
  also have "(10 :: rat) ^ 12 \<le> 10 ^ (20 - p)" using assms(3) by (intro power_increasing) simp_all
  finally show ?thesis by (simp add: numeric_ok_def)
qed

lemma float_ok_ordinary: "0 \<le> x \<Longrightarrow> x \<le> 2 * 10 ^ 9 \<Longrightarrow> float_ok x"
proof -
  assume x: "0 \<le> x" "x \<le> 2 * 10 ^ 9"
  have "0 \<le> \<lfloor>x\<rfloor>" "\<lfloor>x\<rfloor> \<le> 2 * 10 ^ 9" using x floor_mono [OF x(2)] by simp_all
  then show ?thesis unfolding float_ok_def by (intro impI float_of_int_exact) simp
qed

lemma time_ok_utc:
  assumes "0 \<le> t" and "t < 253402300800 * Second"
  shows "time_ok \<lparr>inst = t, zone = 0\<rparr>"
proof -
  have s: "0 \<le> t div Second" "t div Second < 253402300800"
    using assms unfolding Second_def by simp_all
  obtain y m d where c: "civil (t div Second div 86400 + epoch_day) = (y, m, d)" by (metis prod_cases3)
  show ?thesis using civil_year [OF s c] by (simp add: time_ok_def format_rfc3339_def c Let_def)
qed

subsection \<open>The signal of a call\<close>

text \<open>The letters that neither JSON nor \<open>json.Marshal\<close> escapes.\<close>

definition symbol_char :: "char \<Rightarrow> bool" where
  "symbol_char c \<longleftrightarrow> plain_char c \<and> c \<notin> set '' <>&''"

lemma symbol_char_escape: "symbol_char c \<Longrightarrow> escape_char c = [c]"
proof -
  assume s: "symbol_char c"
  then have "\<not> code c < 32" by (simp add: symbol_char_def plain_char_def)
  moreover have "c \<noteq> CHR 0x0A" "c \<noteq> CHR 0x0D" "c \<noteq> CHR 0x09" "c \<noteq> CHR 0x08" "c \<noteq> CHR 0x0C" 
    using \<open>\<not> code c < 32\<close> by (auto simp: code_def)
  ultimately show ?thesis using s by (simp add: symbol_char_def plain_char_def escape_char_def)
qed

lemma symbol_char_upper: "symbol_char c \<Longrightarrow> symbol_char (upper_char c)"
proof -
  assume s: "symbol_char c"
  have "of_char (upper_char c) \<noteq> (of_char d :: nat)" if d: "d \<in> set '' <>&''" for d
  proof
    assume u: "of_char (upper_char c) = (of_char d :: nat)"
    have "of_char d \<in> {32, 60, 62, 38 :: nat}" using d by auto
    then have "of_char c = (of_char d :: nat)" using u unfolding upper_char_code by (auto split: if_splits)
    then have "c = d" by (simp only: of_char_eq_iff)
    with s d show False by (simp add: symbol_char_def)
  qed
  then have "upper_char c \<notin> set '' <>&''" by blast
  with s plain_upper show ?thesis unfolding symbol_char_def by blast
qed

lemma monitor_symbol_unescaped: "list_all symbol_char s \<Longrightarrow> unescaped (monitor_symbol s)"
  using symbol_char_upper symbol_char_escape
  by (auto simp: unescaped_def monitor_symbol_def StringSubstr_def ToUpper_def Let_def list_all_iff dest: in_set_takeD)

text \<open>The calls of \<open>SendSignal\<close> for which the way to the copies is followed.\<close>

definition tradable :: "SignalCall \<Rightarrow> bool" where
  "tradable c \<longleftrightarrow> 0 < sc_ticket c \<and> sc_ticket c < 2 ^ 63
     \<and> sc_type c \<in> {SignalOpen, SignalModify, SignalClose, SignalPartial} \<and> sc_direction c \<in> {''BUY'', ''SELL''}
     \<and> sc_symbol c \<noteq> [] \<and> hd (sc_symbol c) \<noteq> CHR ''.'' \<and> list_all symbol_char (sc_symbol c)
     \<and> ordinary (sc_price c) \<and> ordinary (sc_lot c) \<and> (sc_sl c \<le> 0 \<or> ordinary (sc_sl c)) \<and> (sc_tp c \<le> 0 \<or> ordinary (sc_tp c))"

lemma tradable_proper: "tradable c \<Longrightarrow> proper_call c"
proof -
  assume t: "tradable c"
  then have s: "list_all plain_char (sc_symbol c)" "CHR '' '' \<notin> set (sc_symbol c)"
    by (auto simp: tradable_def symbol_char_def list_all_iff)
  have "1 / (2 * 10 ^ 8) < v" "1 / (2 * 10 ^ 4) < v" if "ordinary v" for v
    using that by (auto simp: ordinary_def intro: less_le_trans [rotated])
  with t s show ?thesis by (auto simp: tradable_def proper_call_def)
qed

lemma sent_carried:
  fixes gmt :: int
  assumes "mql_numbers dts" and "tradable c"
  defines "sg \<equiv> sent_signal dts gmt c"
  shows "\<forall>x \<in> {Price sg, Lot sg} \<union> set_option (SL sg) \<union> set_option (TP sg). carried x \<and> 0 \<le> x \<and> x \<le> 2 * 10 ^ 9"
proof -
  have p: "carried (printed dts v d) \<and> 0 \<le> printed dts v d \<and> printed dts v d \<le> 2 * 10 ^ 9" if "ordinary v" "4 \<le> d" for v d
    using mql_numbers.printed_ordinary [OF assms(1) that] by simp
  then show ?thesis using assms(2) unfolding sg_def sent_signal_def tradable_def by auto
qed

lemma sent_printable:
  assumes "mql_numbers dts" and "tradable c"
  shows "printable (sent_signal dts gmt c)"
proof -
  have t: "list_all symbol_char (sc_type c)" "list_all symbol_char (sc_direction c)"
    using assms(2) by (auto simp: tradable_def signal_types symbol_char_def plain_char_def code_def)
  then have "unescaped (sc_type c)" "unescaped (sc_direction c)"
    using symbol_char_escape by (auto simp: unescaped_def list_all_iff)
  moreover have "unescaped (monitor_symbol (sc_symbol c))" using monitor_symbol_unescaped assms(2) by (simp add: tradable_def)
  ultimately show ?thesis using sent_carried [OF assms, of gmt]
    by (auto simp: printable_def sent_signal_def)
qed

lemma sent_fits:
  assumes "mql_numbers dts" and "tradable c" and "0 \<le> gmt" and "gmt < 253402300800"
    and "partition_start \<le> clock w" and "clock w < partition_end" and "new_uuid E (seed w) \<notin> sr_id ` set (signals t)"
  shows "row_fits (new_uuid E (seed w)) (clock w) (sent_signal dts gmt c) t"
    and "job_ok (first_job E w (sent_signal dts gmt c))"
proof -
  note x = sent_carried [OF assms(1,2), of gmt]
  show "row_fits (new_uuid E (seed w)) (clock w) (sent_signal dts gmt c) t"
    using x assms(5-7) numeric_ok_ordinary by (auto simp: row_fits_def numeric_opt_ok_def split: option.splits)
  have p: "partition_start = 1735689600 * Second" "partition_end = 1830297600 * Second" by code_simp+
  have "time_ok \<lparr>inst = gmt * Second, zone = 0\<rparr>" "time_ok \<lparr>inst = clock w, zone = 0\<rparr>"
    using assms(3-6) unfolding p by (auto intro!: time_ok_utc simp: Second_def)
  moreover have "in64 0" by code_simp
  ultimately show "job_ok (first_job E w (sent_signal dts gmt c))"
    using x float_ok_ordinary by (auto simp: job_ok_def first_job_def signal_ok_def sent_signal_def)
qed

lemma signal_text_neq_Nil: "Marshal_signal sg = Some d \<Longrightarrow> json_text d \<noteq> []"
  by (metis signal_text object_text_def list.distinct(1))

subsection \<open>From terminal to terminal\<close>



end
