(* ===== verification/Spec2Isabelle.thy ===== *)
theory Spec2Isabelle
  imports Traffic Overlap Progress Lifecycle Quoting Journey
begin

text \<open>
  Tradecast broadcasts the trades of a MetaTrader account. \<open>cmd/server\<close> takes signed signals
  (\<open>POST /signal\<close>), stores them in Postgres, publishes the latest one per symbol in Redis and puts a
  job in the queue of the symbol; receivers poll \<open>GET /pending/{symbol}\<close>; an administration API
  behind JWT tokens manages keys, machines, subscribers and symbols. \<open>cmd/worker\<close> runs one consumer
  per watched symbol, which hands every job to the notification handlers. The signals come from an
  expert program in the sender's trading terminal (\<open>mql5/MT5Signal_Monitor.mq5\<close>), which compares the
  open positions with those it knows at every tick of a timer, and end in the terminals of the
  receivers (\<open>mql5/MT5Signal_Receiver.mq5\<close>), which poll and copy the trades. This library models the
  Go code of the repository and the two expert programs, and proves what the parts guarantee, and
  where they do not.

  \<^bold>\<open>How the code is represented.\<close> Stateful code is a computation in the state monad over \<open>world\<close>
  (\<open>World\<close>): two Redis servers, the database, the clock, a counter for what is drawn (UUIDs, random
  numbers, HTTP answers), the goroutines started and the requests sent. Everything that is not
  code of the repository is a field of the environment \<open>env\<close>, an argument of every operation; the
  locale \<open>deployment\<close> puts together what is documented of it: \<open>critical_redis\<close> and \<open>lru_redis\<close>
  (the second may evict at any command), \<open>postgres\<close>, \<open>uuid_text\<close>, \<open>jwt_library\<close>. Every call of a
  service may fail, before or after it has been executed; theorems that need an answer say so
  (\<open>reliable_db\<close>, \<open>reliable_crit\<close>, \<open>reliable_cache\<close>). The locales are interpreted on reference
  servers with and without faults (\<open>mem_env\<close>, \<open>calm_env\<close>), on which the witnesses run. Errors are
  values of \<open>goerr\<close>; Go's integers are \<open>int\<close> with the wrap-around or saturation of 64 bits written
  out; a \<open>float64\<close> is its exact rational value; times are nanoseconds since the Unix epoch; JSON is
  a syntax tree. A guarded handler takes the key or the claims as an argument where the code puts
  them in the request context.

  \<^bold>\<open>Theories and sources.\<close>
  \<^item> \<open>Prelude\<close>: errors, 64-bit integers, the rules \<open>hoare\<close> for the state monad.
  \<^item> \<open>GoStrings\<close>, \<open>GoTime\<close>, \<open>Crypto\<close>, \<open>Json\<close>: what is used of Go's standard library (\<open>strings\<close>,
    \<open>strconv\<close>, \<open>time\<close> with RFC 3339, SHA-256, HMAC, hex, base64, \<open>encoding/json\<close>).
  \<^item> \<open>Wire\<close>: the JSON of signals, jobs and cached keys, with their round trips.
  \<^item> \<open>Service\<close>, \<open>Redis\<close>, \<open>Postgres\<close>, \<open>Jwt\<close>, \<open>World\<close>: the services and the environment.
  \<^item> \<open>CacheLayer\<close>: \<open>internal/cache/cache.go\<close>; \<open>Store\<close>: \<open>internal/store/store.go\<close>; \<open>Config\<close>:
    \<open>internal/config/config.go\<close>.
  \<^item> \<open>Signature\<close>, \<open>Auth\<close>, \<open>AuthFacts\<close>: \<open>internal/auth/auth.go\<close>.
  \<^item> \<open>SignalHandler\<close>: \<open>internal/signal/handler.go\<close>.
  \<^item> \<open>Queue\<close>, \<open>Backoff\<close>, \<open>QueueMachine\<close>: \<open>internal/queue/consumer.go\<close>.
  \<^item> \<open>Notify\<close>: \<open>internal/notify/telegram\<close>, \<open>webhook\<close>, \<open>whatsapp\<close>, \<open>mt4copier\<close>.
  \<^item> \<open>Symbols\<close>: \<open>internal/symbols/manager.go\<close>; \<open>Admin\<close>: \<open>internal/admin/admin.go\<close>.
  \<^item> \<open>Server\<close>: \<open>cmd/server/main.go\<close>, \<open>cmd/worker/main.go\<close>, \<open>internal/health/health.go\<close>.
  \<^item> Of several components together: \<open>Progress\<close> (a job from its queue to the delivery log), \<open>Integrity\<close>
    (the tables in every reachable state), \<open>Traffic\<close> (the queues and the published signals), \<open>Overlap\<close>
    (requests at the same time), \<open>Lifecycle\<close> (\<open>main\<close> of the server, panics), \<open>Quoting\<close> (the bytes of an
    error answer).
  \<^item> \<open>Float64\<close>, \<open>JsonText\<close>, \<open>Terminal\<close>: rounding to a \<open>double\<close>, how a JSON text is read, and what is
    used of the MQL library (texts, numbers, times, arrays, files).
  \<^item> \<open>Monitor\<close>, \<open>Tickets\<close>: \<open>mql5/MT5Signal_Monitor.mq5\<close>, the signed request and the scan of the positions.
  \<^item> \<open>Receiver\<close>, \<open>Copies\<close>: \<open>mql5/MT5Signal_Receiver.mq5\<close>, the reading of the polled text and the copying
    of the trades; the search for a copied order of \<open>mql4/receiver_ea.mq4\<close>.
  \<^item> \<open>Journey\<close>: a signal from the monitor through the server to the orders of a receiver.
  Definitions keep the names of the Go functions. Where two packages use one name, the theory
  tells them apart (\<open>Store.AddSymbol\<close>, \<open>Queue.AddSymbol\<close>, \<open>Admin.AddSymbol\<close>).

  \<^bold>\<open>What is shown.\<close>
  \<^item> Access: what a request without a token cannot change, which requests reach a handler behind an
    API key, that key validation always says what the tables say (over any run of the server),
    that revocation is immediate and an issued key works; the failure counter, and how a client
    chooses it; that a refresh token is accepted as an access token.
  \<^item> Signals: which signatures and timestamps are accepted, that only a valid signed signal changes
    anything, that an accepted one is stored, published and queued once, and is what polling
    returns; that a repetition is answered as a duplicate, even after a storage error, and that of
    deliveries that overlap one at most passes.
  \<^item> Jobs: the consumer refines a queue machine under crashes and cleanups, no job is lost from
    sight; yet a job that fails with attempts left is discarded one round later and no dead letter
    is ever written with two retries or more; the loop ends with its context.
    A running consumer serves the waiting jobs in order and empties the queue.
  \<^item> Notifications: a run of a handler writes nothing but the delivery log, and there one final row
    per addressed subscriber; so an accepted signal reaches every addressed subscriber as soon as
    the consumer of its symbol has served the jobs before it.
  \<^item> Store: rotation is atomic, migrations run once, a machine limit is kept by registrations that
    do not overlap and broken by two that do; scopes survive the database unless they hold a comma.
    The tables stay well typed over every run of the server and the worker together; so does the
    critical Redis: a job is only found in the queue of its own symbol, and what is polled under a
    symbol is a valid signal of that symbol.
  \<^item> Symbols: one consuming goroutine per watched symbol, the administration's changes followed at
    the next sync, twelve default symbols when none is left.
  \<^item> Process: the server answers only once it is configured, connected and migrated; a handler panics
    on a token without an expiry and on nothing else; the error answers are JSON unless a control
    character is quoted in them.
  \<^item> Bounds: durations and waiting times at the edges of 64 bits.
  \<^item> Expert programs: the signature of the monitor is that of the server for secrets of up to 64
    bytes, and the server takes every signal of a proper position; a tick of the monitor reports
    each difference between the account and its list once and leaves the list equal to the
    account; a restart reports nothing again, but a position closed while the monitor is down is
    never reported closed. The receiver reads from the published text the signal that was
    published; it acts on a ticket and type once, so that a second change of a position within a
    day is dropped; the orders of the MT5 receiver name its own copy of the source position, and
    the MT4 receiver may close another. Put together with the server: the call that the monitor makes
    for a position is the action that a receiver takes after its next poll.

  \<^bold>\<open>Loops.\<close> The cursor loop of \<open>InvalidateMachineCache\<close>, the consumer and the manager are partial
  functions; that the last two return once their context is cancelled is proved
  (\<open>consumeSymbol_stops\<close>, \<open>manager_stops\<close>), the first depends on the server. The readers of the
  state files end with the file (a measure). The only fuel is that of \<open>json_value\<close>, the length of
  the text, and every call consumes a character.

  \<^bold>\<open>Not modelled.\<close> Logging (but for the request line), the headers that \<open>net/http\<close> adds by itself,
  timeouts of contexts inside an operation, the time an operation takes (the clock moves only when
  the code sleeps, waits or blocks), and what \<open>net/http\<close> does while it listens and shuts down
  (\<open>server_main\<close> takes the requests it has accepted). Requests are served one after the other;
  overlapping is modelled where a property is about it (\<open>machine_limit_race\<close>, \<open>overlap\<close>, \<open>qstep\<close>). Texts are
  byte strings and case folding is that of ASCII. Postgres' rounding of times to microseconds is
  left out. The mux redirects and error pages are markers, not texts. Of the expert programs:
  what they print, the deviation and the filling mode of an order, texts outside ASCII, and a state
  file that is written by two programs. The rest of the MT4 programs is left out: the monitor signs
  with \<open>CRYPT_HASH_SHA256_HMAC\<close>, a constant that the documentation of MQL4 does not have. The
  dashboard, a page that shows what the administration API answers, and the deployment files are
  left out.
\<close>

section \<open>Properties that span components\<close>

text \<open>
  C1: Without a valid administrator token a request changes no table but the signals and the
  machine registrations, the signals only through POST /signal and the registrations only through
  GET /pending; every administration endpoint, and the logout, answers it 401 and leaves the
  tables and the critical server as they were.
\<close>

theorem requests_guarded:
  assumes "deployment E ac al ad D" and "token_refused E cfg r w"
    and "run_state (serve E cfg r) w = ((resp, l), w')"
  shows "ad (pg w') = (ad (pg w))\<lparr>signals := signals (ad (pg w')), key_machines := key_machines (ad (pg w'))\<rparr>
    \<and> (case routed r of None \<Rightarrow> w' = w
       | Some (ep, vals) \<Rightarrow>
           if admin_endpoint ep \<or> ep = AuthLogout then status resp = 401 \<and> ad (pg w') = ad (pg w) \<and> crit w' = crit w
           else (signals (ad (pg w')) \<noteq> signals (ad (pg w)) \<longrightarrow> ep = SignalIn)
             \<and> (key_machines (ad (pg w')) \<noteq> key_machines (ad (pg w)) \<longrightarrow> ep = Pending))"
proof (cases "routed r")
  case None
  then show ?thesis using serve_cases [OF assms(3)] by simp
next
  case (Some ev)
  obtain ep vals where ev: "ev = (ep, vals)" by (cases ev)
  obtain resp0 where h0: "run_state (endpoint_handler E cfg ep (r\<lparr>rq_value := path_value vals\<rparr>)) w = (resp0, w')"
    and st: "status resp = status resp0" using serve_cases [OF assms(3)] Some ev by auto
  have "token_refused E cfg (r\<lparr>rq_value := path_value vals\<rparr>) w" using assms(2) by simp
  from deployment.endpoint_guarded [OF assms(1) this h0] have g: "if admin_endpoint ep \<or> ep = AuthLogout then status resp = 401 \<and> ad (pg w') = ad (pg w) \<and> crit w' = crit w
    else if ep = SignalIn then (ad (pg w'))\<lparr>signals := []\<rparr> = (ad (pg w))\<lparr>signals := []\<rparr>
    else if ep = Pending then (ad (pg w'))\<lparr>key_machines := []\<rparr> = (ad (pg w))\<lparr>key_machines := []\<rparr>
    else ad (pg w') = ad (pg w)"
    unfolding st .
  have t: "t' = t\<lparr>signals := signals t', key_machines := key_machines t'\<rparr> \<and> key_machines t' = key_machines t"
    if "t'\<lparr>signals := []\<rparr> = t\<lparr>signals := []\<rparr>" for t t' :: tables
    using that by (cases t; cases t') simp
  have m: "t' = t\<lparr>signals := signals t', key_machines := key_machines t'\<rparr> \<and> signals t' = signals t"
    if "t'\<lparr>key_machines := []\<rparr> = t\<lparr>key_machines := []\<rparr>" for t t' :: tables
    using that by (cases t; cases t') simp
  have e: "t' = t \<Longrightarrow> t' = t\<lparr>signals := signals t', key_machines := key_machines t'\<rparr>" for t t' :: tables by simp
  consider (admin) "admin_endpoint ep \<or> ep = AuthLogout" | (sig) "ep = SignalIn" | (pend) "ep = Pending"
    | (other) "\<not> (admin_endpoint ep \<or> ep = AuthLogout)" "ep \<noteq> SignalIn" "ep \<noteq> Pending" by blast
  then show ?thesis
  proof cases
    case admin
    with g have h: "status resp = 401 \<and> ad (pg w') = ad (pg w) \<and> crit w' = crit w" by simp
    then show ?thesis unfolding Some ev using admin e [of "ad (pg w')" "ad (pg w)"] by simp
  next
    case sig
    with g have h: "(ad (pg w'))\<lparr>signals := []\<rparr> = (ad (pg w))\<lparr>signals := []\<rparr>" by (simp add: admin_endpoint_def)
    show ?thesis unfolding Some ev
      by (rule conjI [OF conjunct1 [OF t [OF h]]]) (simp add: sig admin_endpoint_def conjunct2 [OF t [OF h]])
  next
    case pend
    with g have h: "(ad (pg w'))\<lparr>key_machines := []\<rparr> = (ad (pg w))\<lparr>key_machines := []\<rparr>" by (simp add: admin_endpoint_def)
    show ?thesis unfolding Some ev
      by (rule conjI [OF conjunct1 [OF m [OF h]]]) (simp add: pend admin_endpoint_def conjunct2 [OF m [OF h]])
  next
    case other
    with g have h: "ad (pg w') = ad (pg w)" by simp
    then show ?thesis unfolding Some ev using other e [OF h] by simp
  qed
qed

definition issue_post :: "(string \<times> string) list \<Rightarrow> request" where
  "issue_post hs = (bare_request hs)\<lparr>rq_method := ''POST'', rq_path := ''/admin/keys'',
     rq_body := Some (JObj [(''owner'', JStr ''desk'')])\<rparr>"

theorem requests_guarded_witness:
  "\<exists>resp l w'. run_state (serve calm_env demo_cfg (issue_post [])) (calm_world empty_tables demo_time) = ((resp, l), w')
    \<and> status resp = 401 \<and> api_keys (pg w') = []"
proof -
  obtain resp l w' where r: "run_state (serve calm_env demo_cfg (issue_post [])) (calm_world empty_tables demo_time) = ((resp, l), w')"
    by (metis surj_pair)
  have "token_refused calm_env demo_cfg (issue_post []) (calm_world empty_tables demo_time)"
    by (simp add: token_refused_def issue_post_def bare_request_def extractBearer_def HasPrefix_def)
  moreover have "routed (issue_post []) = Some (KeyIssue, [])"
    by (simp add: routed_def issue_post_def bare_request_def clean_path_def path_segments_def routes_def method_matches_def
        HasPrefix_def)
  ultimately show ?thesis
    using requests_guarded [OF calm_deployment _ r] r by (auto simp: admin_endpoint_def empty_tables_def)
qed

text \<open>
  C16: Over any run of the server (requests of every kind in any order, background updates, time,
  and whatever other processes do to the database), the validation of an API key that answers
  answers what the tables say at that moment.
\<close>

theorem validation_follows_tables:
  assumes "deployment E ac al ad D" and "cache_inv al w0" and "(server_step E cfg)\<^sup>*\<^sup>* w0 w"
    and "run_state (ValidateKey E cfg plaintext) w = (Inr v, w')"
  shows "v = key_decision E (clock w) plaintext (ad (pg w))"
  using deployment.ValidateKey_decides [OF assms(1) deployment.cache_inv_run [OF assms(1,3,2)] assms(4)] .

theorem validation_follows_tables_witness:
  "\<exists>x w v w'. run_state (serve calm_env demo_cfg (bare_request [(''X-API-Key'', ''k'')]))
      (calm_world (demo_tables (HashKey ''k'') ''active'' None) 0) = (x, w)
    \<and> run_state (ValidateKey calm_env demo_cfg ''k'') w = (v, w')
    \<and> (\<forall>ck. v = Inr ck \<longrightarrow> ck = key_decision calm_env (clock w) ''k'' (pg w))"
proof -
  obtain x w where r: "run_state (serve calm_env demo_cfg (bare_request [(''X-API-Key'', ''k'')]))
      (calm_world (demo_tables (HashKey ''k'') ''active'' None) 0) = (x, w)" by (metis surj_pair)
  obtain v w' where v: "run_state (ValidateKey calm_env demo_cfg ''k'') w = (v, w')" by (metis surj_pair)
  have "(server_step calm_env demo_cfg)\<^sup>*\<^sup>* (calm_world (demo_tables (HashKey ''k'') ''active'' None) 0) w"
    by (rule r_into_rtranclp) (rule server_step.Request [OF r])
  from validation_follows_tables [OF calm_deployment cache_inv_empty this] r v show ?thesis by fastforce
qed

text \<open>
  C17: The key that IssueKey hands out opens the API: with the text of its answer ValidateKey, if it
  answers, finds an active key with the requested owner and exactly the granted scopes (the
  requested ones, or the copy scope if none was), as long as the keys are as IssueKey left them.
  (Postgres keeps the text of an array of plain scopes.)
\<close>

theorem issued_key_authenticates:
  assumes "deployment E ac al ad D"
    and "run_state (IssueKey E r) w = (resp, w1)" and "rbody resp = Doc (JObj ((''api_key'', JStr p) # rest))"
    and "Decode (dec_struct issue_fields) no_issue r = Some req" and "list_all plain_scope (iq_scopes req)"
    and "array_canon D (scopesToArray (granted req)) = Some (scopesToArray (granted req))"
    and "cache_inv al w2" and "api_keys (ad (pg w2)) = api_keys (ad (pg w1))"
    and "run_state (ValidateKey E cfg p) w2 = (Inr v, w3)"
  shows "\<exists>ck. v = Some ck \<and> ck_Owner ck = iq_owner req \<and> ck_Scopes ck = granted req \<and> ck_Status ck = APIKeyActive"
  using deployment.issued_key_valid [OF assms] .

theorem issued_key_authenticates_witness:
  "\<exists>resp w1 p rest v w3. run_state (IssueKey calm_env (issue_post [])) (calm_world empty_tables 0) = (resp, w1)
    \<and> rbody resp = Doc (JObj ((''api_key'', JStr p) # rest))
    \<and> run_state (ValidateKey calm_env demo_cfg p) w1 = (Inr (Some v), w3)
    \<and> ck_Owner v = ''desk'' \<and> ck_Scopes v = [ScopeCopyReceive]"
proof -
  define p where "p = hex_encode (replicate 32 (of_nat 1 :: byte))"
  have d: "Decode (dec_struct issue_fields) no_issue (issue_post []) = Some (no_issue\<lparr>iq_owner := ''desk''\<rparr>)"
    by (simp add: Decode_def issue_post_def issue_fields_def field_def no_issue_def key_match_def ToUpper_def upper_char_def
        char_of_def bit_0)
  have t: "enc_time 0 = Some (JStr ''1970-01-01T00:00:00Z'')" by code_simp
  obtain resp w1 rest where r: "run_state (IssueKey calm_env (issue_post [])) (calm_world empty_tables 0) = (resp, w1)"
    and b: "rbody resp = Doc (JObj ((''api_key'', JStr p) # rest))" and l: "lru w1 = empty_rview"
    using d t
    by (simp add: IssueKey_def no_issue_def GenerateKey_def rand_Read_def CreateAPIKey_def GetAPIKeyByID_def issued_def
        writeJSON_def first_key_def scan_key_row_def p_def Let_def empty_tables_def has_key_def int4_ok_def)
  have "\<exists>v w3. run_state (ValidateKey calm_env demo_cfg q) w1 = (Inr v, w3)" for q
    by (cases "first_key (filter (\<lambda>r. kr_hash r = HashKey q) (api_keys (pg w1)))")
      (auto simp: ValidateKey_def ValidateKeyDB_def GetAPIKeyCache_def GetAPIKeyByHash_def SetAPIKeyCache_def l
        bytes_or_nil_def Marshal_key_def Let_def)
  then obtain v w3 where v: "run_state (ValidateKey calm_env demo_cfg p) w1 = (Inr v, w3)" by blast
  have "cache_inv id w1" by (simp add: cache_inv_def key_cache_unreadable_def l)
  from issued_key_authenticates [OF calm_deployment r b d _ _ this refl v] r b v
  show ?thesis by (auto simp: no_issue_def granted_def)
qed

text \<open>
  C22: A change of the symbols through the administration API is followed by the next sync of the
  worker's manager: it watches exactly the symbols that are then active, or the twelve default
  symbols when none is.
\<close>

theorem symbol_change_followed:
  assumes "deployment E ac al ad D" and "reliable_db E" and "reliable_crit E"
    and "ep \<in> {SymbolAdd, SymbolActive, SymbolDelete}" and "mgr_ok m"
    and "run_state (admin_handler E ep r) w = (resp, w1)" and "status resp < 300"
    and "run_state (sync E m) w1 = (m', w2)"
  shows "watched m' = (let A = symbol_change ep r (actives (ad (pg w))) in if A = {} then set defaultSymbols else A)"
  using deployment.symbols_follow [OF assms] .

definition delete_request :: request where
  "delete_request = (bare_request [])\<lparr>rq_method := ''DELETE'', rq_value := (\<lambda>k. ''eurusd'')\<rparr>"

theorem symbol_change_followed_witness:
  "\<exists>resp w1 m' w2. run_state (admin_handler calm_env SymbolDelete delete_request)
      (calm_world (symbol_tables [\<lparr>yr_id = 1, yr_symbol = ''EURUSD'', yr_active = True, yr_created = 0\<rparr>]) demo_time) = (resp, w1)
    \<and> run_state (sync calm_env demo_manager) w1 = (m', w2) \<and> watched m' = set defaultSymbols"
proof -
  let ?w = "calm_world (symbol_tables [\<lparr>yr_id = 1, yr_symbol = ''EURUSD'', yr_active = True, yr_created = 0\<rparr>]) demo_time"
  have u: "ToUpper ''eurusd'' = ''EURUSD''" by (simp add: ToUpper_def upper_char_def char_of_def bit_0)
  obtain resp w1 where r: "run_state (admin_handler calm_env SymbolDelete delete_request) ?w = (resp, w1)"
    and s: "status resp < 300"
    by (simp add: Admin.DeleteSymbol_def Store.DeleteSymbol_def delete_request_def u symbol_found_def rows_affected_def
        hits_def symbol_tables_def InvalidateSymbolList_def InvalidateSymbolCache_def writeJSON_def Let_def)
  obtain m' w2 where m: "run_state (sync calm_env demo_manager) w1 = (m', w2)" by (metis surj_pair)
  from symbol_change_followed [OF calm_deployment reliable_calm reliable_crit_calm _ demo_manager_ok r s m] r m
  show ?thesis by (auto simp: actives_def symbol_tables_def delete_request_def u)
qed

end
